(* ===== verification/Prelude.thy ===== *)
theory Prelude
  imports Main "HOL-Library.Sublist"
begin

text \<open>
  Shared vocabulary of the development.  JavaScript numbers on the paths of
  \<open>parseNaturalLanguage\<close> are integers or \<open>NaN\<close> (the only non-integral values the
  code produces come from \<open>parseInt\<close> failing), so a number is an \<open>int option\<close>
  with \<open>None\<close> for \<open>NaN\<close>; a \<open>Date\<close> object is its time value, an integer count of
  milliseconds or \<open>NaN\<close> for an invalid date.  Strings are lists of UTF-16 code
  units below 256 (Latin-1), which is what \<open>char\<close> holds.  The collection
  \<open>js_eval\<close> gathers the unfolding rules that evaluate the builtins on concrete
  arguments; \<open>len_simps\<close> the facts on positions shared by the string and regex
  proofs.
\<close>

named_theorems js_eval "unfolding rules of the modelled JavaScript builtins"
named_theorems len_simps "facts on string positions shared by the builtin models"

type_synonym jsnum = "int option"
type_synonym time_value = "int option"

abbreviation NaN :: jsnum where
  "NaN \<equiv> None"

text \<open>Arithmetic on numbers that may be \<open>NaN\<close>: \<open>NaN\<close> absorbs, comparisons with it are false.\<close>

definition js_add :: "jsnum \<Rightarrow> jsnum \<Rightarrow> jsnum" where
  "js_add a b = (case (a, b) of (Some x, Some y) \<Rightarrow> Some (x + y) | _ \<Rightarrow> None)"

definition js_lt :: "jsnum \<Rightarrow> jsnum \<Rightarrow> bool" where
  "js_lt a b = (case (a, b) of (Some x, Some y) \<Rightarrow> x < y | _ \<Rightarrow> False)"

definition js_le :: "jsnum \<Rightarrow> jsnum \<Rightarrow> bool" where
  "js_le a b = (case (a, b) of (Some x, Some y) \<Rightarrow> x \<le> y | _ \<Rightarrow> False)"

lemma js_arith_Some [simp, js_eval]:
  "js_add (Some x) (Some y) = Some (x + y)"
  "js_lt (Some x) (Some y) \<longleftrightarrow> x < y"
  "js_le (Some x) (Some y) \<longleftrightarrow> x \<le> y"
  by (simp_all add: js_add_def js_lt_def js_le_def)

lemma js_arith_NaN [simp, js_eval]:
  "js_add None b = None" "js_add a None = None"
  "\<not> js_lt None b" "\<not> js_lt a None"
  "\<not> js_le None b" "\<not> js_le a None"
  by (simp_all add: js_add_def js_lt_def js_le_def split: option.split)

text \<open>Positions: the measure facts the loops over a string share.\<close>

lemma diff_Suc_less_len [len_simps]: "i < n \<Longrightarrow> n - Suc i < n - (i::nat)"
  by arith

lemma Suc_diff_le_len [len_simps]: "i \<le> n \<Longrightarrow> Suc n - Suc i < Suc n - (i::nat)"
  by arith

lemma nth_drop_Cons [len_simps]: "i < length s \<Longrightarrow> drop i s = s ! i # drop (Suc i) s"
  by (simp add: Cons_nth_drop_Suc)

end
