(* ===== verification/JSString.thy ===== *)
theory JSString
  imports Prelude
begin

text \<open>
  The string builtins that \<open>parseNaturalLanguage\<close> (src/functions/schedule.js)
  calls, on Latin-1 code units: the character classes \<open>\d\<close>, \<open>\w\<close>, \<open>\s\<close> of
  regular expressions, \<open>toLowerCase\<close>, the case folding of the \<open>/i\<close> flag
  (Canonicalize), \<open>includes\<close>, \<open>trim\<close>, \<open>substring\<close> and \<open>parseInt\<close>, each as
  the ECMAScript specification defines it on this alphabet.
\<close>

definition code_unit :: "char \<Rightarrow> nat" where
  "code_unit c = of_char c"

text \<open>WhiteSpace and LineTerminator below 256: TAB, LF, VT, FF, CR, SPACE, NBSP.\<close>

definition is_js_space :: "char \<Rightarrow> bool" where
  "is_js_space c \<longleftrightarrow> code_unit c \<in> {9, 10, 11, 12, 13, 32, 160}"

definition is_js_digit :: "char \<Rightarrow> bool" where
  "is_js_digit c \<longleftrightarrow> 48 \<le> code_unit c \<and> code_unit c \<le> 57"

definition is_js_word :: "char \<Rightarrow> bool" where
  "is_js_word c \<longleftrightarrow> is_js_digit c \<or> (65 \<le> code_unit c \<and> code_unit c \<le> 90)
     \<or> (97 \<le> code_unit c \<and> code_unit c \<le> 122) \<or> code_unit c = 95"

text \<open>\<open>String.prototype.toLowerCase\<close>: A--Z and the Latin-1 capitals U+00C0--U+00DE but the sign U+00D7.\<close>

definition lower_char :: "char \<Rightarrow> char" where
  "lower_char c = (let n = code_unit c in
     if (65 \<le> n \<and> n \<le> 90) \<or> (192 \<le> n \<and> n \<le> 222 \<and> n \<noteq> 215) then char_of (n + 32) else c)"

definition to_lower_case :: "string \<Rightarrow> string" where
  "to_lower_case s = map lower_char s"

text \<open>
  Canonicalize of the regular-expression semantics without the \<open>u\<close> flag: the upper
  case of the code unit, unless that is not a single code unit (U+00DF) or would map a
  non-ASCII unit to ASCII; U+00B5 and U+00FF map outside Latin-1, so the result is a
  code unit number.
\<close>

definition canonicalize :: "char \<Rightarrow> nat" where
  "canonicalize c = (let n = code_unit c in
     if 97 \<le> n \<and> n \<le> 122 then n - 32
     else if 224 \<le> n \<and> n \<le> 254 \<and> n \<noteq> 247 then n - 32
     else if n = 181 then 924
     else if n = 255 then 376
     else n)"

text \<open>\<open>String.prototype.includes\<close> with no position: some suffix starts with the search string.\<close>

fun js_includes :: "string \<Rightarrow> string \<Rightarrow> bool" where
  "js_includes [] w \<longleftrightarrow> w = []"
| "js_includes (c # s) w \<longleftrightarrow> prefix w (c # s) \<or> js_includes s w"

text \<open>\<open>String.prototype.trim\<close>: drop WhiteSpace and LineTerminator at both ends.\<close>

definition js_trim :: "string \<Rightarrow> string" where
  "js_trim s = rev (dropWhile is_js_space (rev (dropWhile is_js_space s)))"

text \<open>\<open>String.prototype.substring(start, end)\<close> on non-negative arguments: clamp, order, cut.\<close>

definition js_substring :: "string \<Rightarrow> nat \<Rightarrow> nat \<Rightarrow> string" where
  "js_substring s a b = (let len = length s; fs = min a len; fe = min b len;
     lo = min fs fe; hi = max fs fe in take (hi - lo) (drop lo s))"

text \<open>
  \<open>parseInt(string)\<close> with the radix omitted: skip leading white space, read a sign,
  strip a \<open>0x\<close> prefix (radix 16, else 10), take the longest prefix of radix digits;
  \<open>NaN\<close> when it is empty.
\<close>

definition digit_value :: "char \<Rightarrow> nat option" where
  "digit_value c = (let n = code_unit c in
     if 48 \<le> n \<and> n \<le> 57 then Some (n - 48)
     else if 97 \<le> n \<and> n \<le> 122 then Some (n - 87)
     else if 65 \<le> n \<and> n \<le> 90 then Some (n - 55)
     else None)"

fun radix_digits :: "nat \<Rightarrow> string \<Rightarrow> nat list" where
  "radix_digits r [] = []"
| "radix_digits r (c # cs) =
     (case digit_value c of
        Some d \<Rightarrow> if d < r then d # radix_digits r cs else []
      | None \<Rightarrow> [])"

definition digits_to_nat :: "nat \<Rightarrow> nat list \<Rightarrow> nat" where
  "digits_to_nat r ds = foldl (\<lambda>acc d. r * acc + d) 0 ds"

definition parse_int :: "string \<Rightarrow> jsnum" where
  "parse_int str = (let S = dropWhile is_js_space str;
      sign = (if S \<noteq> [] \<and> hd S = CHR ''-'' then -1 else (1::int));
      S1 = (if S \<noteq> [] \<and> (hd S = CHR ''-'' \<or> hd S = CHR ''+'') then tl S else S);
      R = (if take 2 S1 = ''0x'' \<or> take 2 S1 = ''0X'' then 16 else 10);
      S2 = (if R = 16 then drop 2 S1 else S1);
      Z = radix_digits R S2
    in if Z = [] then None else Some (sign * int (digits_to_nat R Z)))"

text \<open>\<open>ToString\<close> of a capture that may be \<open>undefined\<close>, as \<open>parseInt\<close> sees it.\<close>

definition capture_string :: "string option \<Rightarrow> string" where
  "capture_string g = (case g of None \<Rightarrow> ''undefined'' | Some s \<Rightarrow> s)"

text \<open>JavaScript truthiness of a value that is a string or \<open>undefined\<close>.\<close>

definition truthy_str :: "string option \<Rightarrow> bool" where
  "truthy_str g \<longleftrightarrow> (case g of None \<Rightarrow> False | Some s \<Rightarrow> s \<noteq> [])"

text \<open>The value of a string of decimal digits, for the statements below.\<close>

definition dec_value :: "string \<Rightarrow> nat" where
  "dec_value s = digits_to_nat 10 (map (\<lambda>c. code_unit c - 48) s)"

subsection \<open>Properties of the string builtins\<close>

text \<open>\<open>includes\<close>, which tests the suffixes one by one for a prefix, holds exactly when the search string is a contiguous substring.\<close>

lemma js_includes_sublist: "js_includes s w \<longleftrightarrow> sublist w s"
  by (induction s) (auto simp: sublist_Cons_right)

lemma js_substring_0 [simp]: "js_substring s 0 n = take n s"
  by (simp add: js_substring_def min_def Let_def)

lemma digit_not_space: "is_js_digit c \<Longrightarrow> \<not> is_js_space c"
  by (auto simp: is_js_digit_def is_js_space_def)

lemma digit_not_sign: "is_js_digit c \<Longrightarrow> c \<noteq> CHR ''-'' \<and> c \<noteq> CHR ''+'' \<and> c \<noteq> CHR ''x'' \<and> c \<noteq> CHR ''X''"
  by (auto simp: is_js_digit_def code_unit_def)

lemma radix_digits_dec:
  "\<forall>c\<in>set s. is_js_digit c \<Longrightarrow> radix_digits 10 s = map (\<lambda>c. code_unit c - 48) s"
  by (induction s) (auto simp: digit_value_def is_js_digit_def Let_def)

lemma parse_int_digits:
  assumes "s \<noteq> []" and "\<forall>c\<in>set s. is_js_digit c"
  shows "parse_int s = Some (int (dec_value s))"
proof -
  obtain c t where s: "s = c # t" using assms(1) by (cases s) auto
  have "is_js_digit c" using assms(2) s by simp
  then have c: "\<not> is_js_space c" "c \<noteq> CHR ''-''" "c \<noteq> CHR ''+''"
    by (simp_all add: digit_not_space digit_not_sign)
  have hx: "\<not> (take 2 s = ''0x'' \<or> take 2 s = ''0X'')"
    using assms(2) s by (cases t) (auto dest: digit_not_sign)
  have d: "dropWhile is_js_space s = s" and h: "hd s \<noteq> CHR ''-''" "hd s \<noteq> CHR ''+''"
    using c s by simp_all
  have r: "radix_digits 10 s = map (\<lambda>c. code_unit c - 48) s"
    using assms(2) by (rule radix_digits_dec)
  show ?thesis
    unfolding parse_int_def Let_def d
    using assms(1) h hx r by (simp add: dec_value_def)
qed

lemma digits_to_nat_dec_bound: "\<forall>d\<in>set ds. d < 10 \<Longrightarrow> digits_to_nat 10 ds < 10 ^ length ds"
proof -
  have "\<And>acc. \<forall>d\<in>set ds. d < 10 \<Longrightarrow> foldl (\<lambda>acc d. 10 * acc + d) acc ds < (acc + 1) * 10 ^ length ds"
  proof (induction ds)
    case Nil then show ?case by simp
  next
    case (Cons d ds)
    then have "foldl (\<lambda>acc d. 10 * acc + d) (10 * acc + d) ds < (10 * acc + d + 1) * 10 ^ length ds"
      by simp
    also have "\<dots> \<le> (acc + 1) * 10 ^ length (d # ds)"
    proof -
      have "d * 10 ^ length ds \<le> 9 * 10 ^ length ds" using Cons.prems by simp
      then show ?thesis by (simp add: algebra_simps)
    qed
    finally show ?case by simp
  qed
  from this [of 0] show "\<forall>d\<in>set ds. d < 10 \<Longrightarrow> ?thesis" by (simp add: digits_to_nat_def)
qed

lemma dec_value_bound: "\<forall>c\<in>set s. is_js_digit c \<Longrightarrow> dec_value s < 10 ^ length s"
proof -
  assume "\<forall>c\<in>set s. is_js_digit c"
  then have "\<forall>d\<in>set (map (\<lambda>c. code_unit c - 48) s). d < 10"
    by (auto simp: is_js_digit_def)
  then have "digits_to_nat 10 (map (\<lambda>c. code_unit c - 48) s) < 10 ^ length (map (\<lambda>c. code_unit c - 48) s)"
    by (rule digits_to_nat_dec_bound)
  then show ?thesis by (simp add: dec_value_def)
qed

text \<open>\<open>parseInt\<close> of one or two decimal digits, as the hour and minute groups capture them, is a number from 0 to 99, never \<open>NaN\<close>.\<close>

lemma parse_int_two_digits:
  "s \<noteq> [] \<Longrightarrow> length s \<le> 2 \<Longrightarrow> \<forall>c\<in>set s. is_js_digit c \<Longrightarrow> \<exists>n. parse_int s = Some n \<and> 0 \<le> n \<and> n \<le> 99"
proof -
  assume a: "s \<noteq> []" "length s \<le> 2" "\<forall>c\<in>set s. is_js_digit c"
  have "dec_value s < 10 ^ length s" using a(3) by (rule dec_value_bound)
  also have "(10::nat) ^ length s \<le> 10 ^ 2" using a(2) by (rule power_increasing) simp
  finally show ?thesis using parse_int_digits [OF a(1) a(3)] by auto
qed

end
