(* ===== verification/JSRegex.thy ===== *)
theory JSRegex
  imports JSString
begin

text \<open>
  The regular expressions of src/functions/schedule.js and the two ways the code uses
  them: \<open>str.match(re)\<close> without the \<open>g\<close> flag (the leftmost match and its
  captures) and \<open>str.replace(re, rep)\<close> with it (every match replaced).  The matcher
  follows the continuation-passing semantics of ECMAScript (section 22.2.2): a matcher
  takes a state (end index, captures) and a continuation and either fails or returns
  the state the whole pattern ends in; alternatives are tried left first, a greedy
  quantifier tries the longest repetition first and backtracks, a quantified group
  resets its captures and may not match the empty string (RepeatMatcher).  Only the
  constructs the code's patterns use are modelled: literal text, the classes
  \<open>\d \w \s\<close>, their bounded and unbounded greedy repetitions, sequence,
  alternation, the greedy \<open>?\<close> and capturing groups.
\<close>

datatype char_class = ClsDigit | ClsWord | ClsSpace

datatype rx =
    RLit string
  | RCls char_class
  | RRep char_class nat "nat option"
  | RSeq rx rx
  | RAlt rx rx
  | ROpt rx
  | RGrp nat rx

text \<open>A concatenation of terms, and an alternation of literal words, written as in the source.\<close>

fun rseq :: "rx list \<Rightarrow> rx" where
  "rseq [] = RLit []"
| "rseq [r] = r"
| "rseq (r # rs) = RSeq r (rseq rs)"

fun ralt :: "string list \<Rightarrow> rx" where
  "ralt [] = RLit []"
| "ralt [w] = RLit w"
| "ralt (w # ws) = RAlt (RLit w) (ralt ws)"

type_synonym captures = "nat \<rightharpoonup> nat \<times> nat"
type_synonym mstate = "nat \<times> captures"
type_synonym cont = "mstate \<Rightarrow> mstate option"

definition class_test :: "char_class \<Rightarrow> char \<Rightarrow> bool" where
  "class_test k c = (case k of
     ClsDigit \<Rightarrow> is_js_digit c | ClsWord \<Rightarrow> is_js_word c | ClsSpace \<Rightarrow> is_js_space c)"

text \<open>One character of a pattern against one of the input; the \<open>i\<close> flag compares canonical forms.\<close>

definition char_eq :: "bool \<Rightarrow> char \<Rightarrow> char \<Rightarrow> bool" where
  "char_eq ic a b \<longleftrightarrow> (if ic then canonicalize a = canonicalize b else a = b)"

definition lit_at :: "bool \<Rightarrow> string \<Rightarrow> nat \<Rightarrow> string \<Rightarrow> bool" where
  "lit_at ic s i w \<longleftrightarrow> i + length w \<le> length s \<and> list_all2 (char_eq ic) w (take (length w) (drop i s))"

definition class_at :: "char_class \<Rightarrow> string \<Rightarrow> nat \<Rightarrow> bool" where
  "class_at k s i \<longleftrightarrow> i < length s \<and> class_test k (s ! i)"

text \<open>
  RepeatMatcher for an atom that is one character of a class, \<open>{lo,hi}\<close> greedy
  (\<open>None\<close> for an unbounded maximum): the atom consumes one character, so the
  empty-match check of the specification never fires and no capture is reset.
\<close>

function rep_match :: "string \<Rightarrow> char_class \<Rightarrow> nat \<Rightarrow> nat option \<Rightarrow> cont \<Rightarrow> mstate \<Rightarrow> mstate option" where
  "rep_match s k lo hi c (i, cap) =
     (if hi = Some 0 then c (i, cap)
      else if 0 < lo then
        (if class_at k s i then rep_match s k (lo - 1) (map_option (\<lambda>h. h - 1) hi) c (Suc i, cap)
         else None)
      else if class_at k s i then
        (case rep_match s k 0 (map_option (\<lambda>h. h - 1) hi) c (Suc i, cap) of
           Some r \<Rightarrow> Some r
         | None \<Rightarrow> c (i, cap))
      else c (i, cap))"
  by pat_completeness auto
termination
  by (relation "measure (\<lambda>(s, k, lo, hi, c, i, cap). length s - i)") (auto simp: class_at_def)

declare rep_match.simps [simp del]

primrec rx_groups :: "rx \<Rightarrow> nat list" where
  "rx_groups (RLit w) = []"
| "rx_groups (RCls k) = []"
| "rx_groups (RRep k lo hi) = []"
| "rx_groups (RSeq a b) = rx_groups a @ rx_groups b"
| "rx_groups (RAlt a b) = rx_groups a @ rx_groups b"
| "rx_groups (ROpt a) = rx_groups a"
| "rx_groups (RGrp n a) = n # rx_groups a"

definition clear_groups :: "nat list \<Rightarrow> captures \<Rightarrow> captures" where
  "clear_groups gs cap = (\<lambda>n. if n \<in> set gs then None else cap n)"

primrec rx_match :: "bool \<Rightarrow> string \<Rightarrow> rx \<Rightarrow> cont \<Rightarrow> mstate \<Rightarrow> mstate option" where
  "rx_match ic s (RLit w) c =
     (\<lambda>(i, cap). if lit_at ic s i w then c (i + length w, cap) else None)"
| "rx_match ic s (RCls k) c =
     (\<lambda>(i, cap). if class_at k s i then c (Suc i, cap) else None)"
| "rx_match ic s (RRep k lo hi) c = rep_match s k lo hi c"
| "rx_match ic s (RSeq a b) c = rx_match ic s a (rx_match ic s b c)"
| "rx_match ic s (RAlt a b) c =
     (\<lambda>st. case rx_match ic s a c st of Some r \<Rightarrow> Some r | None \<Rightarrow> rx_match ic s b c st)"
| "rx_match ic s (ROpt a) c =
     (\<lambda>(i, cap).
        case rx_match ic s a (\<lambda>(j, cap'). if j = i then None else c (j, cap'))
               (i, clear_groups (rx_groups a) cap) of
          Some r \<Rightarrow> Some r
        | None \<Rightarrow> c (i, cap))"
| "rx_match ic s (RGrp n a) c =
     (\<lambda>(i, cap). rx_match ic s a (\<lambda>(j, cap'). c (j, cap'(n \<mapsto> (i, j)))) (i, cap))"

text \<open>
  RegExpBuiltinExec: try the pattern at \<open>i\<close>, \<open>i + 1\<close>, \<dots> up to the length of the
  input; the first success gives the match (start, end, captures).
\<close>

function rx_search :: "bool \<Rightarrow> rx \<Rightarrow> string \<Rightarrow> nat \<Rightarrow> (nat \<times> nat \<times> captures) option" where
  "rx_search ic r s i =
     (if length s < i then None
      else case rx_match ic s r Some (i, Map.empty) of
             Some (j, cap) \<Rightarrow> Some (i, j, cap)
           | None \<Rightarrow> rx_search ic r s (Suc i))"
  by pat_completeness auto
termination
  by (relation "measure (\<lambda>(ic, r, s, i). Suc (length s) - i)") auto

declare rx_search.simps [simp del]

text \<open>\<open>str.match(re)\<close> for a pattern without the \<open>g\<close> flag, and \<open>match[n]\<close> of its result.\<close>

definition js_match :: "bool \<Rightarrow> rx \<Rightarrow> string \<Rightarrow> (nat \<times> nat \<times> captures) option" where
  "js_match ic r s = rx_search ic r s 0"

definition match_group :: "string \<Rightarrow> nat \<times> nat \<times> captures \<Rightarrow> nat \<Rightarrow> string option" where
  "match_group s m n = (case m of (a, b, cap) \<Rightarrow>
     if n = 0 then Some (take (b - a) (drop a s))
     else map_option (\<lambda>(x, y). take (y - x) (drop x s)) (cap n))"

subsection \<open>Where the matcher calls its continuation\<close>

text \<open>
  A matcher started at \<open>i\<close> that succeeds has called its continuation at a position
  between \<open>i\<close> and the end of the input (or \<open>i\<close> itself, past the end): it never
  moves left, and it never reads past the input.
\<close>

definition cont_between :: "cont \<Rightarrow> nat \<Rightarrow> nat \<Rightarrow> mstate option \<Rightarrow> bool" where
  "cont_between c lo hi y \<longleftrightarrow> (\<exists>x. c x = y \<and> lo \<le> fst x \<and> fst x \<le> hi)"

lemma cont_between_mono:
  "cont_between c lo hi y \<Longrightarrow> lo' \<le> lo \<Longrightarrow> hi \<le> hi' \<Longrightarrow> cont_between c lo' hi' y"
  by (auto simp: cont_between_def)

lemma cont_between_here [intro]:
  "c (i, cap) = y \<Longrightarrow> lo \<le> i \<Longrightarrow> i \<le> hi \<Longrightarrow> cont_between c lo hi y"
  by (auto simp: cont_between_def)

lemma rep_match_calls:
  "rep_match s k lo hi c st = Some y \<Longrightarrow> cont_between c (fst st) (max (fst st) (length s)) (Some y)"
proof (induction s k lo hi c st arbitrary: y rule: rep_match.induct)
  case (1 s k lo hi c i cap)
  note eq = rep_match.simps [of s k lo hi c i cap]
  let ?hi' = "map_option (\<lambda>h. h - 1) hi"
  show ?case
  proof (cases "hi = Some 0 \<or> \<not> class_at k s i")
    case True
    with "1.prems" show ?thesis unfolding eq by (auto split: if_splits)
  next
    case False
    then have cl: "class_at k s i" and hi: "hi \<noteq> Some 0" by auto
    then have len: "max (Suc i) (length s) = length s" "i \<le> length s"
      by (auto simp: class_at_def)
    show ?thesis
    proof (cases "0 < lo")
      case True
      with "1.prems" cl hi have "rep_match s k (lo - 1) ?hi' c (Suc i, cap) = Some y"
        unfolding eq by simp
      then have "cont_between c (Suc i) (length s) (Some y)"
        using "1.IH"(1) [OF hi True cl] len by simp
      then show ?thesis by (rule cont_between_mono) (simp_all add: len)
    next
      case False
      show ?thesis
      proof (cases "rep_match s k 0 ?hi' c (Suc i, cap)")
        case None
        with "1.prems" cl hi False have "c (i, cap) = Some y" unfolding eq by simp
        then show ?thesis by auto
      next
        case (Some r)
        with "1.prems" cl hi False have "r = y" unfolding eq by simp
        with Some have "cont_between c (Suc i) (length s) (Some y)"
          using "1.IH"(2) [OF hi False cl] len by simp
        then show ?thesis by (rule cont_between_mono) (simp_all add: len)
      qed
    qed
  qed
qed

lemma rx_match_calls:
  "rx_match ic s r c (i, cap) = Some y \<Longrightarrow> cont_between c i (max i (length s)) (Some y)"
proof (induction r arbitrary: c i cap y)
  case (RLit w)
  then show ?case by (auto simp: lit_at_def split: if_splits)
next
  case (RCls k)
  then show ?case by (auto simp: class_at_def split: if_splits)
next
  case (RRep k lo hi)
  then show ?case using rep_match_calls by fastforce
next
  case (RSeq a b)
  from RSeq.prems RSeq.IH(1) obtain x where
    x: "rx_match ic s b c x = Some y" "i \<le> fst x" "fst x \<le> max i (length s)"
    by (fastforce simp: cont_between_def)
  obtain j cap' where "x = (j, cap')" by (cases x)
  with x RSeq.IH(2) show ?case by (fastforce simp: cont_between_def)
next
  case (RAlt a b)
  then show ?case by (auto split: option.splits)
next
  case (ROpt a)
  show ?case
  proof (cases "rx_match ic s a (\<lambda>(j, cap'). if j = i then None else c (j, cap'))
                  (i, clear_groups (rx_groups a) cap)")
    case None
    with ROpt.prems show ?thesis by auto
  next
    case (Some r)
    with ROpt.prems ROpt.IH [OF Some] show ?thesis
      by (auto simp: cont_between_def split: if_splits)
  qed
next
  case (RGrp n a)
  from RGrp.prems RGrp.IH show ?case
    by (fastforce simp: cont_between_def)
qed

lemma rx_match_Some_bounds:
  "rx_match ic s r Some (i, cap) = Some (j, cap') \<Longrightarrow> i \<le> j \<and> j \<le> max i (length s)"
  by (drule rx_match_calls) (auto simp: cont_between_def)

lemma rx_search_bounds:
  "rx_search ic r s i = Some (a, b, cap) \<Longrightarrow> i \<le> a \<and> a \<le> b \<and> b \<le> length s"
proof (induction ic r s i rule: rx_search.induct)
  case (1 ic r s i)
  show ?case
  proof (cases "rx_match ic s r Some (i, Map.empty)")
    case None
    with "1.prems" have "\<not> length s < i" "rx_search ic r s (Suc i) = Some (a, b, cap)"
      unfolding rx_search.simps [of ic r s i] by (auto split: if_splits)
    with "1.IH" None show ?thesis by fastforce
  next
    case (Some st)
    with "1.prems" rx_match_Some_bounds [of ic s r i Map.empty "fst st" "snd st"]
    show ?thesis unfolding rx_search.simps [of ic r s i] by (auto split: if_splits)
  qed
qed
text \<open>The search returns the leftmost position where the pattern matches, and none before it.\<close>

lemma rx_search_Some:
  "rx_search ic r s i = Some (a, b, cap) \<Longrightarrow>
     rx_match ic s r Some (a, Map.empty) = Some (b, cap) \<and>
     (\<forall>k. i \<le> k \<and> k < a \<longrightarrow> rx_match ic s r Some (k, Map.empty) = None)"
proof (induction ic r s i rule: rx_search.induct)
  case (1 ic r s i)
  note eq = rx_search.simps [of ic r s i]
  show ?case
  proof (cases "rx_match ic s r Some (i, Map.empty)")
    case None
    with "1.prems" have "\<not> length s < i" "rx_search ic r s (Suc i) = Some (a, b, cap)"
      unfolding eq by (auto split: if_splits)
    with "1.IH" None show ?thesis by (metis Suc_leI le_neq_implies_less)
  next
    case (Some st)
    with "1.prems" show ?thesis unfolding eq by (auto split: if_splits)
  qed
qed

lemma rx_search_None:
  "rx_search ic r s i = None \<Longrightarrow> i \<le> k \<Longrightarrow> k \<le> length s \<Longrightarrow> rx_match ic s r Some (k, Map.empty) = None"
proof (induction ic r s i rule: rx_search.induct)
  case (1 ic r s i)
  note eq = rx_search.simps [of ic r s i]
  show ?case
  proof (cases "k = i")
    case True
    with "1.prems" show ?thesis unfolding eq by (auto split: if_splits option.splits)
  next
    case False
    from "1.prems"(2,3) have ni: "\<not> length s < i" by simp
    have m: "rx_match ic s r Some (i, Map.empty) = None"
      using "1.prems"(1) ni unfolding eq by (auto split: option.splits)
    have "rx_search ic r s (Suc i) = None" using "1.prems"(1) ni m unfolding eq by simp
    moreover have "Suc i \<le> k" using "1.prems"(2) False by simp
    ultimately show ?thesis using "1.IH" [OF ni m] "1.prems"(3) by blast
  qed
qed

subsection \<open>Global replacement\<close>

text \<open>
  \<open>str.replace(re, rep)\<close> with the \<open>g\<close> flag and a replacement without \<open>$\<close>:
  RegExp.prototype[@@replace] collects the matches from \<open>lastIndex = 0\<close>, moving one
  past an empty match, and copies the text between them; \<open>p\<close> is the next source
  position, \<open>i\<close> the index the next search starts from.
\<close>

function rx_replace_go :: "bool \<Rightarrow> rx \<Rightarrow> string \<Rightarrow> string \<Rightarrow> nat \<Rightarrow> nat \<Rightarrow> string" where
  "rx_replace_go ic r rep s p i =
     (case rx_search ic r s i of
        None \<Rightarrow> drop p s
      | Some (a, b, cap) \<Rightarrow>
          take (a - p) (drop p s) @ rep @ rx_replace_go ic r rep s b (if b = a then Suc b else b))"
  by pat_completeness auto
termination
  by (relation "measure (\<lambda>(ic, r, rep, s, p, i). Suc (length s) - i)") (auto dest: rx_search_bounds)

declare rx_replace_go.simps [simp del]

definition js_replace_all :: "bool \<Rightarrow> rx \<Rightarrow> string \<Rightarrow> string \<Rightarrow> string" where
  "js_replace_all ic r rep s = rx_replace_go ic r rep s 0 0"

lemma js_replace_all_no_match:
  "js_match ic r s = None \<Longrightarrow> js_replace_all ic r rep s = s"
  by (simp add: js_match_def js_replace_all_def rx_replace_go.simps)

text \<open>A quantifier \<open>{lo,hi}\<close> with \<open>lo > hi\<close> is an early SyntaxError; the patterns of the code are well formed.\<close>

definition rep_bounds_ok :: "nat \<Rightarrow> nat option \<Rightarrow> bool" where
  "rep_bounds_ok lo hi \<longleftrightarrow> (case hi of None \<Rightarrow> True | Some h \<Rightarrow> lo \<le> h)"

primrec rx_wf :: "rx \<Rightarrow> bool" where
  "rx_wf (RLit w) \<longleftrightarrow> True"
| "rx_wf (RCls k) \<longleftrightarrow> True"
| "rx_wf (RRep k lo hi) \<longleftrightarrow> rep_bounds_ok lo hi"
| "rx_wf (RSeq a b) \<longleftrightarrow> rx_wf a \<and> rx_wf b"
| "rx_wf (RAlt a b) \<longleftrightarrow> rx_wf a \<and> rx_wf b"
| "rx_wf (ROpt a) \<longleftrightarrow> rx_wf a"
| "rx_wf (RGrp n a) \<longleftrightarrow> rx_wf a"

subsection \<open>A declarative semantics, and the soundness of the backtracking matcher\<close>

text \<open>
  \<open>rx_sem ic s r i cap j cap'\<close>: the pattern \<open>r\<close> matches \<open>s[i..j)\<close>, turning the
  captures \<open>cap\<close> into \<open>cap'\<close>.  It says which matches exist and leaves out the order in
  which the engine tries them; every match the engine returns is one of them.
\<close>

inductive rx_sem :: "bool \<Rightarrow> string \<Rightarrow> rx \<Rightarrow> nat \<Rightarrow> captures \<Rightarrow> nat \<Rightarrow> captures \<Rightarrow> bool" where
  sem_lit: "lit_at ic s i w \<Longrightarrow> rx_sem ic s (RLit w) i cap (i + length w) cap"
| sem_cls: "class_at k s i \<Longrightarrow> rx_sem ic s (RCls k) i cap (Suc i) cap"
| sem_rep: "lo \<le> n \<Longrightarrow> (case hi of None \<Rightarrow> True | Some h \<Rightarrow> n \<le> h) \<Longrightarrow>
     (\<forall>q<n. class_at k s (i + q)) \<Longrightarrow> rx_sem ic s (RRep k lo hi) i cap (i + n) cap"
| sem_seq: "rx_sem ic s a i cap m capm \<Longrightarrow> rx_sem ic s b m capm j cap' \<Longrightarrow>
     rx_sem ic s (RSeq a b) i cap j cap'"
| sem_alt1: "rx_sem ic s a i cap j cap' \<Longrightarrow> rx_sem ic s (RAlt a b) i cap j cap'"
| sem_alt2: "rx_sem ic s b i cap j cap' \<Longrightarrow> rx_sem ic s (RAlt a b) i cap j cap'"
| sem_opt_some: "rx_sem ic s a i (clear_groups (rx_groups a) cap) j cap' \<Longrightarrow> j \<noteq> i \<Longrightarrow>
     rx_sem ic s (ROpt a) i cap j cap'"
| sem_opt_none: "rx_sem ic s (ROpt a) i cap i cap"
| sem_grp: "rx_sem ic s a i cap j cap' \<Longrightarrow> rx_sem ic s (RGrp n a) i cap j (cap'(n \<mapsto> (i, j)))"

inductive_cases sem_litE: "rx_sem ic s (RLit w) i cap j cap'"
inductive_cases sem_clsE: "rx_sem ic s (RCls k) i cap j cap'"
inductive_cases sem_repE: "rx_sem ic s (RRep k lo hi) i cap j cap'"
inductive_cases sem_seqE: "rx_sem ic s (RSeq a b) i cap j cap'"
inductive_cases sem_altE: "rx_sem ic s (RAlt a b) i cap j cap'"
inductive_cases sem_optE: "rx_sem ic s (ROpt a) i cap j cap'"
inductive_cases sem_grpE: "rx_sem ic s (RGrp n a) i cap j cap'"

lemma class_run_Suc:
  assumes "\<forall>q<n. class_at k s (Suc i + q)" and "class_at k s i"
  shows "\<forall>q<Suc n. class_at k s (i + q)"
proof (intro allI impI)
  fix q assume q: "q < Suc n"
  show "class_at k s (i + q)"
  proof (cases q)
    case 0
    then show ?thesis using assms(2) by simp
  next
    case (Suc q')
    with q assms(1) have "class_at k s (Suc i + q')" by simp
    with Suc show ?thesis by simp
  qed
qed
lemma rep_match_sound:
  "rep_match s k lo hi c st = Some y \<Longrightarrow> rep_bounds_ok lo hi \<Longrightarrow>
     \<exists>n. lo \<le> n \<and> (case hi of None \<Rightarrow> True | Some h \<Rightarrow> n \<le> h) \<and>
         (\<forall>q<n. class_at k s (fst st + q)) \<and> c (fst st + n, snd st) = Some y"
proof (induction s k lo hi c st arbitrary: y rule: rep_match.induct)
  case (1 s k lo hi c i cap)
  note eq = rep_match.simps [of s k lo hi c i cap]
  let ?hi' = "map_option (\<lambda>h. h - 1) hi"
  have bound: "\<And>n. hi \<noteq> Some 0 \<Longrightarrow> (case ?hi' of None \<Rightarrow> True | Some h \<Rightarrow> n \<le> h) \<Longrightarrow>
      (case hi of None \<Rightarrow> True | Some h \<Rightarrow> Suc n \<le> h)"
    by (cases hi) auto
  show ?case
  proof (cases "hi = Some 0")
    case True
    with "1.prems" show ?thesis unfolding eq by (intro exI [of _ 0]) (simp add: rep_bounds_ok_def)
  next
    case hi: False
    show ?thesis
    proof (cases "0 < lo")
      case lo: True
      show ?thesis
      proof (cases "class_at k s i")
        case False
        with "1.prems" hi lo show ?thesis unfolding eq by simp
      next
        case cl: True
        with "1.prems" hi lo have "rep_match s k (lo - 1) ?hi' c (Suc i, cap) = Some y"
          unfolding eq by simp
        moreover have "rep_bounds_ok (lo - 1) ?hi'"
          using "1.prems"(2) hi lo by (cases hi) (auto simp: rep_bounds_ok_def)
        ultimately obtain n where n: "lo - 1 \<le> n" "case ?hi' of None \<Rightarrow> True | Some h \<Rightarrow> n \<le> h"
          "\<forall>q<n. class_at k s (Suc i + q)" "c (Suc i + n, cap) = Some y"
          using "1.IH"(1) [OF hi lo cl] by auto
        show ?thesis
          using n lo cl class_run_Suc [OF n(3) cl] bound [OF hi n(2)] by (intro exI [of _ "Suc n"]) simp
      qed
    next
      case lo: False
      show ?thesis
      proof (cases "class_at k s i")
        case False
        with "1.prems" hi lo show ?thesis unfolding eq by (intro exI [of _ 0]) (simp split: option.split)
      next
        case cl: True
        show ?thesis
        proof (cases "rep_match s k 0 ?hi' c (Suc i, cap)")
          case None
          with "1.prems" hi lo cl show ?thesis unfolding eq by (intro exI [of _ 0]) (simp split: option.split)
        next
          case (Some r)
          with "1.prems" hi lo cl have ry: "r = y" unfolding eq by simp
          have b0: "rep_bounds_ok 0 ?hi'" by (simp add: rep_bounds_ok_def split: option.split)
          from "1.IH"(2) [OF hi lo cl Some b0] ry obtain n where
            n: "case ?hi' of None \<Rightarrow> True | Some h \<Rightarrow> n \<le> h"
            "\<forall>q<n. class_at k s (Suc i + q)" "c (Suc i + n, cap) = Some y"
            by auto
          show ?thesis
            using n lo class_run_Suc [OF n(2) cl] bound [OF hi n(1)] by (intro exI [of _ "Suc n"]) simp
        qed
      qed
    qed
  qed
qed

theorem rx_match_sound:
  "rx_match ic s r c (i, cap) = Some y \<Longrightarrow> rx_wf r \<Longrightarrow> \<exists>j cap'. c (j, cap') = Some y \<and> rx_sem ic s r i cap j cap'"
proof (induction r arbitrary: c i cap y)
  case (RLit w)
  then show ?case by (auto intro: sem_lit split: if_splits)
next
  case (RCls k)
  then show ?case by (auto intro: sem_cls split: if_splits)
next
  case (RRep k lo hi)
  then obtain n where "lo \<le> n" "case hi of None \<Rightarrow> True | Some h \<Rightarrow> n \<le> h"
    "\<forall>q<n. class_at k s (i + q)" "c (i + n, cap) = Some y"
    using rep_match_sound [of s k lo hi c "(i, cap)" y] by auto
  then show ?case by (blast intro: sem_rep)
next
  case (RSeq a b)
  from RSeq.prems(2) have wf: "rx_wf a" "rx_wf b" by simp_all
  have "rx_match ic s a (rx_match ic s b c) (i, cap) = Some y" using RSeq.prems(1) by simp
  from RSeq.IH(1) [OF this wf(1)] obtain m capm where
    m: "rx_match ic s b c (m, capm) = Some y" "rx_sem ic s a i cap m capm" by blast
  from RSeq.IH(2) [OF m(1) wf(2)] obtain j cap' where "c (j, cap') = Some y" "rx_sem ic s b m capm j cap'"
    by auto
  with m(2) show ?case by (blast intro: sem_seq)
next
  case (RAlt a b)
  from RAlt.prems(2) have wf: "rx_wf a" "rx_wf b" by simp_all
  show ?case
  proof (cases "rx_match ic s a c (i, cap)")
    case None
    with RAlt.prems(1) have "rx_match ic s b c (i, cap) = Some y" by simp
    from RAlt.IH(2) [OF this wf(2)] show ?thesis by (blast intro: sem_alt2)
  next
    case (Some r)
    with RAlt.prems(1) have "rx_match ic s a c (i, cap) = Some y" by simp
    from RAlt.IH(1) [OF this wf(1)] show ?thesis by (blast intro: sem_alt1)
  qed
next
  case (ROpt a)
  show ?case
  proof (cases "rx_match ic s a (\<lambda>(j, cap'). if j = i then None else c (j, cap'))
                  (i, clear_groups (rx_groups a) cap)")
    case None
    with ROpt.prems show ?thesis by (auto intro: sem_opt_none)
  next
    case (Some r)
    with ROpt.prems have ry: "r = y" by simp
    from ROpt.prems(2) have wf: "rx_wf a" by simp
    from ROpt.IH [OF Some wf] ry obtain j cap' where
      "(if j = i then None else c (j, cap')) = Some y"
      "rx_sem ic s a i (clear_groups (rx_groups a) cap) j cap'"
      by auto
    then show ?thesis by (auto intro: sem_opt_some split: if_splits)
  qed
next
  case (RGrp n a)
  from RGrp.prems have m: "rx_match ic s a (\<lambda>(j, cap'). c (j, cap'(n \<mapsto> (i, j)))) (i, cap) = Some y"
    and wf: "rx_wf a" by simp_all
  from RGrp.IH [OF m wf]
  obtain j cap' where "c (j, cap'(n \<mapsto> (i, j))) = Some y" "rx_sem ic s a i cap j cap'"
    by auto
  then show ?case by (blast intro: sem_grp)
qed

corollary js_match_sound:
  "js_match ic r s = Some (a, b, cap) \<Longrightarrow> rx_wf r \<Longrightarrow> rx_sem ic s r a Map.empty b cap"
  using rx_search_Some [of ic r s 0 a b cap] rx_match_sound [of ic s r Some a Map.empty "(b, cap)"]
  by (auto simp: js_match_def)

text \<open>A match returned by \<open>String.prototype.match\<close> (RegExpBuiltinExec from index 0) of a well-formed pattern is a match in the declarative semantics, lies within the string, and is the leftmost one: the matcher fails at every earlier start.\<close>

lemma js_match_leftmost_sound:
  assumes "js_match ic r s = Some (a, b, cap)" and "rx_wf r"
  shows "rx_sem ic s r a Map.empty b cap \<and> a \<le> b \<and> b \<le> length s \<and>
         list_all (\<lambda>k. rx_match ic s r Some (k, Map.empty) = None) [0..<a]"
proof -
  have "rx_match ic s r Some (a, Map.empty) = Some (b, cap) \<and>
        (\<forall>k. 0 \<le> k \<and> k < a \<longrightarrow> rx_match ic s r Some (k, Map.empty) = None)"
    using rx_search_Some assms(1) by (simp add: js_match_def)
  moreover have "a \<le> b \<and> b \<le> length s" using rx_search_bounds assms(1) by (simp add: js_match_def)
  ultimately show ?thesis using js_match_sound [OF assms] by (auto simp: list_all_iff)
qed

text \<open>A match of an alternation of literals is a match of one of them.\<close>

lemma sem_ralt:
  "rx_sem ic s (ralt ws) i cap j cap' \<Longrightarrow> ws \<noteq> [] \<Longrightarrow>
     \<exists>w\<in>set ws. lit_at ic s i w \<and> j = i + length w \<and> cap' = cap"
proof (induction ws rule: ralt.induct)
  case 1 then show ?case by simp
next
  case (2 w) then show ?case by (auto elim: sem_litE)
next
  case (3 w v vs)
  have "rx_sem ic s (RAlt (RLit w) (ralt (v # vs))) i cap j cap'" using "3.prems"(1) by simp
  then show ?case
  proof (rule sem_altE)
    assume "rx_sem ic s (RLit w) i cap j cap'"
    then have "lit_at ic s i w" "j = i + length w" "cap' = cap" by (auto elim: sem_litE)
    then show ?thesis by (intro bexI [of _ w]) auto
  next
    assume "rx_sem ic s (ralt (v # vs)) i cap j cap'"
    then obtain u where "u \<in> set (v # vs)" "lit_at ic s i u" "j = i + length u" "cap' = cap"
      using "3.IH" by blast
    then show ?thesis by (intro bexI [of _ u]) auto
  qed
qed

end
