(* ===== verification/JSDate.thy ===== *)
theory JSDate
  imports JSString
begin

text \<open>
  The \<open>Date\<close> builtin as src/functions/schedule.js uses it, from the ECMAScript
  specification (section 21.4): a date is its time value, milliseconds since the epoch
  or \<open>NaN\<close>; the calendar fields are computed from it (Day, DayFromYear, YearFromTime,
  MonthFromTime, DateFromTime, WeekDay, HourFromTime) and a date is built from fields by
  MakeDay, MakeTime, MakeDate and TimeClip.  Local time is taken to be UTC (LocalTZA
  is 0 and there is no daylight saving), as the specification of the parser assumes.
\<close>

definition msPerDay :: int where "msPerDay = 86400000"
definition msPerHour :: int where "msPerHour = 3600000"
definition msPerMinute :: int where "msPerMinute = 60000"
definition msPerSecond :: int where "msPerSecond = 1000"

lemmas ms_consts [js_eval] = msPerDay_def msPerHour_def msPerMinute_def msPerSecond_def

definition js_day :: "int \<Rightarrow> int" where
  "js_day t = t div msPerDay"

definition time_within_day :: "int \<Rightarrow> int" where
  "time_within_day t = t mod msPerDay"

definition days_in_year :: "int \<Rightarrow> int" where
  "days_in_year y = (if y mod 4 \<noteq> 0 then 365 else if y mod 100 \<noteq> 0 then 366
     else if y mod 400 \<noteq> 0 then 365 else 366)"

definition day_from_year :: "int \<Rightarrow> int" where
  "day_from_year y = 365 * (y - 1970) + (y - 1969) div 4 - (y - 1901) div 100 + (y - 1601) div 400"

subsection \<open>The year of a day\<close>

text \<open>
  YearFromTime is "the largest integer \<open>y\<close> such that TimeFromYear(\<open>y\<close>) \<open>\<le> t\<close>".
  It is computed by a search upwards from a year known to start no later than the day;
  the facts its termination needs come first.
\<close>

lemma div_succ_int: "(1::int) < n \<Longrightarrow> (x + 1) div n = x div n + (if (x + 1) mod n = 0 then 1 else 0)"
proof -
  assume n: "1 < n"
  let ?r = "x mod n"
  have r: "0 \<le> ?r" "?r < n" using n by simp_all
  have d: "(x + 1) div n = x div n + (?r + 1) div n"
    using div_add1_eq [of x 1 n] n by simp
  have m: "(x + 1) mod n = (?r + 1) mod n" by (simp add: mod_add_left_eq)
  show ?thesis
  proof (cases "?r + 1 = n")
    case True
    with d m n show ?thesis by simp
  next
    case False
    with r have "?r + 1 < n" by simp
    with d m r show ?thesis by simp
  qed
qed

lemma mod_shift_mult: "((y::int) - k * n) mod n = y mod n"
  using mod_mult_self1 [of y "- k" n] by simp

lemma div4_step: "((y::int) + 1 - 1969) div 4 = (y - 1969) div 4 + (if y mod 4 = 0 then 1 else 0)"
proof -
  have "(y - 1969 + 1) mod 4 = (y - 492 * 4) mod 4" by simp
  then have "(y - 1969 + 1) mod 4 = y mod 4" by (simp only: mod_shift_mult)
  then show ?thesis using div_succ_int [of 4 "y - 1969"] by (simp add: algebra_simps)
qed

lemma div100_step: "((y::int) + 1 - 1901) div 100 = (y - 1901) div 100 + (if y mod 100 = 0 then 1 else 0)"
proof -
  have "(y - 1901 + 1) mod 100 = (y - 19 * 100) mod 100" by simp
  then have "(y - 1901 + 1) mod 100 = y mod 100" by (simp only: mod_shift_mult)
  then show ?thesis using div_succ_int [of 100 "y - 1901"] by (simp add: algebra_simps)
qed

lemma div400_step: "((y::int) + 1 - 1601) div 400 = (y - 1601) div 400 + (if y mod 400 = 0 then 1 else 0)"
proof -
  have "(y - 1601 + 1) mod 400 = (y - 4 * 400) mod 400" by simp
  then have "(y - 1601 + 1) mod 400 = y mod 400" by (simp only: mod_shift_mult)
  then show ?thesis using div_succ_int [of 400 "y - 1601"] by (simp add: algebra_simps)
qed

lemma leap_divisors:
  "(y::int) mod 4 \<noteq> 0 \<Longrightarrow> y mod 100 \<noteq> 0"
  "(y::int) mod 100 \<noteq> 0 \<Longrightarrow> y mod 400 \<noteq> 0"
  "(y::int) mod 100 = 0 \<Longrightarrow> y mod 4 = 0"
  by (auto simp: mod_eq_0_iff_dvd elim: dvd_mult_left)

lemma day_from_year_succ: "day_from_year (y + 1) = day_from_year y + days_in_year y"
  unfolding day_from_year_def days_in_year_def div4_step div100_step div400_step
  using leap_divisors [of y] by (simp split: if_splits)

lemma days_in_year_bounds: "365 \<le> days_in_year y \<and> days_in_year y \<le> 366"
  by (simp add: days_in_year_def)

lemma day_from_year_less: "day_from_year y < day_from_year (y + 1)"
  using day_from_year_succ [of y] days_in_year_bounds [of y] by simp

lemma day_from_year_strict_mono: "y < y' \<Longrightarrow> day_from_year y < day_from_year y'"
proof (induction y' rule: int_gr_induct)
  case base
  then show ?case using day_from_year_less by simp
next
  case (step i)
  then show ?case using day_from_year_less [of i] by simp
qed

lemma day_from_year_mono_iff: "day_from_year y \<le> day_from_year y' \<longleftrightarrow> y \<le> y'"
proof
  assume "day_from_year y \<le> day_from_year y'"
  then show "y \<le> y'" using day_from_year_strict_mono [of y' y] by linarith
next
  assume "y \<le> y'"
  then show "day_from_year y \<le> day_from_year y'"
    using day_from_year_strict_mono [of y y'] by (cases "y = y'") auto
qed

function year_search :: "int \<Rightarrow> int \<Rightarrow> int" where
  "year_search d y = (if day_from_year (y + 1) \<le> d then year_search d (y + 1) else y)"
  by pat_completeness auto
termination
proof (relation "measure (\<lambda>(d, y). nat (d - day_from_year y))")
  fix d y :: int
  assume "day_from_year (y + 1) \<le> d"
  then show "((d, y + 1), d, y) \<in> measure (\<lambda>(d, y). nat (d - day_from_year y))"
    using day_from_year_less [of y] by simp
qed simp

declare year_search.simps [simp del]

definition year_lower_bound :: "int \<Rightarrow> int" where
  "year_lower_bound d = 1970 + (if 0 \<le> d then d div 366 else d div 365)"

definition year_from_time :: "int \<Rightarrow> int" where
  "year_from_time t = year_search (js_day t) (year_lower_bound (js_day t))"

definition in_leap_year :: "int \<Rightarrow> bool" where
  "in_leap_year t \<longleftrightarrow> days_in_year (year_from_time t) = 366"

definition day_within_year :: "int \<Rightarrow> int" where
  "day_within_year t = js_day t - day_from_year (year_from_time t)"

subsection \<open>Month, date, weekday, time of day\<close>

text \<open>The first day of month \<open>m\<close> (0 to 12) within a year, leap years shifting March on.\<close>

definition month_start :: "bool \<Rightarrow> int \<Rightarrow> int" where
  "month_start leap m = [0, 31, 59, 90, 120, 151, 181, 212, 243, 273, 304, 334, 365] ! nat m
     + (if leap \<and> 2 \<le> m then 1 else 0)"

text \<open>MonthFromTime's table, as a function of DayWithinYear and InLeapYear.\<close>

definition month_of_day :: "bool \<Rightarrow> int \<Rightarrow> int" where
  "month_of_day L d = (
     if d < month_start L 1 then 0 else if d < month_start L 2 then 1
     else if d < month_start L 3 then 2 else if d < month_start L 4 then 3
     else if d < month_start L 5 then 4 else if d < month_start L 6 then 5
     else if d < month_start L 7 then 6 else if d < month_start L 8 then 7
     else if d < month_start L 9 then 8 else if d < month_start L 10 then 9
     else if d < month_start L 11 then 10 else 11)"

definition month_from_time :: "int \<Rightarrow> int" where
  "month_from_time t = month_of_day (in_leap_year t) (day_within_year t)"

definition date_from_time :: "int \<Rightarrow> int" where
  "date_from_time t = day_within_year t - month_start (in_leap_year t) (month_from_time t) + 1"

definition week_day :: "int \<Rightarrow> int" where
  "week_day t = (js_day t + 4) mod 7"

definition hour_from_time :: "int \<Rightarrow> int" where
  "hour_from_time t = (t div msPerHour) mod 24"

definition min_from_time :: "int \<Rightarrow> int" where
  "min_from_time t = (t div msPerMinute) mod 60"

definition sec_from_time :: "int \<Rightarrow> int" where
  "sec_from_time t = (t div msPerSecond) mod 60"

definition ms_from_time :: "int \<Rightarrow> int" where
  "ms_from_time t = t mod msPerSecond"

subsection \<open>Building a time value from fields\<close>

definition make_time :: "jsnum \<Rightarrow> jsnum \<Rightarrow> jsnum \<Rightarrow> jsnum \<Rightarrow> jsnum" where
  "make_time h m s ms = (case (h, m, s, ms) of
     (Some h, Some m, Some s, Some ms) \<Rightarrow>
       Some (h * msPerHour + m * msPerMinute + s * msPerSecond + ms)
   | _ \<Rightarrow> None)"

text \<open>MakeDay: month overflow carries into the year; the date is added as a day count.\<close>

definition make_day :: "jsnum \<Rightarrow> jsnum \<Rightarrow> jsnum \<Rightarrow> jsnum" where
  "make_day y m dt = (case (y, m, dt) of
     (Some y, Some m, Some dt) \<Rightarrow>
       (let ym = y + m div 12; mn = m mod 12 in
        Some (day_from_year ym + month_start (days_in_year ym = 366) mn + dt - 1))
   | _ \<Rightarrow> None)"

definition make_date :: "jsnum \<Rightarrow> jsnum \<Rightarrow> jsnum" where
  "make_date day time = (case (day, time) of
     (Some d, Some t) \<Rightarrow> Some (d * msPerDay + t) | _ \<Rightarrow> None)"

definition time_clip :: "jsnum \<Rightarrow> time_value" where
  "time_clip t = (case t of
     Some x \<Rightarrow> if \<bar>x\<bar> \<le> 8640000000000000 then Some x else None
   | None \<Rightarrow> None)"

text \<open>
  \<open>new Date(y, m, d, h, min, s, ms)\<close>: a year from 0 to 99 means 1900 to 1999; the
  local date is converted to UTC (the identity here) and clipped.
\<close>

definition date_from_fields :: "jsnum \<Rightarrow> jsnum \<Rightarrow> jsnum \<Rightarrow> jsnum \<Rightarrow> jsnum \<Rightarrow> jsnum \<Rightarrow> jsnum \<Rightarrow> time_value" where
  "date_from_fields y m d h mi s ms =
     (let yr = (case y of Some yi \<Rightarrow> if 0 \<le> yi \<and> yi \<le> 99 then Some (1900 + yi) else Some yi
                         | None \<Rightarrow> None)
      in time_clip (make_date (make_day yr m d) (make_time h mi s ms)))"

text \<open>The getters: \<open>NaN\<close> on an invalid date.\<close>

definition get_full_year :: "time_value \<Rightarrow> jsnum" where
  "get_full_year tv = map_option year_from_time tv"

definition get_month :: "time_value \<Rightarrow> jsnum" where
  "get_month tv = map_option month_from_time tv"

definition get_date :: "time_value \<Rightarrow> jsnum" where
  "get_date tv = map_option date_from_time tv"

definition get_day :: "time_value \<Rightarrow> jsnum" where
  "get_day tv = map_option week_day tv"

definition get_hours :: "time_value \<Rightarrow> jsnum" where
  "get_hours tv = map_option hour_from_time tv"

text \<open>\<open>date.setDate(dt)\<close>: the new value of the date (an invalid date stays invalid).\<close>

definition set_date :: "time_value \<Rightarrow> jsnum \<Rightarrow> time_value" where
  "set_date tv dt = (case tv of
     None \<Rightarrow> None
   | Some t \<Rightarrow> time_clip (make_date
        (make_day (Some (year_from_time t)) (Some (month_from_time t)) dt)
        (Some (time_within_day t))))"

text \<open>
  \<open>date.toISOString()\<close>: \<open>YYYY-MM-DDTHH:mm:ss.sssZ\<close>, a year outside 0 to 9999
  written with a sign and six digits; \<open>None\<close> is the RangeError it throws on an
  invalid date.
\<close>

fun nat_digits :: "nat \<Rightarrow> string" where
  "nat_digits n = (if n < 10 then [char_of (48 + n)] else nat_digits (n div 10) @ [char_of (48 + n mod 10)])"

definition pad_num :: "nat \<Rightarrow> nat \<Rightarrow> string" where
  "pad_num w n = (let ds = nat_digits n in replicate (w - length ds) CHR ''0'' @ ds)"

definition iso_year :: "int \<Rightarrow> string" where
  "iso_year y = (if 0 \<le> y \<and> y \<le> 9999 then pad_num 4 (nat y)
     else (if y < 0 then ''-'' else ''+'') @ pad_num 6 (nat \<bar>y\<bar>))"

definition to_iso_string :: "time_value \<Rightarrow> string option" where
  "to_iso_string tv = (case tv of
     None \<Rightarrow> None
   | Some t \<Rightarrow> Some (iso_year (year_from_time t) @ ''-'' @ pad_num 2 (nat (month_from_time t + 1))
        @ ''-'' @ pad_num 2 (nat (date_from_time t)) @ ''T'' @ pad_num 2 (nat (hour_from_time t))
        @ '':'' @ pad_num 2 (nat (min_from_time t)) @ '':'' @ pad_num 2 (nat (sec_from_time t))
        @ ''.'' @ pad_num 3 (nat (ms_from_time t)) @ ''Z''))"

declare nat_digits.simps [simp del]

subsection \<open>YearFromTime meets its definition\<close>

lemma year_search_spec:
  "day_from_year y \<le> d \<Longrightarrow> day_from_year (year_search d y) \<le> d \<and> d < day_from_year (year_search d y + 1)"
proof (induction d y rule: year_search.induct)
  case (1 d y)
  show ?case
  proof (cases "day_from_year (y + 1) \<le> d")
    case True
    with "1.IH" show ?thesis by (simp add: year_search.simps [of d y])
  next
    case False
    with "1.prems" show ?thesis by (simp add: year_search.simps [of d y])
  qed
qed

lemma day_from_year_1970 [simp]: "day_from_year 1970 = 0"
  by (simp add: day_from_year_def)

lemma day_from_year_upper_pos: "1970 \<le> y \<Longrightarrow> day_from_year y \<le> 366 * (y - 1970)"
proof (induction y rule: int_ge_induct)
  case base
  then show ?case by simp
next
  case (step i)
  then show ?case using day_from_year_succ [of i] days_in_year_bounds [of i] by simp
qed

lemma day_from_year_upper_neg: "y \<le> 1970 \<Longrightarrow> day_from_year y \<le> 365 * (y - 1970)"
proof (induction y rule: int_le_induct)
  case base
  then show ?case by simp
next
  case (step i)
  then show ?case using day_from_year_succ [of "i - 1"] days_in_year_bounds [of "i - 1"] by simp
qed

lemma year_lower_bound_le: "day_from_year (year_lower_bound d) \<le> d"
proof (cases "0 \<le> d")
  case True
  then have "day_from_year (year_lower_bound d) \<le> 366 * (d div 366)"
    using day_from_year_upper_pos [of "1970 + d div 366"] by (simp add: year_lower_bound_def)
  also have "\<dots> \<le> d" using mult_div_mod_eq [of _ d] pos_mod_sign [of _ d] by (metis le_add_same_cancel1 zero_less_numeral)
  finally show ?thesis .
next
  case False
  then have "day_from_year (year_lower_bound d) \<le> 365 * (d div 365)"
    using day_from_year_upper_neg [of "1970 + d div 365"] by (simp add: year_lower_bound_def)
  also have "\<dots> \<le> d" using mult_div_mod_eq [of _ d] pos_mod_sign [of _ d] by (metis le_add_same_cancel1 zero_less_numeral)
  finally show ?thesis .
qed

lemma year_from_time_spec:
  "day_from_year (year_from_time t) \<le> js_day t \<and> js_day t < day_from_year (year_from_time t + 1)"
  unfolding year_from_time_def by (rule year_search_spec) (rule year_lower_bound_le)

lemma year_from_time_eq_iff:
  "year_from_time t = y \<longleftrightarrow> day_from_year y \<le> js_day t \<and> js_day t < day_from_year (y + 1)"
proof
  assume "year_from_time t = y"
  then show "day_from_year y \<le> js_day t \<and> js_day t < day_from_year (y + 1)"
    using year_from_time_spec [of t] by simp
next
  assume y: "day_from_year y \<le> js_day t \<and> js_day t < day_from_year (y + 1)"
  have "day_from_year y < day_from_year (year_from_time t + 1)"
    using y year_from_time_spec [of t] by simp
  moreover have "day_from_year (year_from_time t) < day_from_year (y + 1)"
    using y year_from_time_spec [of t] by simp
  ultimately show "year_from_time t = y"
    using day_from_year_mono_iff [of "year_from_time t + 1" y] day_from_year_mono_iff [of "y + 1" "year_from_time t"]
    by linarith
qed

lemma day_within_year_bounds:
  "0 \<le> day_within_year t \<and> day_within_year t < days_in_year (year_from_time t)"
  using year_from_time_spec [of t] day_from_year_succ [of "year_from_time t"]
  by (simp add: day_within_year_def)

lemma month_start_vals [simp]:
  "month_start L 0 = 0" "month_start L 1 = 31" "month_start L 2 = 59 + (if L then 1 else 0)"
  "month_start L 12 = 365 + (if L then 1 else 0)"
  by (simp_all add: month_start_def)

subsection \<open>Months, round trip, day arithmetic\<close>

lemma month_start_table:
  "month_start L 0 = 0" "month_start L 1 = 31"
  "month_start L 2 = 59 + (if L then 1 else 0)" "month_start L 3 = 90 + (if L then 1 else 0)"
  "month_start L 4 = 120 + (if L then 1 else 0)" "month_start L 5 = 151 + (if L then 1 else 0)"
  "month_start L 6 = 181 + (if L then 1 else 0)" "month_start L 7 = 212 + (if L then 1 else 0)"
  "month_start L 8 = 243 + (if L then 1 else 0)" "month_start L 9 = 273 + (if L then 1 else 0)"
  "month_start L 10 = 304 + (if L then 1 else 0)" "month_start L 11 = 334 + (if L then 1 else 0)"
  "month_start L 12 = 365 + (if L then 1 else 0)"
  by (simp_all add: month_start_def)

lemma month_of_day_spec:
  assumes "0 \<le> d" "d < month_start L 12"
  shows "0 \<le> month_of_day L d \<and> month_of_day L d \<le> 11 \<and>
         month_start L (month_of_day L d) \<le> d \<and> d < month_start L (month_of_day L d + 1)"
  using assms unfolding month_of_day_def month_start_table
  by (simp add: month_start_table split: if_split)

lemma month_from_time_spec:
  "0 \<le> month_from_time t \<and> month_from_time t \<le> 11 \<and>
   month_start (in_leap_year t) (month_from_time t) \<le> day_within_year t \<and>
   day_within_year t < month_start (in_leap_year t) (month_from_time t + 1)"
proof -
  have "day_within_year t < month_start (in_leap_year t) 12"
    using day_within_year_bounds [of t]
    by (simp add: month_start_table in_leap_year_def days_in_year_def split: if_splits)
  then show ?thesis
    unfolding month_from_time_def
    using month_of_day_spec day_within_year_bounds [of t] by blast
qed

lemma date_from_time_pos: "1 \<le> date_from_time t"
  using month_from_time_spec [of t] by (simp add: date_from_time_def)

text \<open>Round trip: the date made from the fields of a time value is its day.\<close>

lemma make_day_fields:
  "make_day (Some (year_from_time t)) (Some (month_from_time t)) (Some (date_from_time t + n))
     = Some (js_day t + n)"
proof -
  have m: "0 \<le> month_from_time t" "month_from_time t < 12"
    using month_from_time_spec [of t] by simp_all
  then have "month_from_time t div 12 = 0" "month_from_time t mod 12 = month_from_time t"
    by simp_all
  then show ?thesis
    by (simp add: make_day_def date_from_time_def day_within_year_def in_leap_year_def)
qed

lemma make_time_Some [simp]:
  "make_time (Some h) (Some m) (Some s) (Some ms) = Some (h * msPerHour + m * msPerMinute + s * msPerSecond + ms)"
  by (simp add: make_time_def)

lemma make_time_NaN [simp]:
  "make_time h NaN s ms = NaN" "make_time NaN m s ms = NaN"
  by (simp_all add: make_time_def split: option.split)

lemma make_date_Some [simp]: "make_date (Some d) (Some t) = Some (d * msPerDay + t)"
  by (simp add: make_date_def)

lemma make_date_NaN [simp]: "make_date d NaN = NaN" "make_date NaN t = NaN"
  by (simp_all add: make_date_def split: option.split)

lemma time_clip_NaN [simp]: "time_clip NaN = NaN"
  by (simp add: time_clip_def)

lemma date_from_fields_today:
  assumes "\<not> (0 \<le> year_from_time t \<and> year_from_time t \<le> 99)"
  shows "date_from_fields (Some (year_from_time t)) (Some (month_from_time t)) (Some (date_from_time t))
           (Some h) (Some mi) (Some 0) (Some 0)
         = time_clip (Some (js_day t * msPerDay + h * msPerHour + mi * msPerMinute))"
proof -
  have hy: "(0 \<le> year_from_time t \<and> year_from_time t \<le> 99) = False" using assms by simp
  show ?thesis
    using make_day_fields [of t 0] by (simp add: date_from_fields_def hy add.assoc)
qed

lemma date_from_fields_NaN_minute:
  "date_from_fields y m d h NaN s ms = NaN"
  by (simp add: date_from_fields_def)

lemma day_time_decomp: "js_day t * msPerDay + time_within_day t = t"
  by (simp add: js_day_def time_within_day_def)

lemma set_date_shift:
  "set_date (Some t) (js_add (get_date (Some t)) (Some n)) = time_clip (Some (t + n * msPerDay))"
proof -
  have "(js_day t + n) * msPerDay + time_within_day t = t + n * msPerDay"
    using day_time_decomp [of t] by (simp add: algebra_simps)
  then show ?thesis
    by (simp add: set_date_def get_date_def make_day_fields)
qed

text \<open>WeekDay advances by one modulo 7 per day added, as \<open>setDate(getDate() + n)\<close> moves the time value.\<close>

lemma week_day_shift: "week_day (t + n * msPerDay) = (week_day t + n) mod 7"
proof -
  have "js_day (t + n * msPerDay) = js_day t + n"
    by (simp add: js_day_def msPerDay_def)
  then show ?thesis by (simp add: week_day_def mod_add_right_eq algebra_simps)
qed

lemma fields_of_day_time:
  assumes "0 \<le> h" "h < 24" "0 \<le> mi" "mi < 60"
  shows "js_day (d * msPerDay + h * msPerHour + mi * msPerMinute) = d"
    and "hour_from_time (d * msPerDay + h * msPerHour + mi * msPerMinute) = h"
    and "min_from_time (d * msPerDay + h * msPerHour + mi * msPerMinute) = mi"
proof -
  have q: "0 \<le> h * msPerHour + mi * msPerMinute" "h * msPerHour + mi * msPerMinute < msPerDay"
    using assms by (simp_all add: ms_consts)
  show "js_day (d * msPerDay + h * msPerHour + mi * msPerMinute) = d"
    using q by (simp add: js_day_def add.assoc)
  have "(d * msPerDay + h * msPerHour + mi * msPerMinute) div msPerHour = d * 24 + h"
    using assms by (simp add: ms_consts)
  then show "hour_from_time (d * msPerDay + h * msPerHour + mi * msPerMinute) = h"
    using assms by (simp add: hour_from_time_def)
  have "(d * msPerDay + h * msPerHour + mi * msPerMinute) div msPerMinute = mi + (d * 24 + h) * 60"
    using assms by (simp add: ms_consts)
  then have "min_from_time (d * msPerDay + h * msPerHour + mi * msPerMinute) = mi mod 60"
    by (simp only: min_from_time_def mod_mult_self1)
  then show "min_from_time (d * msPerDay + h * msPerHour + mi * msPerMinute) = mi"
    using assms by simp
qed
lemma month_length_le:
  assumes "0 \<le> m" "m \<le> 11"
  shows "month_start L (m + 1) - month_start L m \<le> 31"
proof -
  have "m = 0 \<or> m = 1 \<or> m = 2 \<or> m = 3 \<or> m = 4 \<or> m = 5 \<or> m = 6 \<or> m = 7 \<or> m = 8 \<or>
      m = 9 \<or> m = 10 \<or> m = 11" using assms by arith
  then show ?thesis by (auto simp: month_start_def)
qed

text \<open>The calendar decomposition is a round trip: MakeDate of MakeDay of the year, month and date of a time value, with its time within the day, is the time value again.\<close>

lemma calendar_round_trip:
  "make_date (make_day (Some (year_from_time t)) (Some (month_from_time t)) (Some (date_from_time t)))
     (Some (time_within_day t)) = Some t"
  using make_day_fields [of t 0] day_time_decomp [of t] by (simp add: make_date_def)

text \<open>The date of the month that \<open>getDate\<close> returns is always between 1 and 31.\<close>

lemma date_from_time_range: "1 \<le> date_from_time t \<and> date_from_time t \<le> 31"
proof -
  have s: "0 \<le> month_from_time t" "month_from_time t \<le> 11"
    "month_start (in_leap_year t) (month_from_time t) \<le> day_within_year t"
    "day_within_year t < month_start (in_leap_year t) (month_from_time t + 1)"
    using month_from_time_spec [of t] by simp_all
  show ?thesis using s month_length_le [OF s(1,2), of "in_leap_year t"] by (simp add: date_from_time_def)
qed

subsection \<open>Months as intervals of days\<close>

lemma month_start_step: "0 \<le> k \<Longrightarrow> k \<le> 11 \<Longrightarrow> month_start L k < month_start L (k + 1)"
proof -
  assume "0 \<le> k" "k \<le> 11"
  then have "k = 0 \<or> k = 1 \<or> k = 2 \<or> k = 3 \<or> k = 4 \<or> k = 5 \<or> k = 6 \<or> k = 7 \<or> k = 8 \<or>
      k = 9 \<or> k = 10 \<or> k = 11" by arith
  then show ?thesis by (auto simp: month_start_def)
qed

lemma month_start_strict_mono:
  assumes "a < b" "0 \<le> a" "b \<le> 12"
  shows "month_start L a < month_start L b"
  using assms
proof (induction b rule: int_gr_induct)
  case base then show ?case using month_start_step [of a L] by simp
next
  case (step b)
  then have "month_start L a < month_start L b" by simp
  also have "\<dots> < month_start L (b + 1)" using step.prems step.hyps month_start_step [of b L] by simp
  finally show ?case .
qed

lemma month_start_mono: "0 \<le> a \<Longrightarrow> a \<le> b \<Longrightarrow> b \<le> 12 \<Longrightarrow> month_start L a \<le> month_start L b"
  using month_start_strict_mono [of a b L] by (cases "a = b") auto

lemma month_start_year_end: "month_start (days_in_year y = 366) 12 = days_in_year y"
  using days_in_year_bounds [of y] by auto

lemma month_from_time_eq_iff:
  assumes "0 \<le> mo" "mo \<le> 11"
  shows "month_from_time t = mo \<longleftrightarrow>
    month_start (in_leap_year t) mo \<le> day_within_year t \<and> day_within_year t < month_start (in_leap_year t) (mo + 1)"
proof
  assume "month_from_time t = mo"
  then show "month_start (in_leap_year t) mo \<le> day_within_year t \<and> day_within_year t < month_start (in_leap_year t) (mo + 1)"
    using month_from_time_spec [of t] by simp
next
  let ?L = "in_leap_year t" and ?m = "month_from_time t"
  assume a: "month_start ?L mo \<le> day_within_year t \<and> day_within_year t < month_start ?L (mo + 1)"
  have s: "0 \<le> ?m" "?m \<le> 11" "month_start ?L ?m \<le> day_within_year t" "day_within_year t < month_start ?L (?m + 1)"
    using month_from_time_spec [of t] by simp_all
  show "?m = mo"
  proof (rule ccontr)
    assume "?m \<noteq> mo"
    then consider "?m + 1 \<le> mo" | "mo + 1 \<le> ?m" by linarith
    then show False
    proof cases
      case 1
      then have "month_start ?L (?m + 1) \<le> month_start ?L mo" using s assms by (intro month_start_mono) simp_all
      then show False using a s by simp
    next
      case 2
      then have "month_start ?L (mo + 1) \<le> month_start ?L ?m" using s assms by (intro month_start_mono) simp_all
      then show False using a s by simp
    qed
  qed
qed

lemma day_mult_le_iff: "A * msPerDay \<le> t \<longleftrightarrow> A \<le> js_day t" and day_mult_less_iff: "t < B * msPerDay \<longleftrightarrow> js_day t < B"
proof -
  let ?d = "js_day t" and ?r = "time_within_day t"
  have M: "(0::int) < msPerDay" by (simp add: msPerDay_def)
  have t: "t = ?d * msPerDay + ?r" using day_time_decomp [of t] by simp
  have r: "0 \<le> ?r" "?r < msPerDay" using M by (simp_all add: time_within_day_def)
  show "A * msPerDay \<le> t \<longleftrightarrow> A \<le> ?d"
  proof
    assume "A * msPerDay \<le> t"
    then have "A * msPerDay < (?d + 1) * msPerDay" using t r by (simp add: algebra_simps)
    then show "A \<le> ?d" using M by (simp add: mult_less_cancel_right)
  next
    assume "A \<le> ?d"
    have "A * msPerDay \<le> ?d * msPerDay" using mult_right_mono [OF \<open>A \<le> ?d\<close>] M by simp
    then show "A * msPerDay \<le> t" using t r by linarith
  qed
  show "t < B * msPerDay \<longleftrightarrow> ?d < B"
  proof
    assume "t < B * msPerDay"
    then have "?d * msPerDay < B * msPerDay" using t r by linarith
    then show "?d < B" using M by (simp add: mult_less_cancel_right)
  next
    assume "?d < B"
    then have "?d + 1 \<le> B" by simp
    have "(?d + 1) * msPerDay \<le> B * msPerDay" using mult_right_mono [OF \<open>?d + 1 \<le> B\<close>] M by simp
    then show "t < B * msPerDay" using t r by (simp add: algebra_simps)
  qed
qed

end
