(* ===== verification/Schedule_Parser.thy ===== *)
theory Schedule_Parser
  imports JSRegex JSDate
begin

text \<open>
  \<open>parseNaturalLanguage(text)\<close> of src/functions/schedule.js (lines 47 to 144): the
  time patterns tried in order (first match wins), the hour and minute read from the
  captures with the meridiem and the evening heuristic, the date built from today's
  fields and moved by the date keywords, the validity fallback, the ISO string, the
  title left when the time and date words are removed, and the note.  The three calls
  \<open>new Date()\<close> of the code (lines 52, 86 and 109) read the clock; they are the three
  fields of a \<open>clock\<close>, which may differ.
\<close>

record clock =
  clk_hour :: int
  clk_today :: int
  clk_fallback :: int

record parsed_event =
  pe_title :: string
  pe_datetime :: string
  pe_note :: "string option"

subsection \<open>Time of day (lines 55 to 83)\<close>

definition am_pm :: rx where
  "am_pm = ralt [''am'', ''pm'']"

text \<open>\<open>/at (\d{1,2}):?(\d{2})?\s*(am|pm)?/i\<close>\<close>

definition pat_at :: rx where
  "pat_at = rseq [RLit ''at '', RGrp 1 (RRep ClsDigit 1 (Some 2)), ROpt (RLit '':''),
     ROpt (RGrp 2 (RRep ClsDigit 2 (Some 2))), RRep ClsSpace 0 None, ROpt (RGrp 3 am_pm)]"

text \<open>\<open>/(\d{1,2}):(\d{2})\s*(am|pm)?/i\<close>\<close>

definition pat_clock :: rx where
  "pat_clock = rseq [RGrp 1 (RRep ClsDigit 1 (Some 2)), RLit '':'', RGrp 2 (RRep ClsDigit 2 (Some 2)),
     RRep ClsSpace 0 None, ROpt (RGrp 3 am_pm)]"

text \<open>\<open>/(\d{1,2})\s*(am|pm)/i\<close>: the meridiem is its group 2.\<close>

definition pat_meridiem :: rx where
  "pat_meridiem = rseq [RGrp 1 (RRep ClsDigit 1 (Some 2)), RRep ClsSpace 0 None, RGrp 2 am_pm]"

text \<open>\<open>/(\d{1,2})\s*baje/i\<close>\<close>

definition pat_baje :: rx where
  "pat_baje = rseq [RGrp 1 (RRep ClsDigit 1 (Some 2)), RRep ClsSpace 0 None, RLit ''baje'']"

definition time_patterns :: "rx list" where
  "time_patterns = [pat_at, pat_clock, pat_meridiem, pat_baje]"

text \<open>Lines 72 to 80: the meridiem \<open>match[3]\<close>, or the evening heuristic for 1 to 7.\<close>

definition apply_meridiem :: "jsnum \<Rightarrow> string option \<Rightarrow> jsnum" where
  "apply_meridiem hour mer =
     (if truthy_str mer then
        (let meridiem = to_lower_case (capture_string mer);
             h1 = (if meridiem = ''pm'' \<and> js_lt hour (Some 12) then js_add hour (Some 12) else hour)
         in if meridiem = ''am'' \<and> h1 = Some 12 then Some 0 else h1)
      else if js_le (Some 1) hour \<and> js_le hour (Some 7) then js_add hour (Some 12)
      else hour)"

text \<open>Lines 69 to 80, for a match \<open>m\<close> of one of the patterns.\<close>

definition time_of_match :: "string \<Rightarrow> nat \<times> nat \<times> captures \<Rightarrow> jsnum \<times> jsnum" where
  "time_of_match text m = (let g = match_group text m;
      hour = parse_int (capture_string (g 1));
      minute = (if truthy_str (g 2) then parse_int (capture_string (g 2)) else Some 0)
    in (apply_meridiem hour (g 3), minute))"

text \<open>The loop of lines 66 to 83: the first pattern that matches sets hour and minute.\<close>

fun scan_time :: "rx list \<Rightarrow> string \<Rightarrow> jsnum \<times> jsnum \<Rightarrow> jsnum \<times> jsnum" where
  "scan_time [] text hm = hm"
| "scan_time (p # ps) text hm =
     (case js_match True p text of
        Some m \<Rightarrow> time_of_match text m
      | None \<Rightarrow> scan_time ps text hm)"

text \<open>Lines 63 and 64: the hour of the first clock reading, minute 0.\<close>

definition time_fields :: "clock \<Rightarrow> string \<Rightarrow> jsnum \<times> jsnum" where
  "time_fields clk text = scan_time time_patterns text (get_hours (Some (clk_hour clk)), Some 0)"

subsection \<open>Date (lines 85 to 110)\<close>

definition weekday_names :: "string list" where
  "weekday_names = [''sunday'', ''monday'', ''tuesday'', ''wednesday'', ''thursday'', ''friday'', ''saturday'']"

text \<open>\<open>Array.prototype.indexOf\<close>: the first index of an element, or -1.\<close>

fun index_of :: "'a list \<Rightarrow> 'a \<Rightarrow> int" where
  "index_of [] x = -1"
| "index_of (y # ys) x = (if y = x then 0 else (let k = index_of ys x in if k < 0 then -1 else k + 1))"

text \<open>\<open>/next (\w+)/\<close> and \<open>/next (monday|tuesday|...|sunday)/i\<close>\<close>

definition pat_next_word :: rx where
  "pat_next_word = rseq [RLit ''next '', RGrp 1 (RRep ClsWord 1 None)]"

definition pat_next_weekday :: rx where
  "pat_next_weekday = rseq [RLit ''next '',
     RGrp 1 (ralt [''monday'', ''tuesday'', ''wednesday'', ''thursday'', ''friday'', ''saturday'', ''sunday''])]"

text \<open>Lines 100 and 101.\<close>

definition days_to_add :: "int \<Rightarrow> int \<Rightarrow> int" where
  "days_to_add targetDay currentDay =
     (let d = targetDay - currentDay in if d \<le> 0 then d + 7 else d)"

text \<open>\<open>targetDate.setDate(targetDate.getDate() + n)\<close>\<close>

definition shift_days :: "time_value \<Rightarrow> int \<Rightarrow> time_value" where
  "shift_days tv n = set_date tv (js_add (get_date tv) (Some n))"

text \<open>Line 87: today's date at the hour and minute found, seconds and milliseconds 0.\<close>

definition initial_target :: "int \<Rightarrow> jsnum \<Rightarrow> jsnum \<Rightarrow> time_value" where
  "initial_target today hour minute =
     date_from_fields (get_full_year (Some today)) (get_month (Some today)) (get_date (Some today))
       hour minute (Some 0) (Some 0)"

text \<open>Lines 89 to 104: at most one adjustment, in this order.\<close>

definition adjust_date :: "string \<Rightarrow> int \<Rightarrow> time_value \<Rightarrow> time_value" where
  "adjust_date lowerText today target =
     (if js_includes lowerText ''tomorrow'' \<or> js_includes lowerText ''kal'' then shift_days target 1
      else if js_includes lowerText ''next week'' then shift_days target 7
      else if js_match False pat_next_word lowerText \<noteq> None then
        (case js_match True pat_next_weekday lowerText of
           None \<Rightarrow> target
         | Some m \<Rightarrow>
             shift_days target (days_to_add
               (index_of weekday_names (to_lower_case (capture_string (match_group lowerText m 1))))
               (week_day today)))
      else target)"

text \<open>Lines 50 to 110: the time value of the event, the clock's third reading if it is invalid.\<close>

definition target_time :: "clock \<Rightarrow> string \<Rightarrow> time_value" where
  "target_time clk text = (let lowerText = to_lower_case text;
      (hour, minute) = time_fields clk text;
      t = adjust_date lowerText (clk_today clk) (initial_target (clk_today clk) hour minute)
    in if t = None then Some (clk_fallback clk) else t)"

subsection \<open>Title (lines 114 to 127)\<close>

text \<open>\<open>/at \d{1,2}:?\d{0,2}\s*(am|pm)?/gi\<close>\<close>

definition title_at :: rx where
  "title_at = rseq [RLit ''at '', RRep ClsDigit 1 (Some 2), ROpt (RLit '':''), RRep ClsDigit 0 (Some 2),
     RRep ClsSpace 0 None, ROpt (RGrp 1 am_pm)]"

text \<open>\<open>/\d{1,2}:\d{2}\s*(am|pm)?/gi\<close>\<close>

definition title_clock :: rx where
  "title_clock = rseq [RRep ClsDigit 1 (Some 2), RLit '':'', RRep ClsDigit 2 (Some 2),
     RRep ClsSpace 0 None, ROpt (RGrp 1 am_pm)]"

text \<open>\<open>/\d{1,2}\s*(am|pm|baje)/gi\<close>\<close>

definition title_hour :: rx where
  "title_hour = rseq [RRep ClsDigit 1 (Some 2), RRep ClsSpace 0 None, RGrp 1 (ralt [''am'', ''pm'', ''baje''])]"

text \<open>\<open>/tomorrow|kal|today|aaj/gi\<close>, \<open>/next \w+/gi\<close> and \<open>/\s+/g\<close>\<close>

definition title_day_words :: rx where
  "title_day_words = ralt [''tomorrow'', ''kal'', ''today'', ''aaj'']"

definition title_next :: rx where
  "title_next = rseq [RLit ''next '', RRep ClsWord 1 None]"

definition title_spaces :: rx where
  "title_spaces = RRep ClsSpace 1 None"

definition strip_title :: "string \<Rightarrow> string" where
  "strip_title text = js_trim
     (js_replace_all False title_spaces '' ''
       (js_replace_all True title_next []
         (js_replace_all True title_day_words []
           (js_replace_all True title_hour []
             (js_replace_all True title_clock []
               (js_replace_all True title_at [] text))))))"

definition extract_title :: "string \<Rightarrow> string" where
  "extract_title text = (let title = strip_title text in
     if length title < 3 then js_substring text 0 100 else title)"

subsection \<open>Note (lines 129 to 139) and the whole parser\<close>

text \<open>\<open>/(with|ke sath)\s+(\w+)/i\<close> and \<open>/(topic|vishay)\s+(\w+)/i\<close>\<close>

definition pat_with :: rx where
  "pat_with = rseq [RGrp 1 (ralt [''with'', ''ke sath'']), RRep ClsSpace 1 None, RGrp 2 (RRep ClsWord 1 None)]"

definition pat_topic :: rx where
  "pat_topic = rseq [RGrp 1 (ralt [''topic'', ''vishay'']), RRep ClsSpace 1 None, RGrp 2 (RRep ClsWord 1 None)]"

definition extract_note :: "string \<Rightarrow> string option" where
  "extract_note text = (let
      note1 = (case js_match True pat_with text of
                 None \<Rightarrow> None
               | Some m \<Rightarrow> Some (''With '' @ capture_string (match_group text m 2)));
      note2 = (case js_match True pat_topic text of
                 None \<Rightarrow> note1
               | Some m \<Rightarrow> (let w = capture_string (match_group text m 2) in
                   Some (if truthy_str note1 then capture_string note1 @ '', Topic: '' @ w
                         else ''Topic: '' @ w)))
    in note2)"

text \<open>The result \<open>{ title, datetime, note }\<close>; \<open>None\<close> if \<open>toISOString\<close> throws.\<close>

definition parse_natural_language :: "clock \<Rightarrow> string \<Rightarrow> parsed_event option" where
  "parse_natural_language clk text = (case to_iso_string (target_time clk text) of
     None \<Rightarrow> None
   | Some datetime \<Rightarrow> Some \<lparr>pe_title = extract_title text, pe_datetime = datetime,
                            pe_note = extract_note text\<rparr>)"

text \<open>A time value that \<open>toISOString\<close> accepts: a number within the range of TimeClip.\<close>

definition valid_time :: "time_value \<Rightarrow> bool" where
  "valid_time tv \<longleftrightarrow> (case tv of None \<Rightarrow> False | Some t \<Rightarrow> \<bar>t\<bar> \<le> 8640000000000000)"

text \<open>A word \<open>w\<close> that stands in the text right after one of the keywords \<open>kws\<close> (any case) and at least one space.\<close>

definition word_after :: "string list \<Rightarrow> string \<Rightarrow> string \<Rightarrow> bool" where
  "word_after kws text w \<longleftrightarrow> (\<exists>i k. list_ex (\<lambda>kw. lit_at True text i kw \<and> 1 \<le> k \<and>
      i + length kw + k + length w \<le> length text \<and>
      list_all is_js_space (take k (drop (i + length kw) text)) \<and>
      take (length w) (drop (i + length kw + k) text) = w) kws)"

text \<open>A reference clock for the witnesses: all three readings at 2024-01-10T09:00:00Z, a Wednesday.\<close>

definition clk_ref :: clock where
  "clk_ref = \<lparr>clk_hour = 1704877200000, clk_today = 1704877200000, clk_fallback = 1704877200000\<rparr>"

subsection \<open>Facts on the matches of the time patterns\<close>

lemma time_patterns_wf: "rx_wf pat_at" "rx_wf pat_clock" "rx_wf pat_meridiem" "rx_wf pat_baje"
  by (simp_all add: pat_at_def pat_clock_def pat_meridiem_def pat_baje_def am_pm_def rep_bounds_ok_def)

lemma match_group_cap:
  "cap n = Some (x, y) \<Longrightarrow> 0 < n \<Longrightarrow> match_group s (a, b, cap) n = Some (take (y - x) (drop x s))"
  by (simp add: match_group_def)

lemma lit_at_hd:
  "lit_at ic s x w \<Longrightarrow> w \<noteq> [] \<Longrightarrow> x < length s \<and> char_eq ic (hd w) (s ! x)"
  by (cases w) (auto simp: lit_at_def list_all2_Cons1 nth_drop_Cons)

lemma pat_meridiem_group2:
  assumes "js_match True pat_meridiem text = Some (a, b, cap)"
  shows "\<exists>x w. cap 2 = Some (x, x + 2) \<and> w \<in> {''am'', ''pm''} \<and> lit_at True text x w"
proof -
  have "rx_sem True text pat_meridiem a Map.empty b cap"
    using js_match_sound [OF assms] time_patterns_wf(3) .
  then show ?thesis
    by (auto simp: pat_meridiem_def am_pm_def elim!: sem_seqE sem_grpE sem_altE sem_litE sem_repE)
qed

lemma canonicalize_ascii_letter:
  "canonicalize c = n \<Longrightarrow> 65 \<le> n \<Longrightarrow> n \<le> 90 \<Longrightarrow> code_unit c = n \<or> code_unit c = n + 32"
  by (auto simp: canonicalize_def Let_def split: if_splits)

lemma char_eq_letter:
  "char_eq True a c \<Longrightarrow> 97 \<le> code_unit a \<Longrightarrow> code_unit a \<le> 122 \<Longrightarrow>
     code_unit c = code_unit a \<or> code_unit c + 32 = code_unit a"
proof -
  assume "char_eq True a c" "97 \<le> code_unit a" "code_unit a \<le> 122"
  then have "canonicalize c = code_unit a - 32" "65 \<le> code_unit a - 32" "code_unit a - 32 \<le> 90"
    by (auto simp: char_eq_def canonicalize_def Let_def)
  then show ?thesis using canonicalize_ascii_letter [of c "code_unit a - 32"] by auto
qed

lemma parse_int_letter:
  assumes "s \<noteq> []" and "(65 \<le> code_unit (hd s) \<and> code_unit (hd s) \<le> 90) \<or> (97 \<le> code_unit (hd s) \<and> code_unit (hd s) \<le> 122)"
  shows "parse_int s = None"
proof -
  obtain c t where s: "s = c # t" using assms(1) by (cases s) auto
  have c: "\<not> is_js_space c" "c \<noteq> CHR ''-''" "c \<noteq> CHR ''+''" "c \<noteq> CHR ''0''"
    using assms(2) s by (auto simp: is_js_space_def code_unit_def)
  have hx: "\<not> (take 2 s = ''0x'' \<or> take 2 s = ''0X'')"
    using c(4) s by (cases t) auto
  have d: "dropWhile is_js_space s = s" and h: "hd s \<noteq> CHR ''-''" "hd s \<noteq> CHR ''+''"
    using c s by simp_all
  have r: "radix_digits 10 s = []"
    using assms(2) s by (auto simp: digit_value_def Let_def)
  show ?thesis
    unfolding parse_int_def Let_def d using assms(1) h hx r by simp
qed

lemma meridiem_minute_NaN:
  assumes "js_match True pat_meridiem text = Some m"
  shows "snd (time_of_match text m) = NaN"
proof -
  obtain a b cap where m: "m = (a, b, cap)" by (cases m)
  then obtain x w where xw: "cap 2 = Some (x, x + 2)" "w \<in> {''am'', ''pm''}" "lit_at True text x w"
    using pat_meridiem_group2 assms by blast
  then have g: "match_group text m 2 = Some (take 2 (drop x text))"
    using m by (simp add: match_group_def)
  from xw lit_at_hd [of True "text" x w] have "x < length text" "char_eq True (hd w) (text ! x)"
    by auto
  moreover have "97 \<le> code_unit (hd w) \<and> code_unit (hd w) \<le> 122" using xw(2)
    by (auto simp: code_unit_def)
  ultimately have "(65 \<le> code_unit (text ! x) \<and> code_unit (text ! x) \<le> 90) \<or>
                   (97 \<le> code_unit (text ! x) \<and> code_unit (text ! x) \<le> 122)"
    using char_eq_letter [of "hd w" "text ! x"] by auto
  moreover have "take 2 (drop x text) \<noteq> []" "hd (take 2 (drop x text)) = text ! x"
    using \<open>x < length text\<close> by (simp_all add: nth_drop_Cons)
  ultimately have "parse_int (take 2 (drop x text)) = None"
    using parse_int_letter by metis
  then show ?thesis
    using g \<open>take 2 (drop x text) \<noteq> []\<close> by (simp add: time_of_match_def Let_def truthy_str_def capture_string_def)
qed

lemma shift_days_NaN [simp]: "shift_days NaN n = NaN"
  by (simp add: shift_days_def set_date_def)

lemma adjust_date_NaN: "adjust_date l today NaN = NaN"
  by (simp add: adjust_date_def split: option.split)

lemma initial_target_NaN_minute [simp]: "initial_target today hour NaN = NaN"
  by (simp add: initial_target_def date_from_fields_NaN_minute)

subsection \<open>The meridiem pattern loses the time\<close>

text \<open>
  C1: when neither \<open>at ...\<close> nor \<open>H:MM\<close> occurs but \<open>H am\<close>/\<open>H pm\<close> does, the third
  pattern matches; its group 2 is the meridiem, which line 70 reads as the minute, so
  \<open>parseInt\<close> gives \<open>NaN\<close>, the date built at line 87 is invalid, every adjustment keeps
  it invalid, and line 109 replaces it by the clock: the stated time and any
  \<open>tomorrow\<close> are lost.
\<close>

theorem meridiem_only_falls_back:
  assumes "js_match True pat_at text = None" "js_match True pat_clock text = None"
    and "js_match True pat_meridiem text \<noteq> None"
  shows "target_time clk text = Some (clk_fallback clk)"
proof -
  obtain m where m: "js_match True pat_meridiem text = Some m" using assms(3) by blast
  have "time_fields clk text = time_of_match text m"
    using assms(1,2) m by (simp add: time_fields_def time_patterns_def)
  then have "snd (time_fields clk text) = NaN" using meridiem_minute_NaN [OF m] by simp
  then show ?thesis
    by (cases "time_fields clk text") (simp add: target_time_def adjust_date_NaN)
qed

theorem meridiem_only_falls_back_witness:
  "js_match True pat_at ''dinner tomorrow 6pm'' = None \<and> js_match True pat_clock ''dinner tomorrow 6pm'' = None
   \<and> js_match True pat_meridiem ''dinner tomorrow 6pm'' \<noteq> None
   \<and> target_time clk_ref ''dinner tomorrow 6pm'' = Some (clk_fallback clk_ref)"
proof -
  have h: "js_match True pat_at ''dinner tomorrow 6pm'' = None" "js_match True pat_clock ''dinner tomorrow 6pm'' = None"
    "js_match True pat_meridiem ''dinner tomorrow 6pm'' \<noteq> None" by code_simp+
  show ?thesis using h meridiem_only_falls_back [OF h] by simp
qed

subsection \<open>Facts on dates, fields and captures\<close>

lemma time_clip_valid: "time_clip x = Some y \<Longrightarrow> valid_time (Some y)"
  by (auto simp: time_clip_def valid_time_def split: option.splits if_splits)

lemma set_date_valid: "set_date tv d = Some y \<Longrightarrow> valid_time (Some y)"
  by (auto simp: set_date_def intro: time_clip_valid split: option.splits)

lemma initial_target_valid: "initial_target today h mi = Some y \<Longrightarrow> valid_time (Some y)"
  by (auto simp: initial_target_def date_from_fields_def intro: time_clip_valid)

lemma adjust_date_valid:
  "adjust_date l today tv = Some y \<Longrightarrow> (\<And>x. tv = Some x \<Longrightarrow> valid_time (Some x)) \<Longrightarrow> valid_time (Some y)"
  by (auto simp: adjust_date_def shift_days_def intro: set_date_valid split: if_splits option.splits)

lemma target_time_not_NaN: "target_time clk text \<noteq> NaN"
  by (cases "time_fields clk text") (simp add: target_time_def Let_def)

lemma class_run_take:
  "\<forall>q<n. class_at k s (x + q) \<Longrightarrow> length (take n (drop x s)) = n \<and> (\<forall>c\<in>set (take n (drop x s)). class_test k c)"
proof (induction n)
  case 0 then show ?case by simp
next
  case (Suc n)
  then have "x + n < length s" "class_test k (s ! (x + n))" by (auto simp: class_at_def)
  moreover have "take (Suc n) (drop x s) = take n (drop x s) @ [s ! (x + n)]"
    using \<open>x + n < length s\<close> by (simp add: take_Suc_conv_app_nth)
  ultimately show ?case using Suc by auto
qed

lemma hour_group_digits:
  assumes "js_match True p text = Some m" and "p \<in> set time_patterns"
  shows "\<exists>ds. match_group text m 1 = Some ds \<and> ds \<noteq> [] \<and> length ds \<le> 2 \<and> (\<forall>c\<in>set ds. is_js_digit c)"
proof -
  obtain a b cap where m: "m = (a, b, cap)" by (cases m)
  have wf: "rx_wf p" using assms(2) time_patterns_wf by (auto simp: time_patterns_def)
  have sem: "rx_sem True text p a Map.empty b cap" using js_match_sound assms(1) m wf by simp
  have "\<exists>x n. cap 1 = Some (x, x + n) \<and> 1 \<le> n \<and> n \<le> 2 \<and> (\<forall>q<n. class_at ClsDigit text (x + q))"
    using sem assms(2)
    by (auto simp: time_patterns_def pat_at_def pat_clock_def pat_meridiem_def pat_baje_def am_pm_def
             clear_groups_def elim!: sem_seqE sem_grpE sem_altE sem_litE sem_repE sem_optE)
  then obtain x n where x: "cap 1 = Some (x, x + n)" "1 \<le> n" "n \<le> 2" "\<forall>q<n. class_at ClsDigit text (x + q)"
    by blast
  from class_run_take [OF x(4)] x show ?thesis
    by (intro exI [of _ "take n (drop x text)"]) (auto simp: m match_group_def class_test_def)
qed

lemma lower_char_of_match:
  assumes "char_eq True a c" "97 \<le> code_unit a" "code_unit a \<le> 122"
  shows "lower_char c = a"
proof -
  have "code_unit c = code_unit a \<or> code_unit c + 32 = code_unit a"
    using char_eq_letter [OF assms] .
  then show ?thesis
  proof
    assume "code_unit c = code_unit a"
    then have "c = a" by (simp add: code_unit_def)
    with assms(2,3) show ?thesis by (simp add: lower_char_def Let_def)
  next
    assume e: "code_unit c + 32 = code_unit a"
    then have "lower_char c = char_of (code_unit a)"
      using assms(2,3) by (simp add: lower_char_def Let_def)
    then show ?thesis by (simp add: code_unit_def)
  qed
qed

lemma to_lower_case_lit:
  "lit_at True s x w \<Longrightarrow> \<forall>a\<in>set w. 97 \<le> code_unit a \<and> code_unit a \<le> 122 \<Longrightarrow>
     to_lower_case (take (length w) (drop x s)) = w"
proof (induction w arbitrary: x)
  case Nil
  then show ?case by (simp add: to_lower_case_def)
next
  case (Cons a w)
  from Cons.prems(1) have x: "x < length s" and e: "char_eq True a (s ! x)" and r: "lit_at True s (Suc x) w"
    by (auto simp: lit_at_def nth_drop_Cons list_all2_Cons1)
  have "to_lower_case (take (length w) (drop (Suc x) s)) = w" using Cons.IH [OF r] Cons.prems(2) by simp
  moreover have "lower_char (s ! x) = a" using lower_char_of_match [OF e] Cons.prems(2) by simp
  ultimately show ?case using x by (simp add: to_lower_case_def nth_drop_Cons)
qed

lemma first_pattern_at:
  "js_match True pat_at text = Some m \<Longrightarrow> time_fields clk text = time_of_match text m"
  by (simp add: time_fields_def time_patterns_def)

lemma hour_of_digits:
  assumes "js_match True p text = Some m" "p \<in> set time_patterns"
  obtains ds where "match_group text m 1 = Some ds" "parse_int (capture_string (match_group text m 1)) = Some (int (dec_value ds))"
    "dec_value ds \<le> 99"
proof -
  obtain ds where ds: "match_group text m 1 = Some ds" "ds \<noteq> []" "length ds \<le> 2" "\<forall>c\<in>set ds. is_js_digit c"
    using hour_group_digits [OF assms] by blast
  have "dec_value ds < 10 ^ length ds" using dec_value_bound ds(4) by blast
  also have "(10::nat) ^ length ds \<le> 10 ^ 2" using ds(3) by (rule power_increasing) simp
  finally have "dec_value ds \<le> 99" by simp
  with ds that show ?thesis by (simp add: capture_string_def parse_int_digits)
qed

lemma at_meridiem_group:
  assumes "js_match True pat_at text = Some m" "match_group text m 3 = Some mer"
  shows "to_lower_case mer = ''am'' \<or> to_lower_case mer = ''pm''"
proof -
  obtain a b cap where m: "m = (a, b, cap)" by (cases m)
  have sem: "rx_sem True text pat_at a Map.empty b cap"
    using js_match_sound assms(1) m time_patterns_wf(1) by simp
  have "cap 3 = None \<or> (\<exists>x. cap 3 = Some (x, Suc (Suc x)) \<and> (lit_at True text x ''am'' \<or> lit_at True text x ''pm''))"
    using sem
    by (auto simp: pat_at_def am_pm_def clear_groups_def elim!: sem_seqE sem_grpE sem_altE sem_litE sem_repE sem_optE)
  then obtain x where x: "cap 3 = Some (x, Suc (Suc x))"
      "lit_at True text x ''am'' \<or> lit_at True text x ''pm''"
    using assms(2) m by (auto simp: match_group_def)
  have mer: "mer = take 2 (drop x text)" using assms(2) m x(1) by (simp add: match_group_def)
  from x(2) show ?thesis
  proof
    assume "lit_at True text x ''am''"
    from to_lower_case_lit [OF this] have "to_lower_case (take 2 (drop x text)) = ''am''"
      by (simp add: code_unit_def numeral_2_eq_2)
    with mer show ?thesis by simp
  next
    assume "lit_at True text x ''pm''"
    from to_lower_case_lit [OF this] have "to_lower_case (take 2 (drop x text)) = ''pm''"
      by (simp add: code_unit_def numeral_2_eq_2)
    with mer show ?thesis by simp
  qed
qed

lemma apply_meridiem_12h:
  assumes "1 \<le> h" "h \<le> 12" "to_lower_case mer = ''am'' \<or> to_lower_case mer = ''pm''"
  shows "apply_meridiem (Some h) (Some mer) = Some (h mod 12 + (if to_lower_case mer = ''pm'' then 12 else 0))"
proof (cases "h = 12")
  case True
  with assms(3) show ?thesis by (auto simp: apply_meridiem_def truthy_str_def capture_string_def to_lower_case_def)
next
  case False
  with assms have "h mod 12 = h" by simp
  with False assms show ?thesis
    by (auto simp: apply_meridiem_def truthy_str_def capture_string_def Let_def to_lower_case_def)
qed

lemma pat_baje_groups:
  assumes "js_match True pat_baje text = Some m"
  shows "match_group text m 2 = None \<and> match_group text m 3 = None"
proof -
  obtain a b cap where m: "m = (a, b, cap)" by (cases m)
  have sem: "rx_sem True text pat_baje a Map.empty b cap"
    using js_match_sound assms(1) m time_patterns_wf(4) by simp
  then have "cap 2 = None \<and> cap 3 = None"
    by (auto simp: pat_baje_def elim!: sem_seqE sem_grpE sem_litE sem_repE)
  then show ?thesis using m by (simp add: match_group_def)
qed

lemma get_fields_Some [simp]:
  "get_full_year (Some t) = Some (year_from_time t)" "get_month (Some t) = Some (month_from_time t)"
  "get_date (Some t) = Some (date_from_time t)" "get_hours (Some t) = Some (hour_from_time t)"
  by (simp_all add: get_full_year_def get_month_def get_date_def get_hours_def)

lemma time_clip_in_range [simp]: "\<bar>x\<bar> \<le> 8640000000000000 \<Longrightarrow> time_clip (Some x) = Some x"
  by (simp add: time_clip_def)

lemma shift_days_Some: "shift_days (Some t) n = time_clip (Some (t + n * msPerDay))"
  by (simp add: shift_days_def set_date_shift del: get_fields_Some)

lemma initial_target_today:
  assumes "\<not> (0 \<le> year_from_time today \<and> year_from_time today \<le> 99)"
  shows "initial_target today (Some h) (Some mi) =
           time_clip (Some (js_day today * msPerDay + h * msPerHour + mi * msPerMinute))"
  using date_from_fields_today [OF assms] by (simp add: initial_target_def)

lemma target_time_adjusted:
  assumes "time_fields clk text = (Some h, Some mi)"
    and "\<not> (0 \<le> year_from_time (clk_today clk) \<and> year_from_time (clk_today clk) \<le> 99)"
    and "\<bar>js_day (clk_today clk) * msPerDay + h * msPerHour + mi * msPerMinute\<bar> \<le> 8640000000000000"
  shows "target_time clk text = (let t = adjust_date (to_lower_case text) (clk_today clk)
            (Some (js_day (clk_today clk) * msPerDay + h * msPerHour + mi * msPerMinute))
          in if t = NaN then Some (clk_fallback clk) else t)"
  using assms initial_target_today [OF assms(2), of h mi] by (simp add: target_time_def)

lemma days_to_add_spec:
  assumes "0 \<le> k" "k \<le> 6" "0 \<le> w" "w \<le> 6"
  shows "1 \<le> days_to_add k w \<and> days_to_add k w \<le> 7 \<and> (w + days_to_add k w) mod 7 = k"
  using assms by (auto simp: days_to_add_def Let_def)

lemma week_day_range: "0 \<le> week_day t \<and> week_day t \<le> 6"
  by (simp add: week_day_def)

lemma weekday_names_lower: "\<forall>w\<in>set weekday_names. \<forall>c\<in>set w. 97 \<le> code_unit c \<and> code_unit c \<le> 122"
  by (simp add: weekday_names_def code_unit_def)

lemma next_weekday_capture:
  assumes "js_match True pat_next_weekday l = Some m"
  shows "to_lower_case (capture_string (match_group l m 1)) \<in> set weekday_names"
proof -
  obtain a b cap where m: "m = (a, b, cap)" by (cases m)
  let ?names = "[''monday'', ''tuesday'', ''wednesday'', ''thursday'', ''friday'', ''saturday'', ''sunday'']"
  have sn: "set ?names = set weekday_names" by (simp add: weekday_names_def insert_commute)
  have wf: "rx_wf pat_next_weekday" by (simp add: pat_next_weekday_def)
  have "rx_sem True l (RSeq (RLit ''next '') (RGrp 1 (ralt ?names))) a Map.empty b cap"
    using js_match_sound assms m wf by (simp add: pat_next_weekday_def)
  then obtain x cm cap'' where x: "cap = cap''(1 \<mapsto> (x, b))" "rx_sem True l (ralt ?names) x cm b cap''"
    by (auto elim!: sem_seqE sem_grpE)
  have "\<exists>w\<in>set ?names. lit_at True l x w \<and> b = x + length w \<and> cap'' = cm"
    by (rule sem_ralt [OF x(2)]) simp
  then obtain w where w: "w \<in> set weekday_names" "lit_at True l x w" "b = x + length w"
    unfolding sn by blast
  have low: "to_lower_case (take (length w) (drop x l)) = w"
    using to_lower_case_lit w(2) weekday_names_lower w(1) by blast
  have g: "match_group l m 1 = Some (take (length w) (drop x l))"
    using m x(1) w(3) by (simp add: match_group_def)
  show ?thesis using g low w(1) by (simp add: capture_string_def)
qed

lemma index_of_nth:
  "x \<in> set xs \<Longrightarrow> 0 \<le> index_of xs x \<and> nat (index_of xs x) < length xs \<and> xs ! nat (index_of xs x) = x"
proof (induction xs)
  case Nil then show ?case by simp
next
  case (Cons y ys)
  show ?case
  proof (cases "y = x")
    case True then show ?thesis by simp
  next
    case False
    then have "x \<in> set ys" using Cons.prems by simp
    then have ih: "0 \<le> index_of ys x" "nat (index_of ys x) < length ys" "ys ! nat (index_of ys x) = x"
      using Cons.IH by simp_all
    have "nat (index_of ys x + 1) = Suc (nat (index_of ys x))" using ih(1) by simp
    then show ?thesis using False ih by (simp add: Let_def)
  qed
qed

lemma keyword_word_sem:
  assumes "rx_sem True text (rseq [RGrp 1 (ralt kws), RRep ClsSpace 1 None, RGrp 2 (RRep ClsWord 1 None)]) a Map.empty b cap"
    and "kws \<noteq> []"
  shows "\<exists>w. match_group text (a, b, cap) 2 = Some w \<and> w \<noteq> [] \<and> list_all is_js_word w \<and> word_after kws text w"
proof -
  from assms(1) obtain m1 c1 m2 c2 where
      g1: "rx_sem True text (RGrp 1 (ralt kws)) a Map.empty m1 c1"
      and sp: "rx_sem True text (RRep ClsSpace 1 None) m1 c1 m2 c2"
      and g2: "rx_sem True text (RGrp 2 (RRep ClsWord 1 None)) m2 c2 b cap"
    by (auto elim!: sem_seqE)
  from g1 obtain c0 where "rx_sem True text (ralt kws) a Map.empty m1 c0" by (auto elim!: sem_grpE)
  then obtain kw where kw: "kw \<in> set kws" "lit_at True text a kw" "m1 = a + length kw"
    using sem_ralt assms(2) by blast
  from sp obtain k where k: "1 \<le> k" "\<forall>q<k. class_at ClsSpace text (m1 + q)" "m2 = m1 + k"
    by (auto elim!: sem_repE)
  from g2 obtain n where n: "1 \<le> n" "\<forall>q<n. class_at ClsWord text (m2 + q)" "cap 2 = Some (m2, m2 + n)"
    by (auto elim!: sem_grpE sem_repE)
  let ?w = "take n (drop m2 text)"
  have w: "length ?w = n" "\<forall>c\<in>set ?w. is_js_word c" using class_run_take [OF n(2)] by (simp_all add: class_test_def)
  have s: "length (take k (drop m1 text)) = k" "\<forall>c\<in>set (take k (drop m1 text)). is_js_space c"
    using class_run_take [OF k(2)] by (simp_all add: class_test_def)
  have len: "m2 + n \<le> length text" using n(1,2) by (cases n) (auto simp: class_at_def)
  have "word_after kws text ?w"
    unfolding word_after_def list_ex_iff
    using kw k s w len by (intro exI [of _ a] exI [of _ k] bexI [of _ kw]) (auto simp: list_all_iff)
  then show ?thesis using n(1,3) w by (auto simp: match_group_def list_all_iff)
qed

lemma note_word_group:
  assumes "js_match True p text = Some m"
    and "(p, kws) = (pat_with, [''with'', ''ke sath'']) \<or> (p, kws) = (pat_topic, [''topic'', ''vishay''])"
  shows "\<exists>w. match_group text m 2 = Some w \<and> w \<noteq> [] \<and> list_all is_js_word w \<and> word_after kws text w"
proof -
  obtain a b cap where m: "m = (a, b, cap)" by (cases m)
  have wf: "rx_wf p" using assms(2) by (auto simp: pat_with_def pat_topic_def rep_bounds_ok_def)
  have sem: "rx_sem True text p a Map.empty b cap" using js_match_sound assms(1) m wf by simp
  have "p = rseq [RGrp 1 (ralt kws), RRep ClsSpace 1 None, RGrp 2 (RRep ClsWord 1 None)]" "kws \<noteq> []"
    using assms(2) by (auto simp: pat_with_def pat_topic_def)
  then show ?thesis using keyword_word_sem sem m by blast
qed

lemma strip_title_Nil: "strip_title [] = []"
  by code_simp

lemma extract_title_Nil_iff: "extract_title text = [] \<longleftrightarrow> text = []"
  by (auto simp: extract_title_def strip_title_Nil Let_def)

text \<open>The event of every text: the ISO string of the target time, the title and the note.\<close>

lemma parse_natural_language_event:
  "\<exists>d. to_iso_string (target_time clk text) = Some d \<and>
     parse_natural_language clk text = Some \<lparr>pe_title = extract_title text, pe_datetime = d, pe_note = extract_note text\<rparr>"
proof -
  obtain t where "target_time clk text = Some t"
    using target_time_not_NaN by blast
  then show ?thesis by (simp add: parse_natural_language_def to_iso_string_def)
qed

subsection \<open>Properties of the parser\<close>

text \<open>C2: The parser never throws: for every clock and every text, \<open>toISOString\<close> at line 112 succeeds, because line 109 replaces an invalid date by the clock, and the result is an event.\<close>

theorem parse_natural_language_total: "\<exists>e. parse_natural_language clk text = Some e"
  using parse_natural_language_event by blast

text \<open>C3: The date-time of the event is a valid time value (a number within the range of TimeClip) whenever the clock reading used by the fallback is one.\<close>

theorem target_time_valid:
  assumes "\<bar>clk_fallback clk\<bar> \<le> 8640000000000000"
  shows "valid_time (target_time clk text)"
proof (cases "time_fields clk text")
  case (Pair h mi)
  let ?t = "adjust_date (to_lower_case text) (clk_today clk) (initial_target (clk_today clk) h mi)"
  show ?thesis
  proof (cases ?t)
    case None
    with Pair assms show ?thesis by (simp add: target_time_def valid_time_def)
  next
    case (Some y)
    then have "valid_time (Some y)" using adjust_date_valid initial_target_valid by blast
    with Pair Some show ?thesis by (simp add: target_time_def)
  qed
qed

theorem target_time_valid_witness: "\<bar>clk_fallback clk_ref\<bar> \<le> 8640000000000000 \<and> valid_time (target_time clk_ref ''call at 6'')"
  using target_time_valid [of clk_ref "''call at 6''"] by (simp add: clk_ref_def)

text \<open>C4: \<open>at H\<close> with no minutes and no meridiem: the hour is the one or two digits captured (at most 99), plus 12 when it is between 1 and 7 (the evening heuristic of line 78), and the minute is 0.\<close>

theorem at_hour_without_meridiem:
  assumes "js_match True pat_at text = Some m"
    and "match_group text m 2 = None" and "match_group text m 3 = None"
  shows "\<exists>ds. match_group text m 1 = Some ds \<and> dec_value ds \<le> 99 \<and>
    time_fields clk text =
      (Some (if 1 \<le> dec_value ds \<and> dec_value ds \<le> 7 then int (dec_value ds) + 12 else int (dec_value ds)), Some 0)"
proof -
  obtain ds where ds: "match_group text m 1 = Some ds" "parse_int (capture_string (match_group text m 1)) = Some (int (dec_value ds))"
    "dec_value ds \<le> 99"
    using hour_of_digits [OF assms(1)] by (auto simp: time_patterns_def)
  then show ?thesis
    using first_pattern_at [OF assms(1)] assms(2,3)
    by (auto simp: time_of_match_def apply_meridiem_def truthy_str_def Let_def)
qed

theorem at_hour_without_meridiem_witness: "\<exists>m. js_match True pat_at ''call at 6'' = Some m \<and> match_group ''call at 6'' m 2 = None
    \<and> match_group ''call at 6'' m 3 = None \<and>
    (\<exists>ds. match_group ''call at 6'' m 1 = Some ds \<and> dec_value ds \<le> 99 \<and>
    time_fields clk_ref ''call at 6'' =
      (Some (if 1 \<le> dec_value ds \<and> dec_value ds \<le> 7 then int (dec_value ds) + 12 else int (dec_value ds)), Some 0))"
proof -
  have "map_option (\<lambda>m. (match_group ''call at 6'' m 2, match_group ''call at 6'' m 3))
          (js_match True pat_at ''call at 6'') = Some (None, None)" by code_simp
  then obtain m where m: "js_match True pat_at ''call at 6'' = Some m" "match_group ''call at 6'' m 2 = None"
      "match_group ''call at 6'' m 3 = None" by auto
  show ?thesis using m at_hour_without_meridiem [OF m, of clk_ref] by blast
qed

text \<open>C5: \<open>at H am/pm\<close> with H from 1 to 12: the hour is H modulo 12, plus 12 for pm (lines 73 to 76), whatever the case of the meridiem.\<close>

theorem at_hour_meridiem:
  assumes "js_match True pat_at text = Some m" and "match_group text m 1 = Some ds"
    and "match_group text m 3 = Some mer" and "1 \<le> dec_value ds" "dec_value ds \<le> 12"
  shows "fst (time_fields clk text) =
           Some (int (dec_value ds) mod 12 + (if to_lower_case mer = ''pm'' then 12 else 0))"
proof -
  obtain ds' where "match_group text m 1 = Some ds'"
    "parse_int (capture_string (match_group text m 1)) = Some (int (dec_value ds'))"
    using hour_of_digits [OF assms(1)] by (auto simp: time_patterns_def)
  then have h: "parse_int (capture_string (match_group text m 1)) = Some (int (dec_value ds))"
    using assms(2) by simp
  have "fst (time_fields clk text) = apply_meridiem (Some (int (dec_value ds))) (Some mer)"
    using first_pattern_at [OF assms(1)] h assms(3) by (simp add: time_of_match_def Let_def)
  also have "\<dots> = Some (int (dec_value ds) mod 12 + (if to_lower_case mer = ''pm'' then 12 else 0))"
    using apply_meridiem_12h at_meridiem_group [OF assms(1,3)] assms(4,5) by simp
  finally show ?thesis .
qed

theorem at_hour_meridiem_witness: "\<exists>m. js_match True pat_at ''lunch tomorrow at 1pm'' = Some m \<and> match_group ''lunch tomorrow at 1pm'' m 1 = Some ''1''
    \<and> match_group ''lunch tomorrow at 1pm'' m 3 = Some ''pm'' \<and> 1 \<le> dec_value ''1'' \<and> dec_value ''1'' \<le> 12 \<and>
    fst (time_fields clk_ref ''lunch tomorrow at 1pm'') =
           Some (int (dec_value ''1'') mod 12 + (if to_lower_case ''pm'' = ''pm'' then 12 else 0))"
proof -
  have "map_option (\<lambda>m. (match_group ''lunch tomorrow at 1pm'' m 1, match_group ''lunch tomorrow at 1pm'' m 3))
          (js_match True pat_at ''lunch tomorrow at 1pm'') = Some (Some ''1'', Some ''pm'')" by code_simp
  then obtain m where m: "js_match True pat_at ''lunch tomorrow at 1pm'' = Some m"
      "match_group ''lunch tomorrow at 1pm'' m 1 = Some ''1''" "match_group ''lunch tomorrow at 1pm'' m 3 = Some ''pm''" by auto
  have d: "1 \<le> dec_value ''1''" "dec_value ''1'' \<le> 12" by code_simp+
  show ?thesis using m d at_hour_meridiem [OF m d, of clk_ref] by blast
qed

text \<open>C6: With a time found and \<open>tomorrow\<close> or \<open>kal\<close> in the text, the event is at that hour and minute on the day after the clock's day (lines 87 and 90).\<close>

theorem target_time_tomorrow:
  assumes "time_fields clk text = (Some h, Some mi)"
    and "js_includes (to_lower_case text) ''tomorrow'' \<or> js_includes (to_lower_case text) ''kal''"
    and "\<not> (0 \<le> year_from_time (clk_today clk) \<and> year_from_time (clk_today clk) \<le> 99)"
    and "\<bar>js_day (clk_today clk) * msPerDay + h * msPerHour + mi * msPerMinute\<bar> \<le> 8640000000000000"
    and "\<bar>(js_day (clk_today clk) + 1) * msPerDay + h * msPerHour + mi * msPerMinute\<bar> \<le> 8640000000000000"
  shows "target_time clk text = Some ((js_day (clk_today clk) + 1) * msPerDay + h * msPerHour + mi * msPerMinute)"
proof -
  have "js_day (clk_today clk) * msPerDay + h * msPerHour + mi * msPerMinute + 1 * msPerDay
        = (js_day (clk_today clk) + 1) * msPerDay + h * msPerHour + mi * msPerMinute"
    by (simp add: algebra_simps)
  then show ?thesis
    using target_time_adjusted [OF assms(1,3,4)] assms(2,5)
    by (simp add: adjust_date_def shift_days_Some del: get_fields_Some)
qed

theorem target_time_tomorrow_witness:
  "time_fields clk_ref ''lunch tomorrow at 1pm'' = (Some 13, Some 0) \<and>
   (js_includes (to_lower_case ''lunch tomorrow at 1pm'') ''tomorrow'' \<or> js_includes (to_lower_case ''lunch tomorrow at 1pm'') ''kal'') \<and>
   \<not> (0 \<le> year_from_time (clk_today clk_ref) \<and> year_from_time (clk_today clk_ref) \<le> 99) \<and>
   \<bar>js_day (clk_today clk_ref) * msPerDay + 13 * msPerHour + 0 * msPerMinute\<bar> \<le> 8640000000000000 \<and>
   \<bar>(js_day (clk_today clk_ref) + 1) * msPerDay + 13 * msPerHour + 0 * msPerMinute\<bar> \<le> 8640000000000000 \<and>
   target_time clk_ref ''lunch tomorrow at 1pm'' = Some ((js_day (clk_today clk_ref) + 1) * msPerDay + 13 * msPerHour + 0 * msPerMinute)"
proof -
  have h: "time_fields clk_ref ''lunch tomorrow at 1pm'' = (Some 13, Some 0)"
    "js_includes (to_lower_case ''lunch tomorrow at 1pm'') ''tomorrow'' \<or> js_includes (to_lower_case ''lunch tomorrow at 1pm'') ''kal''"
    "\<not> (0 \<le> year_from_time (clk_today clk_ref) \<and> year_from_time (clk_today clk_ref) \<le> 99)"
    "\<bar>js_day (clk_today clk_ref) * msPerDay + 13 * msPerHour + 0 * msPerMinute\<bar> \<le> 8640000000000000"
    "\<bar>(js_day (clk_today clk_ref) + 1) * msPerDay + 13 * msPerHour + 0 * msPerMinute\<bar> \<le> 8640000000000000"
    by code_simp+
  show ?thesis using h target_time_tomorrow [OF h] by blast
qed

lemma week_day_of_day: "week_day (js_day t * msPerDay) = week_day t"
  by (simp add: week_day_def js_day_def msPerDay_def)

text \<open>C7: With \<open>next <weekday>\<close> and no earlier keyword, the event is 1 to 7 days after today at the time found, and the calendar day that many days after today is the weekday named: its ECMAScript WeekDay (0 for Sunday, with 1 January 1970 a Thursday) is the position of the name in Sunday, Monday, ..., Saturday, so the event is the next such weekday strictly after today (lines 95 to 103).\<close>

theorem target_time_next_weekday:
  assumes tf: "time_fields clk text = (Some h, Some mi)"
    and kw: "\<not> js_includes (to_lower_case text) ''tomorrow''" "\<not> js_includes (to_lower_case text) ''kal''"
      "\<not> js_includes (to_lower_case text) ''next week''"
    and nw: "js_match False pat_next_word (to_lower_case text) \<noteq> None"
    and m: "js_match True pat_next_weekday (to_lower_case text) = Some m"
    and yr: "\<not> (0 \<le> year_from_time (clk_today clk) \<and> year_from_time (clk_today clk) \<le> 99)"
    and bd: "\<bar>js_day (clk_today clk) * msPerDay + h * msPerHour + mi * msPerMinute\<bar> + 7 * msPerDay \<le> 8640000000000000"
  shows "\<exists>n. 1 \<le> n \<and> n \<le> 7 \<and>
           target_time clk text = Some (js_day (clk_today clk) * msPerDay + h * msPerHour + mi * msPerMinute + n * msPerDay) \<and>
           [''sunday'', ''monday'', ''tuesday'', ''wednesday'', ''thursday'', ''friday'', ''saturday'']
             ! nat (week_day ((js_day (clk_today clk) + n) * msPerDay)) =
             to_lower_case (capture_string (match_group (to_lower_case text) m 1))"
proof -
  let ?t0 = "js_day (clk_today clk) * msPerDay + h * msPerHour + mi * msPerMinute"
  let ?w = "to_lower_case (capture_string (match_group (to_lower_case text) m 1))"
  let ?k = "index_of weekday_names ?w"
  let ?n = "days_to_add ?k (week_day (clk_today clk))"
  have ix: "0 \<le> ?k" "nat ?k < 7" "weekday_names ! nat ?k = ?w"
    using index_of_nth [OF next_weekday_capture [OF m]] by (simp_all add: weekday_names_def)
  have n: "1 \<le> ?n" "?n \<le> 7" "(week_day (clk_today clk) + ?n) mod 7 = ?k"
    using days_to_add_spec [of ?k "week_day (clk_today clk)"] ix(1,2) week_day_range by auto
  have b0: "\<bar>?t0\<bar> \<le> 8640000000000000" using bd by (simp add: msPerDay_def)
  have b1: "\<bar>?t0 + ?n * msPerDay\<bar> \<le> 8640000000000000"
    using bd n(1,2) by (simp add: msPerDay_def abs_le_iff)
  have "target_time clk text = Some (?t0 + ?n * msPerDay)"
    using target_time_adjusted [OF tf yr b0] kw nw m b1 by (simp add: adjust_date_def shift_days_Some del: get_fields_Some)
  moreover have "week_day ((js_day (clk_today clk) + ?n) * msPerDay) = ?k"
    using week_day_shift [of "js_day (clk_today clk) * msPerDay" ?n] n(3)
    by (simp add: week_day_of_day distrib_right)
  ultimately show ?thesis using n ix(3) by (intro exI [of _ ?n]) (simp add: weekday_names_def)
qed

theorem target_time_next_weekday_witness: "\<exists>m. time_fields clk_ref ''meeting next friday at 3'' = (Some 15, Some 0) \<and>
    \<not> js_includes (to_lower_case ''meeting next friday at 3'') ''tomorrow'' \<and>
    \<not> js_includes (to_lower_case ''meeting next friday at 3'') ''kal'' \<and>
    \<not> js_includes (to_lower_case ''meeting next friday at 3'') ''next week'' \<and>
    js_match False pat_next_word (to_lower_case ''meeting next friday at 3'') \<noteq> None \<and>
    js_match True pat_next_weekday (to_lower_case ''meeting next friday at 3'') = Some m \<and>
    \<not> (0 \<le> year_from_time (clk_today clk_ref) \<and> year_from_time (clk_today clk_ref) \<le> 99) \<and>
    \<bar>js_day (clk_today clk_ref) * msPerDay + 15 * msPerHour + 0 * msPerMinute\<bar> + 7 * msPerDay \<le> 8640000000000000 \<and>
    (\<exists>n. 1 \<le> n \<and> n \<le> 7 \<and>
       target_time clk_ref ''meeting next friday at 3'' =
         Some (js_day (clk_today clk_ref) * msPerDay + 15 * msPerHour + 0 * msPerMinute + n * msPerDay) \<and>
       [''sunday'', ''monday'', ''tuesday'', ''wednesday'', ''thursday'', ''friday'', ''saturday'']
         ! nat (week_day ((js_day (clk_today clk_ref) + n) * msPerDay)) =
         to_lower_case (capture_string (match_group (to_lower_case ''meeting next friday at 3'') m 1)))"
proof -
  have h: "time_fields clk_ref ''meeting next friday at 3'' = (Some 15, Some 0)"
    "\<not> js_includes (to_lower_case ''meeting next friday at 3'') ''tomorrow''"
    "\<not> js_includes (to_lower_case ''meeting next friday at 3'') ''kal''"
    "\<not> js_includes (to_lower_case ''meeting next friday at 3'') ''next week''"
    "js_match False pat_next_word (to_lower_case ''meeting next friday at 3'') \<noteq> None"
    "\<not> (0 \<le> year_from_time (clk_today clk_ref) \<and> year_from_time (clk_today clk_ref) \<le> 99)"
    "\<bar>js_day (clk_today clk_ref) * msPerDay + 15 * msPerHour + 0 * msPerMinute\<bar> + 7 * msPerDay \<le> 8640000000000000"
    by code_simp+
  have "js_match True pat_next_weekday (to_lower_case ''meeting next friday at 3'') \<noteq> None" by code_simp
  then obtain m where m: "js_match True pat_next_weekday (to_lower_case ''meeting next friday at 3'') = Some m" by blast
  show ?thesis using h m target_time_next_weekday [OF h(1-5) m h(6,7)] by blast
qed

text \<open>C8: With \<open>next week\<close> and neither \<open>tomorrow\<close> nor \<open>kal\<close>, the event is seven days after today at the time found (line 92).\<close>

theorem target_time_next_week:
  assumes tf: "time_fields clk text = (Some h, Some mi)"
    and kw: "\<not> js_includes (to_lower_case text) ''tomorrow''" "\<not> js_includes (to_lower_case text) ''kal''"
      "js_includes (to_lower_case text) ''next week''"
    and yr: "\<not> (0 \<le> year_from_time (clk_today clk) \<and> year_from_time (clk_today clk) \<le> 99)"
    and bd: "\<bar>js_day (clk_today clk) * msPerDay + h * msPerHour + mi * msPerMinute\<bar> + 7 * msPerDay \<le> 8640000000000000"
  shows "target_time clk text = Some ((js_day (clk_today clk) + 7) * msPerDay + h * msPerHour + mi * msPerMinute)"
proof -
  let ?t0 = "js_day (clk_today clk) * msPerDay + h * msPerHour + mi * msPerMinute"
  have b0: "\<bar>?t0\<bar> \<le> 8640000000000000" using bd by (simp add: msPerDay_def)
  have b1: "\<bar>?t0 + 7 * msPerDay\<bar> \<le> 8640000000000000" using bd by (simp add: msPerDay_def abs_le_iff)
  have "?t0 + 7 * msPerDay = (js_day (clk_today clk) + 7) * msPerDay + h * msPerHour + mi * msPerMinute"
    by (simp add: algebra_simps)
  then show ?thesis
    using target_time_adjusted [OF tf yr b0] kw b1
    by (simp add: adjust_date_def shift_days_Some del: get_fields_Some)
qed

theorem target_time_next_week_witness: "time_fields clk_ref ''review next week'' = (Some 9, Some 0) \<and>
    \<not> js_includes (to_lower_case ''review next week'') ''tomorrow'' \<and> \<not> js_includes (to_lower_case ''review next week'') ''kal'' \<and>
    js_includes (to_lower_case ''review next week'') ''next week'' \<and>
    \<not> (0 \<le> year_from_time (clk_today clk_ref) \<and> year_from_time (clk_today clk_ref) \<le> 99) \<and>
    \<bar>js_day (clk_today clk_ref) * msPerDay + 9 * msPerHour + 0 * msPerMinute\<bar> + 7 * msPerDay \<le> 8640000000000000 \<and>
    target_time clk_ref ''review next week'' = Some ((js_day (clk_today clk_ref) + 7) * msPerDay + 9 * msPerHour + 0 * msPerMinute)"
proof -
  have h: "time_fields clk_ref ''review next week'' = (Some 9, Some 0)"
    "\<not> js_includes (to_lower_case ''review next week'') ''tomorrow''" "\<not> js_includes (to_lower_case ''review next week'') ''kal''"
    "js_includes (to_lower_case ''review next week'') ''next week''"
    "\<not> (0 \<le> year_from_time (clk_today clk_ref) \<and> year_from_time (clk_today clk_ref) \<le> 99)"
    "\<bar>js_day (clk_today clk_ref) * msPerDay + 9 * msPerHour + 0 * msPerMinute\<bar> + 7 * msPerDay \<le> 8640000000000000"
    by code_simp+
  show ?thesis using h target_time_next_week [OF h] by blast
qed

text \<open>C9: With no date keyword, the event is today at the time found; an hour of 24 or more rolls over into the next day, as MakeTime and MakeDate compute it.\<close>

theorem target_time_no_keyword:
  assumes "time_fields clk text = (Some h, Some mi)"
    and "\<not> js_includes (to_lower_case text) ''tomorrow''" "\<not> js_includes (to_lower_case text) ''kal''"
    and "\<not> js_includes (to_lower_case text) ''next week''"
    and "js_match False pat_next_word (to_lower_case text) = None"
    and "\<not> (0 \<le> year_from_time (clk_today clk) \<and> year_from_time (clk_today clk) \<le> 99)"
    and "\<bar>js_day (clk_today clk) * msPerDay + h * msPerHour + mi * msPerMinute\<bar> \<le> 8640000000000000"
  shows "target_time clk text = Some (js_day (clk_today clk) * msPerDay + h * msPerHour + mi * msPerMinute)"
  using target_time_adjusted [OF assms(1,6,7)] assms(2-5) by (simp add: adjust_date_def)

theorem target_time_no_keyword_witness: "time_fields clk_ref ''call at 30'' = (Some 30, Some 0) \<and>
    \<not> js_includes (to_lower_case ''call at 30'') ''tomorrow'' \<and> \<not> js_includes (to_lower_case ''call at 30'') ''kal'' \<and>
    \<not> js_includes (to_lower_case ''call at 30'') ''next week'' \<and>
    js_match False pat_next_word (to_lower_case ''call at 30'') = None \<and>
    \<not> (0 \<le> year_from_time (clk_today clk_ref) \<and> year_from_time (clk_today clk_ref) \<le> 99) \<and>
    \<bar>js_day (clk_today clk_ref) * msPerDay + 30 * msPerHour + 0 * msPerMinute\<bar> \<le> 8640000000000000 \<and>
    target_time clk_ref ''call at 30'' = Some (js_day (clk_today clk_ref) * msPerDay + 30 * msPerHour + 0 * msPerMinute)"
proof -
  have h: "time_fields clk_ref ''call at 30'' = (Some 30, Some 0)"
    "\<not> js_includes (to_lower_case ''call at 30'') ''tomorrow''" "\<not> js_includes (to_lower_case ''call at 30'') ''kal''"
    "\<not> js_includes (to_lower_case ''call at 30'') ''next week''"
    "js_match False pat_next_word (to_lower_case ''call at 30'') = None"
    "\<not> (0 \<le> year_from_time (clk_today clk_ref) \<and> year_from_time (clk_today clk_ref) \<le> 99)"
    "\<bar>js_day (clk_today clk_ref) * msPerDay + 30 * msPerHour + 0 * msPerMinute\<bar> \<le> 8640000000000000"
    by code_simp+
  show ?thesis using h target_time_no_keyword [OF h] by blast
qed

text \<open>C10: \<open>H baje\<close>, when no other pattern matches: the hour is H, plus 12 for 1 to 7, and the minute is 0.\<close>

theorem baje_hour:
  assumes "js_match True pat_at text = None" "js_match True pat_clock text = None"
    and "js_match True pat_meridiem text = None" and "js_match True pat_baje text = Some m"
  shows "\<exists>ds. match_group text m 1 = Some ds \<and> dec_value ds \<le> 99 \<and>
    time_fields clk text =
      (Some (if 1 \<le> dec_value ds \<and> dec_value ds \<le> 7 then int (dec_value ds) + 12 else int (dec_value ds)), Some 0)"
proof -
  obtain ds where ds: "match_group text m 1 = Some ds" "parse_int (capture_string (match_group text m 1)) = Some (int (dec_value ds))"
    "dec_value ds \<le> 99"
    using hour_of_digits [OF assms(4)] by (auto simp: time_patterns_def)
  have "time_fields clk text = time_of_match text m"
    using assms by (simp add: time_fields_def time_patterns_def)
  then show ?thesis
    using ds pat_baje_groups [OF assms(4)]
    by (auto simp: time_of_match_def apply_meridiem_def truthy_str_def Let_def)
qed

theorem baje_hour_witness: "\<exists>m. js_match True pat_at ''meeting 5 baje'' = None \<and> js_match True pat_clock ''meeting 5 baje'' = None \<and>
    js_match True pat_meridiem ''meeting 5 baje'' = None \<and> js_match True pat_baje ''meeting 5 baje'' = Some m \<and>
    (\<exists>ds. match_group ''meeting 5 baje'' m 1 = Some ds \<and> dec_value ds \<le> 99 \<and>
    time_fields clk_ref ''meeting 5 baje'' =
      (Some (if 1 \<le> dec_value ds \<and> dec_value ds \<le> 7 then int (dec_value ds) + 12 else int (dec_value ds)), Some 0))"
proof -
  have h: "js_match True pat_at ''meeting 5 baje'' = None" "js_match True pat_clock ''meeting 5 baje'' = None"
    "js_match True pat_meridiem ''meeting 5 baje'' = None" "js_match True pat_baje ''meeting 5 baje'' \<noteq> None"
    by code_simp+
  then obtain m where m: "js_match True pat_baje ''meeting 5 baje'' = Some m" by blast
  show ?thesis using h(1-3) m baje_hour [OF h(1-3) m, of clk_ref] by blast
qed

text \<open>C11: When no time pattern matches, the hour is the clock's current hour and the minute is 0 (lines 52, 53 and 87).\<close>

theorem no_time_pattern_keeps_clock_hour:
  assumes "\<forall>p\<in>set time_patterns. js_match True p text = None"
  shows "time_fields clk text = (Some (hour_from_time (clk_hour clk)), Some 0)"
  using assms by (simp add: time_fields_def time_patterns_def get_hours_def)

theorem no_time_pattern_keeps_clock_hour_witness:
  "js_match True pat_at ''standup'' = None \<and> js_match True pat_clock ''standup'' = None \<and>
   js_match True pat_meridiem ''standup'' = None \<and> js_match True pat_baje ''standup'' = None \<and>
   time_fields clk_ref ''standup'' = (Some (hour_from_time (clk_hour clk_ref)), Some 0)"
proof -
  have h: "js_match True pat_at ''standup'' = None" "js_match True pat_clock ''standup'' = None"
    "js_match True pat_meridiem ''standup'' = None" "js_match True pat_baje ''standup'' = None"
    by code_simp+
  then have "\<forall>p\<in>set time_patterns. js_match True p ''standup'' = None" by (simp add: time_patterns_def)
  then show ?thesis using h no_time_pattern_keeps_clock_hour by blast
qed

text \<open>C12: When both \<open>with <word>\<close> and \<open>topic <word>\<close> occur, the note is \<open>With a, Topic: b\<close>, where \<open>a\<close> is the second group of the with-match, a non-empty run of word characters standing after \<open>with\<close> or \<open>ke sath\<close> and spaces, and \<open>b\<close> the second group of the topic-match, a word standing after \<open>topic\<close> or \<open>vishay\<close> and spaces (lines 130 to 139).\<close>

theorem extract_note_with_topic:
  assumes "js_match True pat_with text = Some m1" and "js_match True pat_topic text = Some m2"
  shows "\<exists>a b. extract_note text = Some (''With '' @ a @ '', Topic: '' @ b) \<and>
           match_group text m1 2 = Some a \<and> match_group text m2 2 = Some b \<and>
           a \<noteq> [] \<and> b \<noteq> [] \<and> list_all is_js_word (a @ b) \<and>
           word_after [''with'', ''ke sath''] text a \<and> word_after [''topic'', ''vishay''] text b"
proof -
  obtain a where a: "match_group text m1 2 = Some a" "a \<noteq> []" "list_all is_js_word a"
      "word_after [''with'', ''ke sath''] text a"
    using note_word_group [OF assms(1)] by blast
  obtain b where b: "match_group text m2 2 = Some b" "b \<noteq> []" "list_all is_js_word b"
      "word_after [''topic'', ''vishay''] text b"
    using note_word_group [OF assms(2)] by blast
  have "extract_note text = Some (''With '' @ a @ '', Topic: '' @ b)"
    using assms a(1) b(1) by (simp add: extract_note_def truthy_str_def capture_string_def)
  then show ?thesis using a b by auto
qed

theorem extract_note_with_topic_witness: "\<exists>m1 m2. js_match True pat_with ''meeting with Raj topic budget'' = Some m1 \<and>
    js_match True pat_topic ''meeting with Raj topic budget'' = Some m2 \<and>
    (\<exists>a b. extract_note ''meeting with Raj topic budget'' = Some (''With '' @ a @ '', Topic: '' @ b) \<and>
           match_group ''meeting with Raj topic budget'' m1 2 = Some a \<and>
           match_group ''meeting with Raj topic budget'' m2 2 = Some b \<and>
           a \<noteq> [] \<and> b \<noteq> [] \<and> list_all is_js_word (a @ b) \<and>
           word_after [''with'', ''ke sath''] ''meeting with Raj topic budget'' a \<and>
           word_after [''topic'', ''vishay''] ''meeting with Raj topic budget'' b)"
proof -
  have "js_match True pat_with ''meeting with Raj topic budget'' \<noteq> None"
       "js_match True pat_topic ''meeting with Raj topic budget'' \<noteq> None" by code_simp+
  then obtain m1 m2 where m: "js_match True pat_with ''meeting with Raj topic budget'' = Some m1"
     "js_match True pat_topic ''meeting with Raj topic budget'' = Some m2" by blast
  show ?thesis using m extract_note_with_topic [OF m] by blast
qed

text \<open>C13: The note is absent exactly when neither the with-pattern nor the topic-pattern matches.\<close>

theorem extract_note_none:
  "extract_note text = None \<longleftrightarrow> js_match True pat_with text = None \<and> js_match True pat_topic text = None"
  by (simp add: extract_note_def Let_def split: option.split)

text \<open>C14: The title is empty exactly when the text is: stripping that leaves fewer than 3 characters falls back to the raw text.\<close>

theorem extract_title_nonempty: "extract_title text = [] \<longleftrightarrow> text = []"
  by (rule extract_title_Nil_iff)

text \<open>C15: When stripping leaves fewer than 3 characters, the title is the first 100 characters of the text, and no longer than 100.\<close>

theorem extract_title_fallback:
  assumes "length (strip_title text) < 3"
  shows "extract_title text = take 100 text \<and> length (extract_title text) \<le> 100"
  using assms by (simp add: extract_title_def)

theorem extract_title_fallback_witness: "length (strip_title ''6pm'') < 3 \<and> extract_title ''6pm'' = take 100 ''6pm'' \<and> length (extract_title ''6pm'') \<le> 100"
proof -
  have h: "length (strip_title ''6pm'') < 3" by code_simp
  show ?thesis using h extract_title_fallback [OF h] by blast
qed

end
