(* ===== verification/JSValue.thy ===== *)
theory JSValue
  imports Complex_Main "HOL-Library.Multiset" JSString
begin

text \<open>
  The JavaScript values the handlers of src/functions receive and store: the JSON of a
  request body or query (\<open>req.body\<close>, \<open>req.query\<close>), the documents of the store, with
  the operations the handlers apply to them: property access and destructuring,
  truthiness and \<open>||\<close>, \<open>== null\<close>, \<open>Number(x)\<close> (ToNumber, with StringToNumber of
  ECMAScript 7.1.4.1) and \<open>+\<close> on numbers.  A number is an exact rational, an infinity
  or \<open>NaN\<close>: the model has no rounding, no overflow to infinity and no negative zero.
\<close>

datatype jnum = JFin rat | JPosInf | JNegInf | JNaN

text \<open>Addition on numbers (ECMAScript 6.1.6.1.7): \<open>NaN\<close> absorbs, opposite infinities give \<open>NaN\<close>.\<close>

fun jn_add :: "jnum \<Rightarrow> jnum \<Rightarrow> jnum" where
  "jn_add (JFin x) (JFin y) = JFin (x + y)"
| "jn_add JNaN _ = JNaN"
| "jn_add _ JNaN = JNaN"
| "jn_add JPosInf JNegInf = JNaN"
| "jn_add JNegInf JPosInf = JNaN"
| "jn_add JPosInf _ = JPosInf"
| "jn_add _ JPosInf = JPosInf"
| "jn_add JNegInf _ = JNegInf"
| "jn_add _ JNegInf = JNegInf"

fun jn_neg :: "jnum \<Rightarrow> jnum" where
  "jn_neg (JFin x) = JFin (- x)"
| "jn_neg JPosInf = JNegInf"
| "jn_neg JNegInf = JPosInf"
| "jn_neg JNaN = JNaN"

definition jn_sub :: "jnum \<Rightarrow> jnum \<Rightarrow> jnum" where
  "jn_sub a b = jn_add a (jn_neg b)"

text \<open>ToBoolean of a number: \<open>0\<close> and \<open>NaN\<close> are falsy.\<close>

fun jn_truthy :: "jnum \<Rightarrow> bool" where
  "jn_truthy (JFin x) \<longleftrightarrow> x \<noteq> 0"
| "jn_truthy JNaN \<longleftrightarrow> False"
| "jn_truthy _ \<longleftrightarrow> True"

text \<open>
  An argument of the \<open>Date\<close> constructor as MakeDay and MakeTime use it: \<open>NaN\<close> unless
  finite, else ToIntegerOrInfinity, the truncation towards zero.
\<close>

fun date_arg :: "jnum \<Rightarrow> jsnum" where
  "date_arg (JFin x) = Some (if x < 0 then - \<lfloor>- x\<rfloor> else \<lfloor>x\<rfloor>)"
| "date_arg _ = None"

text \<open>
  JSON values, and the two kinds of value the store adds: a Firestore \<open>Timestamp\<close>
  (\<open>JTime\<close>, milliseconds since the epoch) and \<open>undefined\<close>.  An object is the list of
  its properties in order.
\<close>

datatype jval = JUndef | JNull | JBool bool | JNumber jnum | JString string | JTime int
  | JArray "jval list" | JObject "(string \<times> jval) list"

text \<open>\<open>v.k\<close> for the property names the handlers read: \<open>undefined\<close> unless \<open>v\<close> is an
  object with that key; \<open>JSON.parse\<close> keeps the last of duplicate keys.\<close>

definition get_prop :: "jval \<Rightarrow> string \<Rightarrow> jval" where
  "get_prop v k = (case v of
     JObject kvs \<Rightarrow> (case map_of (rev kvs) k of Some x \<Rightarrow> x | None \<Rightarrow> JUndef)
   | _ \<Rightarrow> JUndef)"

text \<open>ToBoolean.\<close>

fun js_truthy :: "jval \<Rightarrow> bool" where
  "js_truthy JUndef \<longleftrightarrow> False"
| "js_truthy JNull \<longleftrightarrow> False"
| "js_truthy (JBool b) \<longleftrightarrow> b"
| "js_truthy (JNumber n) \<longleftrightarrow> jn_truthy n"
| "js_truthy (JString s) \<longleftrightarrow> s \<noteq> []"
| "js_truthy (JTime t) \<longleftrightarrow> True"
| "js_truthy (JArray xs) \<longleftrightarrow> True"
| "js_truthy (JObject kvs) \<longleftrightarrow> True"

text \<open>\<open>a || b\<close>: the first operand if it is truthy, else the second.\<close>

definition js_or :: "jval \<Rightarrow> jval \<Rightarrow> jval" where
  "js_or a b = (if js_truthy a then a else b)"

text \<open>\<open>x == null\<close>: true exactly for \<open>null\<close> and \<open>undefined\<close>.\<close>

definition loose_null :: "jval \<Rightarrow> bool" where
  "loose_null v \<longleftrightarrow> v = JNull \<or> v = JUndef"

subsection \<open>StringToNumber\<close>

text \<open>\<open>10 ^ e\<close> for an integer exponent.\<close>

definition pow10 :: "int \<Rightarrow> rat" where
  "pow10 e = (if 0 \<le> e then 10 ^ nat e else 1 / 10 ^ nat (- e))"

text \<open>The ExponentPart: nothing, or \<open>e\<close>/\<open>E\<close>, an optional sign and at least one digit, ending the string.\<close>

definition str_exponent :: "string \<Rightarrow> int option" where
  "str_exponent s = (case s of
     [] \<Rightarrow> Some 0
   | c # r \<Rightarrow>
       if c = CHR ''e'' \<or> c = CHR ''E'' then
         (let sg = (if r \<noteq> [] \<and> hd r = CHR ''-'' then -1 else (1::int));
              ds = (if r \<noteq> [] \<and> (hd r = CHR ''-'' \<or> hd r = CHR ''+'') then tl r else r)
          in if ds \<noteq> [] \<and> list_all is_js_digit ds then Some (sg * int (dec_value ds)) else None)
       else None)"

text \<open>StrUnsignedDecimalLiteral without \<open>Infinity\<close>: digits, an optional fraction, an
  optional exponent; at least one digit before or after the point.\<close>

definition str_unsigned_decimal :: "string \<Rightarrow> rat option" where
  "str_unsigned_decimal s = (let ip = takeWhile is_js_digit s; r1 = dropWhile is_js_digit s;
      dot = (r1 \<noteq> [] \<and> hd r1 = CHR ''.'');
      fp = (if dot then takeWhile is_js_digit (tl r1) else []);
      r2 = (if dot then dropWhile is_js_digit (tl r1) else r1)
    in if ip = [] \<and> fp = [] then None
       else (case str_exponent r2 of
               None \<Rightarrow> None
             | Some e \<Rightarrow> Some ((of_nat (dec_value ip) + of_nat (dec_value fp) / 10 ^ length fp) * pow10 e)))"

text \<open>NonDecimalIntegerLiteral after its prefix: at least one digit, all of the radix.\<close>

definition str_non_decimal :: "nat \<Rightarrow> string \<Rightarrow> jnum" where
  "str_non_decimal r ds = (let z = radix_digits r ds in
     if ds \<noteq> [] \<and> length z = length ds then JFin (of_nat (digits_to_nat r z)) else JNaN)"

definition string_to_number :: "string \<Rightarrow> jnum" where
  "string_to_number str = (let t = js_trim str in
     if t = [] then JFin 0
     else if t = ''Infinity'' \<or> t = ''+Infinity'' then JPosInf
     else if t = ''-Infinity'' then JNegInf
     else if take 2 t = ''0x'' \<or> take 2 t = ''0X'' then str_non_decimal 16 (drop 2 t)
     else if take 2 t = ''0o'' \<or> take 2 t = ''0O'' then str_non_decimal 8 (drop 2 t)
     else if take 2 t = ''0b'' \<or> take 2 t = ''0B'' then str_non_decimal 2 (drop 2 t)
     else (let neg = (hd t = CHR ''-'');
               u = (if hd t = CHR ''-'' \<or> hd t = CHR ''+'' then tl t else t)
           in case str_unsigned_decimal u of
                None \<Rightarrow> JNaN
              | Some q \<Rightarrow> JFin (if neg then - q else q)))"

text \<open>
  ToNumber of a value.  An array is converted through its \<open>join(',')\<close>: empty it is
  \<open>""\<close>, with two or more elements the string has a comma and is \<open>NaN\<close>, with one
  element it is that element's ToString, which converts back to the element's number
  (\<open>null\<close> and \<open>undefined\<close> join as \<open>""\<close>).  An object is \<open>"[object Object]"\<close>.
  A \<open>Timestamp\<close> converts through its \<open>valueOf\<close>, the string of its seconds from
  0001-01-01 (62135596800 before the epoch), a point and its nanoseconds.
\<close>

fun to_number :: "jval \<Rightarrow> jnum" where
  "to_number JUndef = JNaN"
| "to_number JNull = JFin 0"
| "to_number (JBool b) = JFin (if b then 1 else 0)"
| "to_number (JNumber n) = n"
| "to_number (JString s) = string_to_number s"
| "to_number (JTime t) = JFin (of_int t / 1000 + 62135596800)"
| "to_number (JArray []) = JFin 0"
| "to_number (JArray [JUndef]) = JFin 0"
| "to_number (JArray [JNull]) = JFin 0"
| "to_number (JArray [JBool b]) = JNaN"
| "to_number (JArray [JNumber n]) = n"
| "to_number (JArray [JString s]) = string_to_number s"
| "to_number (JArray [JTime t]) = JNaN"
| "to_number (JArray [JArray xs]) = to_number (JArray xs)"
| "to_number (JArray [JObject kvs]) = JNaN"
| "to_number (JArray (x # y # zs)) = JNaN"
| "to_number (JObject kvs) = JNaN"

text \<open>The sum of a list of numbers, from \<open>0\<close>, a reference for the loops that add amounts.\<close>

definition jn_sum :: "jnum list \<Rightarrow> jnum" where
  "jn_sum xs = foldr jn_add xs (JFin 0)"

subsection \<open>Properties of the values\<close>

lemma jn_add_comm: "jn_add a b = jn_add b a"
  by (cases a; cases b) simp_all

lemma jn_add_assoc: "jn_add (jn_add a b) c = jn_add a (jn_add b c)"
  by (cases a; cases b; cases c) simp_all

lemma jn_add_left_commute: "jn_add a (jn_add b c) = jn_add b (jn_add a c)"
  by (cases a; cases b; cases c) simp_all

lemma jn_add_0 [simp]: "jn_add (JFin 0) a = a" "jn_add a (JFin 0) = a"
  by (cases a; simp)+

lemma jn_sum_simps [simp]: "jn_sum [] = JFin 0" "jn_sum (x # xs) = jn_add x (jn_sum xs)"
  by (simp_all add: jn_sum_def)

lemma jn_sum_append: "jn_sum (xs @ ys) = jn_add (jn_sum xs) (jn_sum ys)"
  by (induction xs) (simp_all add: jn_add_assoc)

lemma jn_sum_middle: "jn_sum (us @ x # vs) = jn_add x (jn_sum (us @ vs))"
proof -
  have "jn_sum (us @ x # vs) = jn_add (jn_sum us) (jn_add x (jn_sum vs))" by (simp add: jn_sum_append)
  also have "\<dots> = jn_add x (jn_add (jn_sum us) (jn_sum vs))" by (rule jn_add_left_commute)
  also have "\<dots> = jn_add x (jn_sum (us @ vs))" by (simp add: jn_sum_append)
  finally show ?thesis .
qed

lemma jn_sum_perm: "mset xs = mset ys \<Longrightarrow> jn_sum xs = jn_sum ys"
proof (induction xs arbitrary: ys)
  case Nil then show ?case by simp
next
  case (Cons x xs)
  then have "x \<in> set ys" by (metis list.set_intros(1) set_mset_mset)
  then obtain us vs where ys: "ys = us @ x # vs" by (meson split_list)
  then have "mset xs = mset (us @ vs)" using Cons.prems by simp
  then have "jn_sum xs = jn_sum (us @ vs)" by (rule Cons.IH)
  then show ?case using ys by (simp add: jn_sum_middle)
qed

lemma jn_sum_neginf: "JNegInf \<in> set xs \<Longrightarrow> jn_sum xs = JNegInf \<or> jn_sum xs = JNaN"
proof (induction xs)
  case Nil then show ?case by simp
next
  case (Cons x xs)
  show ?case
  proof (cases "x = JNegInf")
    case True
    then show ?thesis by (cases "jn_sum xs") simp_all
  next
    case False
    then have "jn_sum xs = JNegInf \<or> jn_sum xs = JNaN" using Cons by simp
    then show ?thesis by (cases x) auto
  qed
qed

lemma jn_sum_opposite_inf: "JPosInf \<in> set xs \<Longrightarrow> JNegInf \<in> set xs \<Longrightarrow> jn_sum xs = JNaN"
proof -
  assume p: "JPosInf \<in> set xs" and n: "JNegInf \<in> set xs"
  obtain us vs where xs: "xs = us @ JPosInf # vs" using p by (meson split_list)
  then have "JNegInf \<in> set (us @ vs)" using n by auto
  then have "jn_sum (us @ vs) = JNegInf \<or> jn_sum (us @ vs) = JNaN" by (rule jn_sum_neginf)
  then show ?thesis using xs by (auto simp: jn_sum_middle)
qed

lemma get_prop_or_empty: "get_prop (js_or v (JObject [])) k = get_prop v k"
  by (cases v) (simp_all add: js_or_def get_prop_def)

lemma digits_no_space: "list_all is_js_digit s \<Longrightarrow> dropWhile is_js_space s = s"
  by (cases s) (simp_all add: digit_not_space)

lemma js_trim_digits: "list_all is_js_digit s \<Longrightarrow> js_trim s = s"
  by (simp add: js_trim_def digits_no_space)

text \<open>\<open>Number(s)\<close> and \<open>parseInt(s)\<close> agree on a non-empty string of decimal digits: both give its decimal value.\<close>

lemma string_to_number_digits:
  assumes "s \<noteq> []" and "list_all is_js_digit s"
  shows "string_to_number s = JFin (of_nat (dec_value s)) \<and> parse_int s = Some (int (dec_value s))"
proof -
  obtain c r where s: "s = c # r" using assms(1) by (cases s) auto
  have c: "is_js_digit c" using assms(2) s by simp
  then have nc: "c \<noteq> CHR ''-''" "c \<noteq> CHR ''+''" "c \<noteq> CHR ''I''" using digit_not_sign [OF c]
    by (auto simp: is_js_digit_def code_unit_def)
  have nx: "\<not> (take 2 s = ''0x'' \<or> take 2 s = ''0X'' \<or> take 2 s = ''0o'' \<or> take 2 s = ''0O'' \<or>
              take 2 s = ''0b'' \<or> take 2 s = ''0B'')"
    using assms(2) s by (cases r) (auto simp: is_js_digit_def code_unit_def)
  have tw: "takeWhile is_js_digit s = s" "dropWhile is_js_digit s = []"
    using assms(2) by (simp_all add: list_all_iff)
  have u: "str_unsigned_decimal s = Some (of_nat (dec_value s))"
    unfolding str_unsigned_decimal_def Let_def tw using assms(1)
    by (simp add: str_exponent_def pow10_def dec_value_def digits_to_nat_def)
  have "string_to_number s = JFin (of_nat (dec_value s))"
  proof -
    have hs: "hd s \<noteq> CHR ''-''" "hd s \<noteq> CHR ''+''" "s \<noteq> ''Infinity''" "s \<noteq> ''+Infinity''" "s \<noteq> ''-Infinity''"
      using nc s by auto
    show ?thesis
      unfolding string_to_number_def Let_def js_trim_digits [OF assms(2)] using assms(1) hs nx u by simp
  qed
  moreover have "parse_int s = Some (int (dec_value s))"
    using parse_int_digits assms by (simp add: list_all_iff)
  ultimately show ?thesis by simp
qed

end
