(* ===== verification/Firestore.thy ===== *)
theory Firestore
  imports JSValue JSDate "HOL-Library.Multiset" "HOL-Library.Char_ord" "HOL-Library.List_Lexorder" "HOL-Library.Product_Lexorder"
begin

text \<open>
  The part of the Firestore client (Firebase Admin SDK) that the handlers call, as an
  abstract store: the collections \<open>users/{uid}/schedule\<close> and \<open>users/{uid}/expenses\<close>
  are lists of documents, each with its id, in the order they were added.
  \<^item> \<open>collection(..).add(data)\<close> is \<open>fs_add\<close>: it appends the document under a fresh id
    (the auto-ids of Firestore are random strings; here a counter, shown as its decimal
    string), and rejects a value that contains \<open>undefined\<close> or an array in an array.
  \<^item> \<open>orderBy(field, 'asc').get()\<close> is \<open>fs_order_by\<close>: the documents that have the field,
    sorted by Firestore's value order on it, ties broken by the document id.
  \<^item> \<open>where(field, '>=', lo).where(field, '<', hi).get()\<close> on a timestamp field is
    \<open>fs_where_time\<close>: the documents whose field is a timestamp in \<open>[lo, hi)\<close>, ordered by it.
  The value order (\<open>fs_key\<close>): null, booleans, numbers (\<open>NaN\<close> first), timestamps,
  strings (by code unit, which for Latin-1 is UTF-8 byte order), arrays, maps; arrays
  and maps are ranked by type only, so two of them tie and fall back to the id.
\<close>

type_synonym doc_id = nat
type_synonym doc = "(string \<times> jval) list"
type_synonym coll_path = "string \<times> string"

record store =
  st_colls :: "coll_path \<Rightarrow> (doc_id \<times> doc) list"
  st_next :: doc_id

definition store_empty :: store where
  "store_empty = \<lparr>st_colls = (\<lambda>_. []), st_next = 0\<rparr>"

definition id_str :: "doc_id \<Rightarrow> string" where
  "id_str i = nat_digits i"

text \<open>A value Firestore accepts: no \<open>undefined\<close> anywhere in it, and no array directly
  inside an array (Firestore stores an array of maps, not an array of arrays).\<close>

fun fs_storable :: "jval \<Rightarrow> bool" where
  "fs_storable JUndef \<longleftrightarrow> False"
| "fs_storable (JArray xs) \<longleftrightarrow> list_all (\<lambda>x. fs_storable x \<and> (case x of JArray _ \<Rightarrow> False | _ \<Rightarrow> True)) xs"
| "fs_storable (JObject kvs) \<longleftrightarrow> list_all (\<lambda>kv. fs_storable (snd kv)) kvs"
| "fs_storable _ \<longleftrightarrow> True"

definition doc_storable :: "doc \<Rightarrow> bool" where
  "doc_storable d \<longleftrightarrow> list_all (\<lambda>kv. fs_storable (snd kv)) d"

text \<open>The store after a document is written under the next id.\<close>

definition fs_append :: "coll_path \<Rightarrow> doc \<Rightarrow> store \<Rightarrow> store" where
  "fs_append p d s = s\<lparr>st_colls := (st_colls s)(p := st_colls s p @ [(st_next s, d)]), st_next := Suc (st_next s)\<rparr>"

definition fs_add :: "coll_path \<Rightarrow> doc \<Rightarrow> store \<Rightarrow> string + doc_id \<times> store" where
  "fs_add p d s = (if doc_storable d then Inr (st_next s, fs_append p d s)
     else Inl ''Value for argument data is not a valid Firestore document'')"

text \<open>A field of a document; as for \<open>get_prop\<close>, the last of duplicate keys.\<close>

definition doc_field :: "doc \<Rightarrow> string \<Rightarrow> jval option" where
  "doc_field d f = map_of (rev d) f"

text \<open>The rank of a number among numbers: \<open>NaN\<close>, then \<open>-Infinity\<close>, finite values, \<open>Infinity\<close>.\<close>

fun num_key :: "jnum \<Rightarrow> nat \<times> rat" where
  "num_key JNaN = (0, 0)"
| "num_key JNegInf = (1, 0)"
| "num_key (JFin q) = (2, q)"
| "num_key JPosInf = (3, 0)"

fun fs_key :: "jval \<Rightarrow> nat \<times> nat \<times> rat \<times> int \<times> string" where
  "fs_key JUndef = (0, 0, 0, 0, [])"
| "fs_key JNull = (0, 0, 0, 0, [])"
| "fs_key (JBool b) = (1, if b then 1 else 0, 0, 0, [])"
| "fs_key (JNumber n) = (2, fst (num_key n), snd (num_key n), 0, [])"
| "fs_key (JTime t) = (3, 0, 0, t, [])"
| "fs_key (JString s) = (4, 0, 0, 0, s)"
| "fs_key (JArray xs) = (5, 0, 0, 0, [])"
| "fs_key (JObject kvs) = (6, 0, 0, 0, [])"

definition doc_sort_key :: "string \<Rightarrow> doc_id \<times> doc \<Rightarrow> (nat \<times> nat \<times> rat \<times> int \<times> string) \<times> string" where
  "doc_sort_key f e = ((case doc_field (snd e) f of Some v \<Rightarrow> fs_key v | None \<Rightarrow> fs_key JNull), id_str (fst e))"

definition fs_order_by :: "coll_path \<Rightarrow> string \<Rightarrow> store \<Rightarrow> (doc_id \<times> doc) list" where
  "fs_order_by p f s = sort_key (doc_sort_key f) (filter (\<lambda>e. doc_field (snd e) f \<noteq> None) (st_colls s p))"

definition in_time_range :: "string \<Rightarrow> int \<Rightarrow> int \<Rightarrow> doc_id \<times> doc \<Rightarrow> bool" where
  "in_time_range f lo hi e \<longleftrightarrow> (case doc_field (snd e) f of Some (JTime t) \<Rightarrow> lo \<le> t \<and> t < hi | _ \<Rightarrow> False)"

definition fs_where_time :: "coll_path \<Rightarrow> string \<Rightarrow> int \<Rightarrow> int \<Rightarrow> store \<Rightarrow> (doc_id \<times> doc) list" where
  "fs_where_time p f lo hi s = sort_key (doc_sort_key f) (filter (in_time_range f lo hi) (st_colls s p))"

text \<open>Field tests for the invariants of the handlers.\<close>

definition field_truthy :: "doc \<Rightarrow> string \<Rightarrow> bool" where
  "field_truthy d f \<longleftrightarrow> (case doc_field d f of Some v \<Rightarrow> js_truthy v | None \<Rightarrow> False)"

definition field_is_time :: "doc \<Rightarrow> string \<Rightarrow> bool" where
  "field_is_time d f \<longleftrightarrow> (case doc_field d f of Some (JTime t) \<Rightarrow> True | _ \<Rightarrow> False)"

subsection \<open>Properties of the store operations\<close>

lemma fs_add_Inr: "fs_add p d s = Inr (i, s') \<longleftrightarrow> doc_storable d \<and> i = st_next s \<and> s' = fs_append p d s"
  by (auto simp: fs_add_def)

lemma fs_add_Inl: "fs_add p d s = Inl e \<Longrightarrow> \<not> doc_storable d"
  by (auto simp: fs_add_def split: if_splits)

lemma fs_append_colls [simp]:
  "st_colls (fs_append p d s) q = (if q = p then st_colls s p @ [(st_next s, d)] else st_colls s q)"
  "st_next (fs_append p d s) = Suc (st_next s)"
  by (simp_all add: fs_append_def)

lemma doc_field_get_prop: "doc_field d f = Some v \<Longrightarrow> get_prop (JObject d) f = v"
  by (simp add: doc_field_def get_prop_def)

lemma fs_order_by_sorted: "sorted (map (doc_sort_key f) (fs_order_by p f s))"
  by (simp add: fs_order_by_def)

lemma fs_order_by_mset:
  "mset (fs_order_by p f s) = mset (filter (\<lambda>e. doc_field (snd e) f \<noteq> None) (st_colls s p))"
  by (simp add: fs_order_by_def)

lemma fs_where_time_mset:
  "mset (fs_where_time p f lo hi s) = mset (filter (in_time_range f lo hi) (st_colls s p))"
  by (simp add: fs_where_time_def)

end
