(* ===== verification/Auth.thy ===== *)
theory Auth
  imports JSValue
begin

text \<open>
  src/functions/utils.js: the middleware \<open>requireAuth\<close> with \<open>verifyToken\<close>, the
  wrapper \<open>asyncHandler\<close> and the response helper \<open>ok\<close>.  A request is its headers
  (lower-case names, string values, as Node gives them), its parsed query and its
  parsed body; the process environment is a map of strings.  The Firebase call
  \<open>admin.auth().verifyIdToken(token)\<close> is a parameter \<open>verify\<close>: it either rejects with a
  message or resolves to the decoded token's \<open>uid\<close>.  An express response is its
  status and its JSON body.  The promise chain of \<open>requireAuth\<close> ends in one of two
  outcomes, \<open>next()\<close> with \<open>req.userId\<close> set, or a 401 response.
\<close>

record request =
  rq_headers :: "string \<Rightarrow> string option"
  rq_query :: jval
  rq_body :: jval

type_synonym env = "string \<Rightarrow> string option"

type_synonym verifier = "string \<Rightarrow> string + string"

record response =
  rs_status :: nat
  rs_body :: jval

datatype auth_outcome = AuthNext string | AuthRespond response

text \<open>\<open>ok(res, data)\<close>, lines 30 to 32.\<close>

definition ok :: "jval \<Rightarrow> response" where
  "ok data = \<lparr>rs_status = 200, rs_body = js_or data (JObject [(''ok'', JBool True)])\<rparr>"

text \<open>\<open>res.status(s).json({ error, detail })\<close>, the shape of every error response.\<close>

definition error_response :: "nat \<Rightarrow> string \<Rightarrow> jval \<Rightarrow> response" where
  "error_response s e detail = \<lparr>rs_status = s, rs_body = JObject [(''error'', JString e), (''detail'', detail)]\<rparr>"

text \<open>\<open>verifyToken(req)\<close>, lines 3 to 9: the rejection message or the uid.\<close>

definition bearer_token :: "request \<Rightarrow> string option" where
  "bearer_token req = (let hdr = (case rq_headers req ''authorization'' of Some h \<Rightarrow> h | None \<Rightarrow> [])
     in if prefix ''Bearer '' hdr then Some (drop 7 hdr) else None)"

definition verify_token :: "verifier \<Rightarrow> request \<Rightarrow> string + string" where
  "verify_token verify req = (case bearer_token req of
     Some token \<Rightarrow> if token = [] then Inl ''Missing Authorization header'' else verify token
   | None \<Rightarrow> Inl ''Missing Authorization header'')"

text \<open>The three ways of the demo bypass, lines 13 to 15.\<close>

definition demo_bypass :: "env \<Rightarrow> request \<Rightarrow> bool" where
  "demo_bypass env req \<longleftrightarrow>
     env ''ALLOW_UNAUTHENTICATED'' = Some ''true'' \<or>
     get_prop (rq_query req) ''demo'' = JString ''true'' \<or>
     (case rq_headers req ''x-demo'' of Some h \<Rightarrow> h \<noteq> [] \<and> to_lower_case h = ''true'' | None \<Rightarrow> False)"

text \<open>\<open>requireAuth(req, res, next)\<close>, lines 11 to 26.\<close>

definition require_auth :: "env \<Rightarrow> verifier \<Rightarrow> request \<Rightarrow> auth_outcome" where
  "require_auth env verify req =
     (if demo_bypass env req then AuthNext ''demo''
      else case verify_token verify req of
             Inr uid \<Rightarrow> AuthNext uid
           | Inl msg \<Rightarrow> AuthRespond (error_response 401 ''UNAUTHENTICATED'' (JString msg)))"

text \<open>
  \<open>asyncHandler(fn)\<close>, line 28: a handler's promise either resolves (it has sent its
  response) or rejects with an error, which goes to \<open>next(err)\<close>, express's error
  handler.
\<close>

datatype outcome = Respond response | NextError string

definition async_handler :: "string + response \<Rightarrow> outcome" where
  "async_handler r = (case r of Inl e \<Rightarrow> NextError e | Inr resp \<Rightarrow> Respond resp)"

text \<open>Two requests for the witnesses: \<open>?demo=true\<close> with no headers, and a bare \<open>Bearer \<close> prefix.\<close>

definition req_demo :: request where
  "req_demo = \<lparr>rq_headers = (\<lambda>_. None), rq_query = JObject [(''demo'', JString ''true'')], rq_body = JNull\<rparr>"

definition req_anon :: request where
  "req_anon = \<lparr>rq_headers = (\<lambda>k. if k = ''authorization'' then Some ''Bearer '' else None), rq_query = JObject [], rq_body = JNull\<rparr>"

subsection \<open>Properties of the middleware\<close>

lemma ok_object [simp]: "ok (JObject kvs) = \<lparr>rs_status = 200, rs_body = JObject kvs\<rparr>"
  by (simp add: ok_def js_or_def)

lemma prefix_drop_eq: "prefix xs ys \<Longrightarrow> ys = xs @ drop (length xs) ys"
  by (auto simp: prefix_def)

lemma bearer_token_Some:
  "bearer_token req = Some tok \<longleftrightarrow> rq_headers req ''authorization'' = Some (''Bearer '' @ tok)"
proof
  assume "bearer_token req = Some tok"
  then obtain h where h: "rq_headers req ''authorization'' = Some h" "prefix ''Bearer '' h" "tok = drop 7 h"
    by (auto simp: bearer_token_def Let_def split: option.splits if_splits)
  have l: "length ''Bearer '' = (7::nat)" by simp
  have "h = ''Bearer '' @ drop 7 h" using prefix_drop_eq [OF h(2)] unfolding l .
  then show "rq_headers req ''authorization'' = Some (''Bearer '' @ tok)" using h(1,3) by simp
next
  assume "rq_headers req ''authorization'' = Some (''Bearer '' @ tok)"
  then show "bearer_token req = Some tok" by (simp add: bearer_token_def)
qed

text \<open>C16: Without the demo bypass, a request reaches the handler only with a header
  \<open>Authorization: Bearer <token>\<close>, a non-empty token, that the verifier accepts, and
  \<open>req.userId\<close> is the uid the verifier decoded from it.\<close>

theorem require_auth_needs_token:
  assumes "\<not> demo_bypass env req" and "require_auth env verify req = AuthNext uid"
  shows "\<exists>tok. rq_headers req ''authorization'' = Some (''Bearer '' @ tok) \<and> tok \<noteq> [] \<and> verify tok = Inr uid"
proof -
  have v: "verify_token verify req = Inr uid"
    using assms by (auto simp: require_auth_def split: sum.splits)
  then obtain tok where "bearer_token req = Some tok" "tok \<noteq> []" "verify tok = Inr uid"
    by (auto simp: verify_token_def split: option.splits if_splits)
  then show ?thesis using bearer_token_Some by blast
qed

text \<open>C17: Without the demo bypass, a request with no bearer token, or with the bare
  prefix \<open>Bearer \<close>, is answered 401 with the detail \<open>Missing Authorization header\<close>,
  whatever the verifier would say.\<close>

theorem require_auth_missing_header:
  assumes "\<not> demo_bypass env req" and "bearer_token req = None \<or> bearer_token req = Some []"
  shows "require_auth env verify req =
           AuthRespond (error_response 401 ''UNAUTHENTICATED'' (JString ''Missing Authorization header''))"
  using assms by (auto simp: require_auth_def verify_token_def)

text \<open>C18: The query parameter \<open>demo=true\<close>, or a header \<open>x-demo\<close> that is \<open>true\<close> in any
  case, authenticates any request as the user \<open>demo\<close>, with no token and whatever the
  environment.\<close>

theorem require_auth_demo:
  assumes "get_prop (rq_query req) ''demo'' = JString ''true'' \<or>
           (rq_headers req ''x-demo'' = Some h \<and> to_lower_case h = ''true'')"
  shows "require_auth env verify req = AuthNext ''demo''"
proof -
  have "h \<noteq> []" if "to_lower_case h = ''true''" using that by (auto simp: to_lower_case_def)
  then have "demo_bypass env req" using assms by (auto simp: demo_bypass_def)
  then show ?thesis by (simp add: require_auth_def)
qed

theorem require_auth_needs_token_witness:
  "require_auth (\<lambda>_. None) (\<lambda>t. if t = ''tok1'' then Inr ''alice'' else Inl ''bad'')
     (req_anon\<lparr>rq_headers := (\<lambda>k. if k = ''authorization'' then Some ''Bearer tok1'' else None)\<rparr>) = AuthNext ''alice'' \<and>
   (\<exists>tok. Some ''Bearer tok1'' = Some (''Bearer '' @ tok) \<and> tok \<noteq> [] \<and>
      (if tok = ''tok1'' then Inr ''alice'' else Inl ''bad'') = (Inr ''alice'' :: string + string))"
proof -
  let ?r = "req_anon\<lparr>rq_headers := (\<lambda>k. if k = ''authorization'' then Some ''Bearer tok1'' else None)\<rparr>"
  let ?v = "\<lambda>t. if t = ''tok1'' then Inr ''alice'' else Inl ''bad''"
  have h: "\<not> demo_bypass (\<lambda>_. None) ?r" "require_auth (\<lambda>_. None) ?v ?r = AuthNext ''alice''"
    by code_simp+
  show ?thesis using h require_auth_needs_token [OF h] by simp
qed

theorem require_auth_missing_header_witness:
  "require_auth (\<lambda>_. None) (\<lambda>t. Inr ''alice'') req_anon =
     AuthRespond (error_response 401 ''UNAUTHENTICATED'' (JString ''Missing Authorization header''))"
proof -
  have h: "\<not> demo_bypass (\<lambda>_. None) req_anon" "bearer_token req_anon = None \<or> bearer_token req_anon = Some []"
    by code_simp+
  show ?thesis using require_auth_missing_header [OF h] .
qed

theorem require_auth_demo_witness:
  "require_auth (\<lambda>_. None) (\<lambda>t. Inl ''bad'') req_demo = AuthNext ''demo''"
proof -
  have h: "get_prop (rq_query req_demo) ''demo'' = JString ''true'' \<or>
           (rq_headers req_demo ''x-demo'' = Some [] \<and> to_lower_case [] = ''true'')" by code_simp
  show ?thesis using require_auth_demo [OF h] .
qed
end
