(* ===== verification/Schedule_Handlers.thy ===== *)
theory Schedule_Handlers
  imports Schedule_Parser Firestore Auth
begin

text \<open>
  The handlers \<open>add\<close> (lines 5 to 44) and \<open>list\<close> (lines 146 to 151) of
  src/functions/schedule.js over the store of \<open>Firestore\<close>.  A handler takes the
  authenticated uid (\<open>req.userId\<close>, set by \<open>requireAuth\<close>) and the request, and returns
  its promise's outcome (\<open>Inl\<close> a rejection, \<open>Inr\<close> the response sent) with the new
  store.  \<open>add\<close> reads the clock for \<open>createdAt\<close> (lines 18 and 41) once more: the
  parameter \<open>now\<close>, besides the clock \<open>parseNaturalLanguage\<close> reads.
\<close>

text \<open>\<open>const { text, title, datetime, note } = req.body || {}\<close>\<close>

definition body_fields :: "jval \<Rightarrow> string \<Rightarrow> jval" where
  "body_fields body k = get_prop (js_or body (JObject [])) k"

text \<open>The document of the free-text path, lines 14 to 19, and its response, lines 20 to 25.\<close>

definition parsed_doc :: "parsed_event \<Rightarrow> int \<Rightarrow> doc" where
  "parsed_doc pe now = [(''title'', JString (pe_title pe)), (''datetime'', JString (pe_datetime pe)),
     (''note'', case pe_note pe of Some n \<Rightarrow> JString n | None \<Rightarrow> JNull), (''createdAt'', JTime now)]"

definition parsed_reply :: "doc_id \<Rightarrow> parsed_event \<Rightarrow> jval" where
  "parsed_reply i pe = JObject [(''id'', JString (id_str i)), (''title'', JString (pe_title pe)),
     (''time'', JString (pe_datetime pe)),
     (''details'', case pe_note pe of Some n \<Rightarrow> JString n | None \<Rightarrow> JNull)]"

text \<open>
  Lines 11 to 29: \<open>parseNaturalLanguage(text)\<close> throws a TypeError when \<open>text\<close> is not a
  string (it calls \<open>text.toLowerCase()\<close>), and a RangeError when \<open>toISOString\<close> fails;
  a failing \<open>add\<close> of the store rejects too.  The \<open>catch\<close> turns each into a 400.
\<close>

definition add_from_text :: "clock \<Rightarrow> int \<Rightarrow> string \<Rightarrow> jval \<Rightarrow> store \<Rightarrow> (string + response) \<times> store" where
  "add_from_text clk now uid text st =
     (let fail = (\<lambda>msg. (Inr (error_response 400 ''Could not parse event details'' (JString msg)), st)) in
      case text of
        JString s \<Rightarrow>
          (case parse_natural_language clk s of
             None \<Rightarrow> fail ''Invalid time value''
           | Some pe \<Rightarrow>
               (case fs_add (uid, ''schedule'') (parsed_doc pe now) st of
                  Inl e \<Rightarrow> fail e
                | Inr (i, st') \<Rightarrow> (Inr (ok (parsed_reply i pe)), st')))
      | _ \<Rightarrow> fail ''text.toLowerCase is not a function'')"

text \<open>Lines 32 to 43: the explicit fields.\<close>

definition add_explicit :: "int \<Rightarrow> string \<Rightarrow> jval \<Rightarrow> jval \<Rightarrow> jval \<Rightarrow> store \<Rightarrow> (string + response) \<times> store" where
  "add_explicit now uid title datetime note st =
     (if \<not> js_truthy title \<or> \<not> js_truthy datetime then
        (Inr (\<lparr>rs_status = 400, rs_body = JObject [(''error'',
           JString (''title and datetime required (or provide '' @ [CHR 0x22] @ ''text'' @ [CHR 0x22]
             @ '' for natural language)''))]\<rparr>), st)
      else case fs_add (uid, ''schedule'')
                 [(''title'', title), (''datetime'', datetime), (''note'', js_or note JNull), (''createdAt'', JTime now)] st of
             Inl e \<Rightarrow> (Inl e, st)
           | Inr (i, st') \<Rightarrow> (Inr (ok (JObject [(''id'', JString (id_str i)), (''title'', title),
                               (''time'', datetime), (''details'', note)])), st'))"

text \<open>\<open>add(req, res)\<close>, lines 5 to 44.\<close>

definition schedule_add :: "clock \<Rightarrow> int \<Rightarrow> string \<Rightarrow> jval \<Rightarrow> store \<Rightarrow> (string + response) \<times> store" where
  "schedule_add clk now uid body st =
     (let text = body_fields body ''text''; title = body_fields body ''title'';
          datetime = body_fields body ''datetime''; note = body_fields body ''note''
      in if js_truthy text \<and> \<not> js_truthy title \<and> \<not> js_truthy datetime
         then add_from_text clk now uid text st
         else add_explicit now uid title datetime note st)"

text \<open>\<open>list(req, res)\<close>, lines 146 to 151: \<open>{ id: d.id, ...d.data() }\<close> for each document.\<close>

definition list_entry :: "doc_id \<times> doc \<Rightarrow> jval" where
  "list_entry e = JObject ((''id'', JString (id_str (fst e))) # snd e)"

definition schedule_list :: "string \<Rightarrow> store \<Rightarrow> string + response" where
  "schedule_list uid st = Inr (ok (JArray (map list_entry (fs_order_by (uid, ''schedule'') ''datetime'' st))))"

text \<open>A schedule document as the invariant of the store needs it: storable, a truthy title and datetime, a timestamp \<open>createdAt\<close>.\<close>

definition sched_doc_ok :: "doc \<Rightarrow> bool" where
  "sched_doc_ok d \<longleftrightarrow> doc_storable d \<and> field_truthy d ''title'' \<and> field_truthy d ''datetime'' \<and>
     field_is_time d ''createdAt''"

subsection \<open>Properties of the handlers\<close>

lemma parsed_doc_ok: "pe_title pe \<noteq> [] \<Longrightarrow> pe_datetime pe \<noteq> [] \<Longrightarrow> sched_doc_ok (parsed_doc pe now)"
  by (simp add: sched_doc_ok_def parsed_doc_def doc_storable_def field_truthy_def field_is_time_def
      doc_field_def split: option.split)

lemma to_iso_string_nonempty: "to_iso_string tv = Some d \<Longrightarrow> d \<noteq> []"
  by (auto simp: to_iso_string_def split: option.splits)

lemma add_from_text_effect:
  assumes "js_truthy text"
  shows "(snd (add_from_text clk now uid text st) = st \<and> (\<forall>r. fst (add_from_text clk now uid text st) = Inr r \<longrightarrow> rs_status r = 400)) \<or>
         (\<exists>d. snd (add_from_text clk now uid text st) = fs_append (uid, ''schedule'') d st \<and> sched_doc_ok d)"
proof (cases "\<exists>s. text = JString s")
  case True
  then obtain s where s: "text = JString s" by blast
  with assms have "s \<noteq> []" by simp
  obtain dt where dt: "to_iso_string (target_time clk s) = Some dt"
      "parse_natural_language clk s = Some \<lparr>pe_title = extract_title s, pe_datetime = dt, pe_note = extract_note s\<rparr>"
    using parse_natural_language_event by blast
  let ?pe = "\<lparr>pe_title = extract_title s, pe_datetime = dt, pe_note = extract_note s\<rparr>"
  have ok: "sched_doc_ok (parsed_doc ?pe now)"
    using \<open>s \<noteq> []\<close> to_iso_string_nonempty [OF dt(1)] by (intro parsed_doc_ok) (simp_all add: extract_title_Nil_iff)
  then have "fs_add (uid, ''schedule'') (parsed_doc ?pe now) st = Inr (st_next st, fs_append (uid, ''schedule'') (parsed_doc ?pe now) st)"
    by (simp add: fs_add_def sched_doc_ok_def)
  then show ?thesis using s dt(2) ok by (auto simp: add_from_text_def)
next
  case False
  then have "snd (add_from_text clk now uid text st) = st \<and> (\<forall>r. fst (add_from_text clk now uid text st) = Inr r \<longrightarrow> rs_status r = 400)"
    by (cases "text") (auto simp: add_from_text_def error_response_def)
  then show ?thesis by simp
qed

lemma add_explicit_effect:
  "(snd (add_explicit now uid title datetime note st) = st \<and> (\<forall>r. fst (add_explicit now uid title datetime note st) = Inr r \<longrightarrow> rs_status r = 400)) \<or>
   (\<exists>d. snd (add_explicit now uid title datetime note st) = fs_append (uid, ''schedule'') d st \<and> sched_doc_ok d)"
proof -
  let ?d = "[(''title'', title), (''datetime'', datetime), (''note'', js_or note JNull), (''createdAt'', JTime now)]"
  show ?thesis
  proof (cases "js_truthy title \<and> js_truthy datetime \<and> doc_storable ?d")
    case True
    then have "fs_add (uid, ''schedule'') ?d st = Inr (st_next st, fs_append (uid, ''schedule'') ?d st)"
      by (simp add: fs_add_def)
    then have "snd (add_explicit now uid title datetime note st) = fs_append (uid, ''schedule'') ?d st"
      using True by (simp add: add_explicit_def)
    moreover have "sched_doc_ok ?d"
      using True by (simp add: sched_doc_ok_def field_truthy_def field_is_time_def doc_field_def)
    ultimately show ?thesis by blast
  next
    case False
    then have "snd (add_explicit now uid title datetime note st) = st \<and> (\<forall>r. fst (add_explicit now uid title datetime note st) = Inr r \<longrightarrow> rs_status r = 400)"
      by (auto simp: add_explicit_def fs_add_def)
    then show ?thesis by simp
  qed
qed

lemma schedule_add_effect:
  "(snd (schedule_add clk now uid body st) = st \<and> (\<forall>r. fst (schedule_add clk now uid body st) = Inr r \<longrightarrow> rs_status r = 400)) \<or>
   (\<exists>d. snd (schedule_add clk now uid body st) = fs_append (uid, ''schedule'') d st \<and> sched_doc_ok d)"
  using add_from_text_effect add_explicit_effect by (simp add: schedule_add_def Let_def)

lemma parsed_doc_storable: "doc_storable (parsed_doc pe now)"
  by (simp add: parsed_doc_def doc_storable_def split: option.split)

text \<open>C19: A free-text request (a non-empty string \<open>text\<close>, no title, no datetime) is answered 200 with \<open>{ id, title, time, details }\<close>: the next id, the parser's title, the ISO string of the target time and the note (\<open>null\<close> when there is none); and the store gains exactly one document in \<open>users/{uid}/schedule\<close>, with the fields \<open>title\<close>, \<open>datetime\<close>, \<open>note\<close> and \<open>createdAt\<close> holding the same title, ISO string and note and the clock's timestamp (lines 11 to 25).\<close>

theorem schedule_add_text:
  assumes "body_fields body ''text'' = JString s" and "s \<noteq> []"
    and "\<not> js_truthy (body_fields body ''title'')" and "\<not> js_truthy (body_fields body ''datetime'')"
  shows "\<exists>dt. to_iso_string (target_time clk s) = Some dt \<and>
    schedule_add clk now uid body st =
      (Inr \<lparr>rs_status = 200, rs_body = JObject [(''id'', JString (id_str (st_next st))),
          (''title'', JString (extract_title s)), (''time'', JString dt),
          (''details'', case extract_note s of Some n \<Rightarrow> JString n | None \<Rightarrow> JNull)]\<rparr>,
       fs_append (uid, ''schedule'') [(''title'', JString (extract_title s)), (''datetime'', JString dt),
          (''note'', case extract_note s of Some n \<Rightarrow> JString n | None \<Rightarrow> JNull), (''createdAt'', JTime now)] st)"
proof -
  obtain dt where dt: "to_iso_string (target_time clk s) = Some dt"
      "parse_natural_language clk s = Some \<lparr>pe_title = extract_title s, pe_datetime = dt, pe_note = extract_note s\<rparr>"
    using parse_natural_language_event by blast
  let ?pe = "\<lparr>pe_title = extract_title s, pe_datetime = dt, pe_note = extract_note s\<rparr>"
  have "fs_add (uid, ''schedule'') (parsed_doc ?pe now) st = Inr (st_next st, fs_append (uid, ''schedule'') (parsed_doc ?pe now) st)"
    using parsed_doc_storable by (simp add: fs_add_def)
  then have "schedule_add clk now uid body st = (Inr (ok (parsed_reply (st_next st) ?pe)), fs_append (uid, ''schedule'') (parsed_doc ?pe now) st)"
    using assms dt(2) by (simp add: schedule_add_def add_from_text_def)
  then show ?thesis using dt(1) by (simp add: parsed_doc_def parsed_reply_def)
qed

text \<open>C20: A truthy \<open>text\<close> that is not a string (a number, an array, an object) makes \<open>text.toLowerCase\<close> throw; the request is answered 400 and the store is unchanged.\<close>

theorem schedule_add_non_string_text:
  assumes "js_truthy (body_fields body ''text'')" and "\<forall>s. body_fields body ''text'' \<noteq> JString s"
    and "\<not> js_truthy (body_fields body ''title'')" and "\<not> js_truthy (body_fields body ''datetime'')"
  shows "schedule_add clk now uid body st =
    (Inr (error_response 400 ''Could not parse event details'' (JString ''text.toLowerCase is not a function'')), st)"
  using assms by (cases "body_fields body ''text''") (simp_all add: schedule_add_def add_from_text_def)

text \<open>C21: A request that is neither a free-text request nor has both a title and a datetime is answered 400, and the store is unchanged.\<close>

theorem schedule_add_missing_fields:
  assumes "\<not> js_truthy (body_fields body ''title'') \<or> \<not> js_truthy (body_fields body ''datetime'')"
    and "\<not> js_truthy (body_fields body ''text'') \<or> js_truthy (body_fields body ''title'') \<or> js_truthy (body_fields body ''datetime'')"
  shows "\<exists>r. schedule_add clk now uid body st = (Inr r, st) \<and> rs_status r = 400"
  using assms by (auto simp: schedule_add_def add_explicit_def)

text \<open>C22: \<open>list\<close> answers with exactly the user's schedule documents that have a datetime (a permutation of them), sorted by Firestore's order on the datetime and then by id.\<close>

theorem schedule_list_sorted_perm:
  "\<exists>es. schedule_list uid st = Inr (ok (JArray (map list_entry es))) \<and>
     sorted (map (doc_sort_key ''datetime'') es) \<and>
     mset es = mset (filter (\<lambda>e. doc_field (snd e) ''datetime'' \<noteq> None) (st_colls st (uid, ''schedule'')))"
  unfolding schedule_list_def
  by (intro exI [of _ "fs_order_by (uid, ''schedule'') ''datetime'' st"] conjI refl fs_order_by_sorted fs_order_by_mset)

text \<open>C23: After an \<open>add\<close> answered 200, \<open>list\<close> for the same user returns the new document under the id it was given.\<close>

theorem schedule_add_then_list:
  assumes "schedule_add clk now uid body st = (Inr r, st')" and "rs_status r = 200"
  shows "\<exists>d xs. schedule_list uid st' = Inr (ok (JArray xs)) \<and> list_entry (st_next st, d) \<in> set xs \<and> sched_doc_ok d"
proof -
  obtain d where d: "st' = fs_append (uid, ''schedule'') d st" "sched_doc_ok d"
    using schedule_add_effect [of clk now uid body st] assms by auto
  then have "doc_field d ''datetime'' \<noteq> None" by (auto simp: sched_doc_ok_def field_truthy_def split: option.splits)
  then have "(st_next st, d) \<in> set (fs_order_by (uid, ''schedule'') ''datetime'' st')"
    using d(1) by (simp add: fs_order_by_def)
  then have "list_entry (st_next st, d) \<in> set (map list_entry (fs_order_by (uid, ''schedule'') ''datetime'' st'))"
    by simp
  then show ?thesis using d(2) unfolding schedule_list_def by blast
qed

theorem schedule_add_text_witness:
  "\<exists>dt. to_iso_string (target_time clk_ref ''lunch tomorrow at 1pm'') = Some dt \<and>
    schedule_add clk_ref 5 ''u'' (JObject [(''text'', JString ''lunch tomorrow at 1pm'')]) store_empty =
      (Inr \<lparr>rs_status = 200, rs_body = JObject [(''id'', JString (id_str (st_next store_empty))),
          (''title'', JString (extract_title ''lunch tomorrow at 1pm'')), (''time'', JString dt),
          (''details'', case extract_note ''lunch tomorrow at 1pm'' of Some n \<Rightarrow> JString n | None \<Rightarrow> JNull)]\<rparr>,
       fs_append (''u'', ''schedule'') [(''title'', JString (extract_title ''lunch tomorrow at 1pm'')), (''datetime'', JString dt),
          (''note'', case extract_note ''lunch tomorrow at 1pm'' of Some n \<Rightarrow> JString n | None \<Rightarrow> JNull),
          (''createdAt'', JTime 5)] store_empty)"
proof -
  have h: "body_fields (JObject [(''text'', JString ''lunch tomorrow at 1pm'')]) ''text'' = JString ''lunch tomorrow at 1pm''"
    "''lunch tomorrow at 1pm'' \<noteq> []"
    "\<not> js_truthy (body_fields (JObject [(''text'', JString ''lunch tomorrow at 1pm'')]) ''title'')"
    "\<not> js_truthy (body_fields (JObject [(''text'', JString ''lunch tomorrow at 1pm'')]) ''datetime'')"
    by code_simp+
  show ?thesis using schedule_add_text [OF h] .
qed

theorem schedule_add_non_string_text_witness:
  "schedule_add clk_ref 5 ''u'' (JObject [(''text'', JNumber (JFin 5))]) store_empty =
    (Inr (error_response 400 ''Could not parse event details'' (JString ''text.toLowerCase is not a function'')), store_empty)"
proof -
  have t: "body_fields (JObject [(''text'', JNumber (JFin 5))]) ''text'' = JNumber (JFin 5)" by code_simp
  have h: "js_truthy (body_fields (JObject [(''text'', JNumber (JFin 5))]) ''text'')"
    "\<forall>s. body_fields (JObject [(''text'', JNumber (JFin 5))]) ''text'' \<noteq> JString s"
    "\<not> js_truthy (body_fields (JObject [(''text'', JNumber (JFin 5))]) ''title'')"
    "\<not> js_truthy (body_fields (JObject [(''text'', JNumber (JFin 5))]) ''datetime'')"
    using t by (simp_all, code_simp+)
  show ?thesis using schedule_add_non_string_text [OF h] .
qed

theorem schedule_add_missing_fields_witness:
  "\<exists>r. schedule_add clk_ref 5 ''u'' (JObject [(''title'', JString ''standup'')]) store_empty = (Inr r, store_empty) \<and> rs_status r = 400"
proof -
  have h: "\<not> js_truthy (body_fields (JObject [(''title'', JString ''standup'')]) ''title'') \<or>
      \<not> js_truthy (body_fields (JObject [(''title'', JString ''standup'')]) ''datetime'')"
    "\<not> js_truthy (body_fields (JObject [(''title'', JString ''standup'')]) ''text'') \<or>
      js_truthy (body_fields (JObject [(''title'', JString ''standup'')]) ''title'') \<or>
      js_truthy (body_fields (JObject [(''title'', JString ''standup'')]) ''datetime'')"
    by code_simp+
  show ?thesis using schedule_add_missing_fields [OF h] .
qed

theorem schedule_add_then_list_witness:
  "\<exists>r st'. schedule_add clk_ref 5 ''u'' (JObject [(''text'', JString ''call at 6'')]) store_empty = (Inr r, st') \<and>
     rs_status r = 200 \<and>
     (\<exists>d xs. schedule_list ''u'' st' = Inr (ok (JArray xs)) \<and> list_entry (st_next store_empty, d) \<in> set xs \<and> sched_doc_ok d)"
proof -
  have "case schedule_add clk_ref 5 ''u'' (JObject [(''text'', JString ''call at 6'')]) store_empty of
          (Inr r, st') \<Rightarrow> rs_status r = 200 | _ \<Rightarrow> False" by code_simp
  then obtain r st' where h: "schedule_add clk_ref 5 ''u'' (JObject [(''text'', JString ''call at 6'')]) store_empty = (Inr r, st')"
      "rs_status r = 200"
    by (auto split: prod.splits sum.splits)
  show ?thesis using h schedule_add_then_list [OF h] by blast
qed
end
