(* ===== verification/Expense.thy ===== *)
theory Expense
  imports Firestore Auth
begin

text \<open>
  src/functions/expense.js: \<open>add\<close> (lines 5 to 17), \<open>computeMonthly\<close> (lines 19 to
  37) and \<open>monthly\<close> (lines 39 to 46), over the collection \<open>users/{uid}/expenses\<close> of
  the store.  \<open>serverTimestamp()\<close> is the time the server commits the write, the
  parameter \<open>now\<close>; \<open>monthly\<close> reads the clock twice (lines 42 and 43), the parameters
  \<open>now_y\<close> and \<open>now_m\<close>.  \<open>Timestamp.fromDate\<close> throws for an invalid date and for one
  outside the years 1 to 9999, the range of a Firestore timestamp.
\<close>

definition expense_doc :: "jval \<Rightarrow> jval \<Rightarrow> jval \<Rightarrow> jval \<Rightarrow> int \<Rightarrow> doc" where
  "expense_doc amount category note imageUrl now =
     [(''amount'', JNumber (to_number amount)), (''category'', category), (''note'', js_or note JNull),
      (''imageUrl'', js_or imageUrl JNull), (''createdAt'', JTime now)]"

text \<open>\<open>add(req, res)\<close>, lines 5 to 17.\<close>

definition expense_add :: "int \<Rightarrow> string \<Rightarrow> jval \<Rightarrow> store \<Rightarrow> (string + response) \<times> store" where
  "expense_add now uid body st =
     (let b = js_or body (JObject []); amount = get_prop b ''amount''; category = get_prop b ''category'';
          note = get_prop b ''note''; imageUrl = get_prop b ''imageUrl''
      in if loose_null amount \<or> \<not> js_truthy category then
           (Inr \<lparr>rs_status = 400, rs_body = JObject [(''error'', JString ''amount and category required'')]\<rparr>, st)
         else case fs_add (uid, ''expenses'') (expense_doc amount category note imageUrl now) st of
                Inl e \<Rightarrow> (Inl e, st)
              | Inr (i, st') \<Rightarrow> (Inr (ok (JObject [(''id'', JString (id_str i))])), st'))"

text \<open>\<open>Timestamp.fromDate(d)\<close>: milliseconds between 0001-01-01 and 10000-01-01, else it throws.\<close>

definition ts_from_date :: "time_value \<Rightarrow> string + int" where
  "ts_from_date tv = (case tv of
     None \<Rightarrow> Inl ''Value for argument seconds is not a valid integer''
   | Some t \<Rightarrow> if -62135596800000 \<le> t \<and> t < 253402300800000 then Inr t
               else Inl ''Value for argument seconds must be within [-62135596800, 253402300799] inclusive'')"

text \<open>\<open>new Date(year, month - 1, 1)\<close> and \<open>new Date(year, month, 1)\<close>, lines 20 and 21.\<close>

definition month_start_time :: "jnum \<Rightarrow> jnum \<Rightarrow> time_value" where
  "month_start_time year month =
     date_from_fields (date_arg year) (date_arg month) (Some 1) (Some 0) (Some 0) (Some 0) (Some 0)"

text \<open>\<open>Number(e.amount || 0)\<close>, lines 33 and 34.\<close>

definition amount_of :: "doc \<Rightarrow> jnum" where
  "amount_of d = to_number (js_or (get_prop (JObject d) ''amount'') (JNumber (JFin 0)))"

definition is_company :: "doc \<Rightarrow> bool" where
  "is_company d \<longleftrightarrow> get_prop (JObject d) ''category'' = JString ''company''"

text \<open>The loop of lines 31 to 35: the running \<open>(personal, company)\<close>.\<close>

fun sum_expenses :: "jnum \<times> jnum \<Rightarrow> (doc_id \<times> doc) list \<Rightarrow> jnum \<times> jnum" where
  "sum_expenses acc [] = acc"
| "sum_expenses (p, c) (e # es) =
     sum_expenses (if is_company (snd e) then (p, jn_add c (amount_of (snd e)))
                   else (jn_add p (amount_of (snd e)), c)) es"

definition totals_json :: "jnum \<times> jnum \<Rightarrow> jval" where
  "totals_json pc = JObject [(''personal'', JNumber (fst pc)), (''company'', JNumber (snd pc)),
     (''total'', JNumber (jn_add (fst pc) (snd pc)))]"

text \<open>\<open>computeMonthly(uid, year, month)\<close>, lines 19 to 37.\<close>

definition compute_monthly :: "string \<Rightarrow> jnum \<Rightarrow> jnum \<Rightarrow> store \<Rightarrow> string + jval" where
  "compute_monthly uid year month st =
     (case ts_from_date (month_start_time year (jn_sub month (JFin 1))) of
        Inl e \<Rightarrow> Inl e
      | Inr lo \<Rightarrow>
          (case ts_from_date (month_start_time year month) of
             Inl e \<Rightarrow> Inl e
           | Inr hi \<Rightarrow>
               Inr (totals_json (sum_expenses (JFin 0, JFin 0)
                      (fs_where_time (uid, ''expenses'') ''createdAt'' lo hi st)))))"



text \<open>The totals as a reference: the sum of the amounts of the non-company documents and of the company ones.\<close>

definition expense_totals :: "(doc_id \<times> doc) list \<Rightarrow> jnum \<times> jnum" where
  "expense_totals es = (jn_sum (map (amount_of \<circ> snd) (filter (\<lambda>e. \<not> is_company (snd e)) es)),
                        jn_sum (map (amount_of \<circ> snd) (filter (\<lambda>e. is_company (snd e)) es)))"

text \<open>An expense document as the invariant of the store needs it: storable, a number amount, a truthy category, a timestamp \<open>createdAt\<close>.\<close>

definition exp_doc_ok :: "doc \<Rightarrow> bool" where
  "exp_doc_ok d \<longleftrightarrow> doc_storable d \<and> (case doc_field d ''amount'' of Some (JNumber n) \<Rightarrow> True | _ \<Rightarrow> False) \<and>
     field_truthy d ''category'' \<and> field_is_time d ''createdAt''"

text \<open>The value of a finite amount, as a rational (0 for the others), to state the totals.\<close>

definition amount_rat :: "doc \<Rightarrow> rat" where
  "amount_rat d = (case amount_of d of JFin q \<Rightarrow> q | _ \<Rightarrow> 0)"

subsection \<open>Properties of the expense handlers\<close>

lemma expense_add_effect:
  "snd (expense_add now uid body st) = st \<or>
   (\<exists>d. snd (expense_add now uid body st) = fs_append (uid, ''expenses'') d st \<and> exp_doc_ok d)"
proof -
  let ?b = "js_or body (JObject [])"
  let ?d = "expense_doc (get_prop ?b ''amount'') (get_prop ?b ''category'') (get_prop ?b ''note'') (get_prop ?b ''imageUrl'') now"
  show ?thesis
  proof (cases "\<not> loose_null (get_prop ?b ''amount'') \<and> js_truthy (get_prop ?b ''category'') \<and> doc_storable ?d")
    case True
    then have "snd (expense_add now uid body st) = fs_append (uid, ''expenses'') ?d st"
      by (simp add: expense_add_def fs_add_def Let_def)
    moreover have "exp_doc_ok ?d"
      using True by (simp add: exp_doc_ok_def expense_doc_def field_truthy_def field_is_time_def doc_field_def)
    ultimately show ?thesis by blast
  next
    case False
    then have "snd (expense_add now uid body st) = st"
      by (auto simp: expense_add_def fs_add_def Let_def)
    then show ?thesis by simp
  qed
qed

lemma exp_doc_amount:
  "exp_doc_ok d \<Longrightarrow> \<exists>n. doc_field d ''amount'' = Some (JNumber n) \<and> amount_of d = (if jn_truthy n then n else JFin 0)"
proof -
  assume "exp_doc_ok d"
  then obtain n where n: "doc_field d ''amount'' = Some (JNumber n)"
    by (auto simp: exp_doc_ok_def split: option.splits jval.splits)
  then have "get_prop (JObject d) ''amount'' = JNumber n" by (rule doc_field_get_prop)
  then show ?thesis using n by (simp add: amount_of_def js_or_def)
qed

lemma sum_expenses_totals:
  "sum_expenses acc es = (jn_add (fst acc) (fst (expense_totals es)), jn_add (snd acc) (snd (expense_totals es)))"
proof (induction acc es rule: sum_expenses.induct)
  case (1 acc) then show ?case by (simp add: expense_totals_def)
next
  case (2 p c e es)
  then show ?case by (simp add: expense_totals_def jn_add_assoc)
qed

lemma mset_map_filter_eq: "mset es = mset es' \<Longrightarrow> mset (map f (filter P es)) = mset (map f (filter P es'))"
  by (simp add: mset_filter)

lemma expense_totals_perm:
  assumes "mset es = mset es'"
  shows "expense_totals es = expense_totals es'"
proof -
  have "jn_sum (map (amount_of \<circ> snd) (filter (\<lambda>e. \<not> is_company (snd e)) es)) =
        jn_sum (map (amount_of \<circ> snd) (filter (\<lambda>e. \<not> is_company (snd e)) es'))"
    by (rule jn_sum_perm [OF mset_map_filter_eq [OF assms]])
  moreover have "jn_sum (map (amount_of \<circ> snd) (filter (\<lambda>e. is_company (snd e)) es)) =
        jn_sum (map (amount_of \<circ> snd) (filter (\<lambda>e. is_company (snd e)) es'))"
    by (rule jn_sum_perm [OF mset_map_filter_eq [OF assms]])
  ultimately show ?thesis by (simp add: expense_totals_def)
qed

lemma month_start_time_eq:
  assumes "\<not> (0 \<le> y \<and> y \<le> 99)" "0 \<le> k" "k \<le> 12"
  shows "month_start_time (JFin (of_int y)) (JFin (of_int k)) =
           time_clip (Some ((day_from_year y + month_start (days_in_year y = 366) k) * msPerDay))"
proof (cases "k = 12")
  case True
  have "day_from_year (y + 1) = day_from_year y + month_start (days_in_year y = 366) 12"
    using day_from_year_succ [of y] month_start_year_end [of y] by simp
  then show ?thesis using assms True
    by (simp add: month_start_time_def date_from_fields_def make_day_def make_date_def make_time_def ms_consts)
next
  case False
  then have "k div 12 = 0" "k mod 12 = k" using assms by simp_all
  then show ?thesis using assms
    by (simp add: month_start_time_def date_from_fields_def make_day_def make_date_def make_time_def ms_consts)
qed

lemma jn_sum_int_amounts:
  "list_all (\<lambda>e. \<exists>k::int. amount_of (snd e) = JFin (of_int k)) es \<Longrightarrow>
     jn_sum (map (amount_of \<circ> snd) es) = JFin (sum_list (map (amount_rat \<circ> snd) es))"
  by (induction es) (auto simp: amount_rat_def)

lemma sum_list_filter_split:
  "sum_list (map f (filter (\<lambda>x. \<not> P x) xs)) + sum_list (map f (filter P xs)) = sum_list (map f xs)"
  for f :: "'a \<Rightarrow> 'b::comm_monoid_add"
  by (induction xs) (simp_all add: algebra_simps)

lemma int_amounts_intro:
  "map (amount_of \<circ> snd) es = map (\<lambda>k. JFin (of_int k)) ks \<Longrightarrow>
     list_all (\<lambda>e. \<exists>k::int. amount_of (snd e) = JFin (of_int k)) es"
proof (induction es arbitrary: ks)
  case (Cons e es)
  then show ?case by (cases ks) auto
qed simp

lemma compute_monthly_reference:
  assumes "ts_from_date (month_start_time year (jn_sub month (JFin 1))) = Inr lo"
    and "ts_from_date (month_start_time year month) = Inr hi"
  shows "compute_monthly uid year month st =
           Inr (totals_json (expense_totals (filter (in_time_range ''createdAt'' lo hi) (st_colls st (uid, ''expenses'')))))"
proof -
  have "expense_totals (fs_where_time (uid, ''expenses'') ''createdAt'' lo hi st) =
        expense_totals (filter (in_time_range ''createdAt'' lo hi) (st_colls st (uid, ''expenses'')))"
    by (rule expense_totals_perm) (simp add: fs_where_time_mset)
  then show ?thesis using assms by (simp add: compute_monthly_def sum_expenses_totals)
qed

text \<open>C24: \<open>add\<close> with an amount that is \<open>null\<close> or missing, or a falsy category, is answered 400 and the store is unchanged.\<close>

theorem expense_add_rejects:
  assumes "loose_null (get_prop body ''amount'') \<or> \<not> js_truthy (get_prop body ''category'')"
  shows "expense_add now uid body st =
    (Inr \<lparr>rs_status = 400, rs_body = JObject [(''error'', JString ''amount and category required'')]\<rparr>, st)"
  using assms by (simp add: expense_add_def get_prop_or_empty Let_def)

text \<open>C25: \<open>add\<close> with an amount that is not \<open>null\<close> and a truthy category (each field a value Firestore accepts) is answered 200 with the next id, and stores under that id the document \<open>{ amount: Number(amount), category, note: note || null, imageUrl: imageUrl || null, createdAt }\<close> with the server time (lines 7 to 15).\<close>

theorem expense_add_stores:
  assumes "\<not> loose_null (get_prop body ''amount'')" and "js_truthy (get_prop body ''category'')"
    and "fs_storable (get_prop body ''category'')" and "fs_storable (js_or (get_prop body ''note'') JNull)"
    and "fs_storable (js_or (get_prop body ''imageUrl'') JNull)"
  shows "expense_add now uid body st =
    (Inr \<lparr>rs_status = 200, rs_body = JObject [(''id'', JString (id_str (st_next st)))]\<rparr>,
     fs_append (uid, ''expenses'') [(''amount'', JNumber (to_number (get_prop body ''amount''))),
       (''category'', get_prop body ''category''), (''note'', js_or (get_prop body ''note'') JNull),
       (''imageUrl'', js_or (get_prop body ''imageUrl'') JNull), (''createdAt'', JTime now)] st)"
  using assms
  by (simp add: expense_add_def get_prop_or_empty Let_def fs_add_def expense_doc_def doc_storable_def ok_object)

text \<open>C26: When both bounds are valid timestamps and the amounts of the user's expenses created in \<open>[start, end)\<close> are integers whose absolute values add up to at most \<open>2^53\<close> (where every addition of doubles is exact, so the model's rational sums are the program's), \<open>computeMonthly\<close> returns as \<open>personal\<close> the sum of the non-company amounts of exactly those expenses, as \<open>company\<close> the sum of the company ones, and as \<open>total\<close> the sum of all of them, whatever order the query returns them in.\<close>

theorem compute_monthly_totals:
  assumes "ts_from_date (month_start_time year (jn_sub month (JFin 1))) = Inr lo"
    and "ts_from_date (month_start_time year month) = Inr hi"
    and "W = filter (in_time_range ''createdAt'' lo hi) (st_colls st (uid, ''expenses''))"
    and "list_all (\<lambda>e. \<exists>k::int. amount_of (snd e) = JFin (of_int k)) W"
    and "sum_list (map (\<lambda>e. \<bar>amount_rat (snd e)\<bar>) W) \<le> 2 ^ 53"
  shows "compute_monthly uid year month st =
           Inr (JObject [(''personal'', JNumber (JFin (sum_list (map (amount_rat \<circ> snd) (filter (\<lambda>e. \<not> is_company (snd e)) W))))),
                         (''company'', JNumber (JFin (sum_list (map (amount_rat \<circ> snd) (filter (\<lambda>e. is_company (snd e)) W))))),
                         (''total'', JNumber (JFin (sum_list (map (amount_rat \<circ> snd) W))))])"
proof -
  have p: "jn_sum (map (amount_of \<circ> snd) (filter (\<lambda>e. \<not> is_company (snd e)) W)) =
             JFin (sum_list (map (amount_rat \<circ> snd) (filter (\<lambda>e. \<not> is_company (snd e)) W)))"
    using assms(4) by (intro jn_sum_int_amounts) (simp add: list_all_iff)
  have c: "jn_sum (map (amount_of \<circ> snd) (filter (\<lambda>e. is_company (snd e)) W)) =
             JFin (sum_list (map (amount_rat \<circ> snd) (filter (\<lambda>e. is_company (snd e)) W)))"
    using assms(4) by (intro jn_sum_int_amounts) (simp add: list_all_iff)
  have "compute_monthly uid year month st = Inr (totals_json (expense_totals W))"
    using compute_monthly_reference [OF assms(1,2)] assms(3) by simp
  then show ?thesis
    using p c sum_list_filter_split [of "amount_rat \<circ> snd" "\<lambda>e. is_company (snd e)" W]
    by (simp add: totals_json_def expense_totals_def)
qed

text \<open>C27: For a month from 1 to 12 of a year outside 0 to 99, the window \<open>[start, end)\<close> of \<open>computeMonthly\<close> holds exactly the time values in that calendar month of that year.\<close>

theorem compute_monthly_window:
  assumes y: "\<not> (0 \<le> y \<and> y \<le> 99)" and m: "1 \<le> m" "m \<le> 12"
    and lo: "month_start_time (JFin (of_int y)) (jn_sub (JFin (of_int m)) (JFin 1)) = Some lo"
    and hi: "month_start_time (JFin (of_int y)) (JFin (of_int m)) = Some hi"
  shows "lo \<le> t \<and> t < hi \<longleftrightarrow> year_from_time t = y \<and> month_from_time t = m - 1"
proof -
  let ?L = "days_in_year y = 366"
  let ?A = "day_from_year y + month_start ?L (m - 1)" and ?B = "day_from_year y + month_start ?L m"
  have "jn_sub (JFin (of_int m)) (JFin 1) = JFin (of_int (m - 1))" by (simp add: jn_sub_def)
  then have "time_clip (Some (?A * msPerDay)) = Some lo"
    using lo month_start_time_eq [OF y, of "m - 1"] m by simp
  then have lo': "lo = ?A * msPerDay" by (simp add: time_clip_def split: if_splits)
  have "time_clip (Some (?B * msPerDay)) = Some hi" using hi month_start_time_eq [OF y, of m] m by simp
  then have hi': "hi = ?B * msPerDay" by (simp add: time_clip_def split: if_splits)
  have win: "lo \<le> t \<and> t < hi \<longleftrightarrow> ?A \<le> js_day t \<and> js_day t < ?B"
    unfolding lo' hi' day_mult_le_iff day_mult_less_iff ..
  have b: "0 \<le> month_start ?L (m - 1)" "month_start ?L m \<le> days_in_year y"
    using month_start_mono [of 0 "m - 1" ?L] month_start_mono [of m 12 ?L] month_start_year_end [of y] m
    by (simp_all add: month_start_def)
  show ?thesis
  proof
    assume "lo \<le> t \<and> t < hi"
    then have d: "?A \<le> js_day t" "js_day t < ?B" using win by simp_all
    then have yr: "year_from_time t = y"
      using b day_from_year_succ [of y] by (simp add: year_from_time_eq_iff)
    then have "in_leap_year t = ?L" by (simp add: in_leap_year_def)
    then show "year_from_time t = y \<and> month_from_time t = m - 1"
      using yr d m month_from_time_eq_iff [of "m - 1" t] by (simp add: day_within_year_def)
  next
    assume a: "year_from_time t = y \<and> month_from_time t = m - 1"
    then have "in_leap_year t = ?L" by (simp add: in_leap_year_def)
    then have "month_start ?L (m - 1) \<le> day_within_year t \<and> day_within_year t < month_start ?L m"
      using a m month_from_time_eq_iff [of "m - 1" t] by simp
    then show "lo \<le> t \<and> t < hi" using win a by (simp add: day_within_year_def)
  qed
qed


text \<open>C29: Two personal amounts \<open>Infinity\<close> and \<open>-Infinity\<close> among the user's expenses of the month (amounts \<open>add\<close> accepts, as \<open>Number('Infinity')\<close>) make \<open>computeMonthly\<close> return \<open>NaN\<close> as the personal total and as the total, in whatever order they are added.\<close>

theorem compute_monthly_opposite_infinities:
  assumes "ts_from_date (month_start_time year (jn_sub month (JFin 1))) = Inr lo"
    and "ts_from_date (month_start_time year month) = Inr hi"
    and "W = filter (in_time_range ''createdAt'' lo hi) (st_colls st (uid, ''expenses''))"
    and "JPosInf \<in> set (map (amount_of \<circ> snd) (filter (\<lambda>e. \<not> is_company (snd e)) W))"
    and "JNegInf \<in> set (map (amount_of \<circ> snd) (filter (\<lambda>e. \<not> is_company (snd e)) W))"
  shows "\<exists>c. compute_monthly uid year month st =
           Inr (JObject [(''personal'', JNumber JNaN), (''company'', JNumber c), (''total'', JNumber JNaN)])"
proof -
  have "fst (expense_totals W) = JNaN"
    using jn_sum_opposite_inf [OF assms(4,5)] by (simp add: expense_totals_def)
  moreover have "compute_monthly uid year month st = Inr (totals_json (expense_totals W))"
    using compute_monthly_reference [OF assms(1,2)] assms(3) by simp
  ultimately show ?thesis by (simp add: totals_json_def)
qed

theorem expense_add_rejects_witness:
  "expense_add 5 ''u'' (JObject [(''category'', JString ''food'')]) store_empty =
    (Inr \<lparr>rs_status = 400, rs_body = JObject [(''error'', JString ''amount and category required'')]\<rparr>, store_empty)"
proof -
  have h: "loose_null (get_prop (JObject [(''category'', JString ''food'')]) ''amount'') \<or>
      \<not> js_truthy (get_prop (JObject [(''category'', JString ''food'')]) ''category'')" by code_simp
  show ?thesis using expense_add_rejects [OF h] .
qed

theorem expense_add_stores_witness:
  "to_number (JString ''abc'') = JNaN \<and>
   expense_add 5 ''u'' (JObject [(''amount'', JString ''abc''), (''category'', JString ''food'')]) store_empty =
    (Inr \<lparr>rs_status = 200, rs_body = JObject [(''id'', JString (id_str (st_next store_empty)))]\<rparr>,
     fs_append (''u'', ''expenses'') [(''amount'', JNumber (to_number (JString ''abc''))),
       (''category'', JString ''food''), (''note'', js_or JUndef JNull),
       (''imageUrl'', js_or JUndef JNull), (''createdAt'', JTime 5)] store_empty)"
proof -
  let ?b = "JObject [(''amount'', JString ''abc''), (''category'', JString ''food'')]"
  have g: "get_prop ?b ''amount'' = JString ''abc''" "get_prop ?b ''category'' = JString ''food''"
    "get_prop ?b ''note'' = JUndef" "get_prop ?b ''imageUrl'' = JUndef" by code_simp+
  have h: "\<not> loose_null (get_prop ?b ''amount'')" "js_truthy (get_prop ?b ''category'')"
    "fs_storable (get_prop ?b ''category'')" "fs_storable (js_or (get_prop ?b ''note'') JNull)"
    "fs_storable (js_or (get_prop ?b ''imageUrl'') JNull)" by code_simp+
  have n: "to_number (JString ''abc'') = JNaN" by code_simp
  show ?thesis using n expense_add_stores [OF h] unfolding g by simp
qed

theorem compute_monthly_window_witness:
  "\<exists>lo hi. month_start_time (JFin (of_int 2024)) (jn_sub (JFin (of_int 1)) (JFin 1)) = Some lo \<and>
     month_start_time (JFin (of_int 2024)) (JFin (of_int 1)) = Some hi \<and>
     (lo \<le> 1704877200000 \<and> 1704877200000 < hi \<longleftrightarrow>
        year_from_time 1704877200000 = 2024 \<and> month_from_time 1704877200000 = 1 - 1)"
proof -
  have y: "\<not> (0 \<le> (2024::int) \<and> 2024 \<le> (99::int))" "1 \<le> (1::int)" "(1::int) \<le> 12" by simp_all
  have "month_start_time (JFin (of_int 2024)) (jn_sub (JFin (of_int 1)) (JFin 1)) \<noteq> None"
       "month_start_time (JFin (of_int 2024)) (JFin (of_int 1)) \<noteq> None" by code_simp+
  then obtain lo hi where h: "month_start_time (JFin (of_int 2024)) (jn_sub (JFin (of_int 1)) (JFin 1)) = Some lo"
      "month_start_time (JFin (of_int 2024)) (JFin (of_int 1)) = Some hi" by blast
  show ?thesis using h compute_monthly_window [OF y h] by blast
qed

theorem compute_monthly_totals_witness:
  "\<exists>lo hi W. ts_from_date (month_start_time (JFin 2024) (jn_sub (JFin 1) (JFin 1))) = Inr lo \<and>
     ts_from_date (month_start_time (JFin 2024) (JFin 1)) = Inr hi \<and>
     W = filter (in_time_range ''createdAt'' lo hi) (st_colls (snd (expense_add 1704877200000 ''u'' (JObject [(''amount'', JNumber (JFin 12)), (''category'', JString ''food'')])
        (snd (expense_add 1704877200000 ''u'' (JObject [(''amount'', JString ''30''), (''category'', JString ''company'')]) store_empty)))) (''u'', ''expenses'')) \<and>
     list_all (\<lambda>e. \<exists>k::int. amount_of (snd e) = JFin (of_int k)) W \<and>
     sum_list (map (\<lambda>e. \<bar>amount_rat (snd e)\<bar>) W) \<le> 2 ^ 53 \<and>
     compute_monthly ''u'' (JFin 2024) (JFin 1) (snd (expense_add 1704877200000 ''u'' (JObject [(''amount'', JNumber (JFin 12)), (''category'', JString ''food'')])
        (snd (expense_add 1704877200000 ''u'' (JObject [(''amount'', JString ''30''), (''category'', JString ''company'')]) store_empty)))) =
       Inr (JObject [(''personal'', JNumber (JFin (sum_list (map (amount_rat \<circ> snd) (filter (\<lambda>e. \<not> is_company (snd e)) W))))),
                     (''company'', JNumber (JFin (sum_list (map (amount_rat \<circ> snd) (filter (\<lambda>e. is_company (snd e)) W))))),
                     (''total'', JNumber (JFin (sum_list (map (amount_rat \<circ> snd) W))))])"
proof -
  have h: "ts_from_date (month_start_time (JFin 2024) (jn_sub (JFin 1) (JFin 1))) = Inr 1704067200000"
      "ts_from_date (month_start_time (JFin 2024) (JFin 1)) = Inr 1706745600000" by code_simp+
  define W where "W = filter (in_time_range ''createdAt'' 1704067200000 1706745600000) (st_colls (snd (expense_add 1704877200000 ''u'' (JObject [(''amount'', JNumber (JFin 12)), (''category'', JString ''food'')])
        (snd (expense_add 1704877200000 ''u'' (JObject [(''amount'', JString ''30''), (''category'', JString ''company'')]) store_empty)))) (''u'', ''expenses''))"
  have "map (amount_of \<circ> snd) W = map (\<lambda>k. JFin (of_int k)) [30, 12]"
    unfolding W_def by code_simp
  then have i: "list_all (\<lambda>e. \<exists>k::int. amount_of (snd e) = JFin (of_int k)) W" by (rule int_amounts_intro)
  have b: "sum_list (map (\<lambda>e. \<bar>amount_rat (snd e)\<bar>) W) \<le> 2 ^ 53" unfolding W_def by code_simp
  have c: "compute_monthly ''u'' (JFin 2024) (JFin 1) (snd (expense_add 1704877200000 ''u'' (JObject [(''amount'', JNumber (JFin 12)), (''category'', JString ''food'')])
        (snd (expense_add 1704877200000 ''u'' (JObject [(''amount'', JString ''30''), (''category'', JString ''company'')]) store_empty)))) =
       Inr (JObject [(''personal'', JNumber (JFin (sum_list (map (amount_rat \<circ> snd) (filter (\<lambda>e. \<not> is_company (snd e)) W))))),
                     (''company'', JNumber (JFin (sum_list (map (amount_rat \<circ> snd) (filter (\<lambda>e. is_company (snd e)) W))))),
                     (''total'', JNumber (JFin (sum_list (map (amount_rat \<circ> snd) W))))])"
    by (rule compute_monthly_totals [OF h W_def i b])
  show ?thesis by (intro exI conjI) (rule h(1), rule h(2), rule W_def, rule i, rule b, rule c)
qed

theorem compute_monthly_opposite_infinities_witness:
  "\<exists>lo hi W. ts_from_date (month_start_time (JFin 2024) (jn_sub (JFin 1) (JFin 1))) = Inr lo \<and>
     ts_from_date (month_start_time (JFin 2024) (JFin 1)) = Inr hi \<and>
     W = filter (in_time_range ''createdAt'' lo hi) (st_colls (snd (expense_add 1704877200000 ''u'' (JObject [(''amount'', JString ''-Infinity''), (''category'', JString ''rent'')])
        (snd (expense_add 1704877200000 ''u'' (JObject [(''amount'', JString ''Infinity''), (''category'', JString ''food'')]) store_empty)))) (''u'', ''expenses'')) \<and>
     JPosInf \<in> set (map (amount_of \<circ> snd) (filter (\<lambda>e. \<not> is_company (snd e)) W)) \<and>
     JNegInf \<in> set (map (amount_of \<circ> snd) (filter (\<lambda>e. \<not> is_company (snd e)) W)) \<and>
     (\<exists>c. compute_monthly ''u'' (JFin 2024) (JFin 1) (snd (expense_add 1704877200000 ''u'' (JObject [(''amount'', JString ''-Infinity''), (''category'', JString ''rent'')])
        (snd (expense_add 1704877200000 ''u'' (JObject [(''amount'', JString ''Infinity''), (''category'', JString ''food'')]) store_empty)))) =
        Inr (JObject [(''personal'', JNumber JNaN), (''company'', JNumber c), (''total'', JNumber JNaN)]))"
proof -
  have h: "ts_from_date (month_start_time (JFin 2024) (jn_sub (JFin 1) (JFin 1))) = Inr 1704067200000"
      "ts_from_date (month_start_time (JFin 2024) (JFin 1)) = Inr 1706745600000" by code_simp+
  define W where "W = filter (in_time_range ''createdAt'' 1704067200000 1706745600000) (st_colls (snd (expense_add 1704877200000 ''u'' (JObject [(''amount'', JString ''-Infinity''), (''category'', JString ''rent'')])
        (snd (expense_add 1704877200000 ''u'' (JObject [(''amount'', JString ''Infinity''), (''category'', JString ''food'')]) store_empty)))) (''u'', ''expenses''))"
  have i: "JPosInf \<in> set (map (amount_of \<circ> snd) (filter (\<lambda>e. \<not> is_company (snd e)) W))"
    "JNegInf \<in> set (map (amount_of \<circ> snd) (filter (\<lambda>e. \<not> is_company (snd e)) W))"
    unfolding W_def by code_simp+
  have c: "\<exists>c. compute_monthly ''u'' (JFin 2024) (JFin 1) (snd (expense_add 1704877200000 ''u'' (JObject [(''amount'', JString ''-Infinity''), (''category'', JString ''rent'')])
        (snd (expense_add 1704877200000 ''u'' (JObject [(''amount'', JString ''Infinity''), (''category'', JString ''food'')]) store_empty)))) =
        Inr (JObject [(''personal'', JNumber JNaN), (''company'', JNumber c), (''total'', JNumber JNaN)])"
    by (rule compute_monthly_opposite_infinities [OF h W_def i])
  then obtain c0 where c0: "compute_monthly ''u'' (JFin 2024) (JFin 1) (snd (expense_add 1704877200000 ''u'' (JObject [(''amount'', JString ''-Infinity''), (''category'', JString ''rent'')])
        (snd (expense_add 1704877200000 ''u'' (JObject [(''amount'', JString ''Infinity''), (''category'', JString ''food'')]) store_empty)))) =
        Inr (JObject [(''personal'', JNumber JNaN), (''company'', JNumber c0), (''total'', JNumber JNaN)])" ..
  show ?thesis by (intro exI conjI) (rule h(1), rule h(2), rule W_def, rule i(1), rule i(2), rule c0)
qed

end
