(* ===== verification/Server.thy ===== *)
theory Server
  imports Schedule_Handlers Expense
begin

text \<open>
  The handlers of src/functions together, over one store: each call of an endpoint is a
  step, \<open>add\<close> of schedule.js and \<open>add\<close> of expense.js write to the store, \<open>list\<close> and
  \<open>monthly\<close> only read it.  The reachable stores are those that a sequence of calls
  builds from the empty store; their invariant says that the ids are fresh and
  distinct and that every stored document has the fields and types its handler wrote.
\<close>

datatype api_call =
    CallScheduleAdd clock int string jval
  | CallScheduleList string
  | CallExpenseAdd int string jval
  | CallMonthly int int string jval

fun api_store :: "store \<Rightarrow> api_call \<Rightarrow> store" where
  "api_store s (CallScheduleAdd clk now uid body) = snd (schedule_add clk now uid body s)"
| "api_store s (CallScheduleList uid) = s"
| "api_store s (CallExpenseAdd now uid body) = snd (expense_add now uid body s)"
| "api_store s (CallMonthly now_y now_m uid query) = s"

inductive reachable :: "store \<Rightarrow> bool" where
  reach_empty: "reachable store_empty"
| reach_step: "reachable s \<Longrightarrow> reachable (api_store s c)"

definition ids_ok :: "store \<Rightarrow> bool" where
  "ids_ok s \<longleftrightarrow> (\<forall>p. list_all (\<lambda>e. fst e < st_next s) (st_colls s p) \<and> distinct (map fst (st_colls s p)))"

definition store_inv :: "store \<Rightarrow> bool" where
  "store_inv s \<longleftrightarrow> ids_ok s \<and>
     (\<forall>uid. list_all (\<lambda>e. sched_doc_ok (snd e)) (st_colls s (uid, ''schedule'')) \<and>
            list_all (\<lambda>e. exp_doc_ok (snd e)) (st_colls s (uid, ''expenses'')))"

text \<open>A store after a free-text schedule \<open>add\<close> and an expense \<open>add\<close> with a non-numeric amount.\<close>

definition store_demo :: store where
  "store_demo = api_store (api_store store_empty
     (CallScheduleAdd clk_ref 1704877200000 ''demo'' (JObject [(''text'', JString ''lunch tomorrow at 1pm'')])))
     (CallExpenseAdd 1704877200000 ''demo'' (JObject [(''amount'', JString ''abc''), (''category'', JString ''food'')]))"

subsection \<open>The invariant of the store\<close>

lemma store_inv_empty: "store_inv store_empty"
  by (simp add: store_inv_def ids_ok_def store_empty_def)

lemma ids_ok_append:
  assumes "ids_ok s"
  shows "ids_ok (fs_append p d s)"
  unfolding ids_ok_def
proof (intro allI conjI)
  fix q
  have lt: "\<forall>e\<in>set (st_colls s q). fst e < st_next s" "distinct (map fst (st_colls s q))"
    using assms unfolding ids_ok_def list_all_iff by blast+
  then show "list_all (\<lambda>e. fst e < st_next (fs_append p d s)) (st_colls (fs_append p d s) q)"
    by (auto simp: list_all_iff)
  have "st_next s \<notin> fst ` set (st_colls s q)" using lt(1) by auto
  then show "distinct (map fst (st_colls (fs_append p d s) q))" using lt(2) by (cases "q = p") simp_all
qed

lemma store_inv_append_schedule:
  "store_inv s \<Longrightarrow> sched_doc_ok d \<Longrightarrow> store_inv (fs_append (uid, ''schedule'') d s)"
  by (simp add: store_inv_def ids_ok_append)

lemma store_inv_append_expense:
  "store_inv s \<Longrightarrow> exp_doc_ok d \<Longrightarrow> store_inv (fs_append (uid, ''expenses'') d s)"
  by (simp add: store_inv_def ids_ok_append)

lemma api_store_inv: "store_inv s \<Longrightarrow> store_inv (api_store s c)"
proof (cases c)
  case (CallScheduleAdd clk now uid body)
  assume "store_inv s"
  then show ?thesis
    using CallScheduleAdd schedule_add_effect [of clk now uid body s] store_inv_append_schedule by auto
next
  case (CallExpenseAdd now uid body)
  assume "store_inv s"
  then show ?thesis
    using CallExpenseAdd expense_add_effect [of now uid body s] store_inv_append_expense by auto
qed simp_all

lemma reachable_inv: "reachable s \<Longrightarrow> store_inv s"
  by (induction rule: reachable.induct) (simp_all add: store_inv_empty api_store_inv)

text \<open>C30: In every store that a sequence of calls builds, the ids of each collection
  are distinct and below the next id, every schedule document has a truthy title and
  datetime and a timestamp, and every expense document has a number amount, a truthy
  category and a timestamp.\<close>

theorem reachable_store_inv: "reachable s \<Longrightarrow> store_inv s"
  by (rule reachable_inv)

text \<open>C31: Every expense in a reachable store has a number as its amount, and
  \<open>computeMonthly\<close> counts it as that number, or as 0 when it is 0 or \<open>NaN\<close>.\<close>

theorem reachable_expense_amount:
  assumes "reachable s" and "e \<in> set (st_colls s (uid, ''expenses''))"
  shows "\<exists>n. doc_field (snd e) ''amount'' = Some (JNumber n) \<and> amount_of (snd e) = (if jn_truthy n then n else JFin 0)"
proof -
  have "exp_doc_ok (snd e)" using reachable_inv [OF assms(1)] assms(2) by (auto simp: store_inv_def list_all_iff)
  then show ?thesis by (rule exp_doc_amount)
qed

theorem reachable_store_inv_witness: "reachable store_demo \<and> store_inv store_demo"
proof -
  have r: "reachable store_demo" unfolding store_demo_def by (intro reach_step reach_empty)
  show ?thesis using r reachable_store_inv [OF r] by blast
qed

theorem reachable_expense_amount_witness:
  "\<exists>e. e \<in> set (st_colls store_demo (''demo'', ''expenses'')) \<and>
     (\<exists>n. doc_field (snd e) ''amount'' = Some (JNumber n) \<and> amount_of (snd e) = (if jn_truthy n then n else JFin 0))"
proof -
  have r: "reachable store_demo" unfolding store_demo_def by (intro reach_step reach_empty)
  have "st_colls store_demo (''demo'', ''expenses'') \<noteq> []" by code_simp
  then obtain e where e: "e \<in> set (st_colls store_demo (''demo'', ''expenses''))"
    by (metis list.set_intros(1) neq_Nil_conv)
  show ?thesis using e reachable_expense_amount [OF r e] by blast
qed

end
