(* ===== verification/Spec2Isabelle.thy ===== *)
theory Spec2Isabelle
  imports Server
begin

text \<open>
  Verification of the Cloud Functions of humdum-ai (src/functions): the
  natural-language schedule parser \<open>parseNaturalLanguage\<close>, the schedule and expense
  handlers over the document store, and the authentication middleware, with the
  JavaScript builtins they rely on modelled after the ECMAScript specification.

  \<^bold>\<open>The program.\<close>  Three files under src/functions: \<open>schedule.js\<close> (the handler
  \<open>add\<close>, which calls \<open>parseNaturalLanguage\<close> on free text and stores the event; the
  handler \<open>list\<close>), \<open>expense.js\<close> (\<open>add\<close>, \<open>computeMonthly\<close>, \<open>monthly\<close>) and
  \<open>utils.js\<close> (\<open>verifyToken\<close>, \<open>requireAuth\<close>, \<open>asyncHandler\<close>, \<open>ok\<close>).  A request
  passes \<open>requireAuth\<close>, which sets \<open>req.userId\<close>; a handler then reads and writes
  the collections \<open>users/{uid}/schedule\<close> and \<open>users/{uid}/expenses\<close> of Firestore
  and answers through \<open>ok\<close> or a 400; \<open>add\<close> of schedule.js calls the parser.

  \<^bold>\<open>Theories.\<close>
  \<^item> \<open>Prelude\<close>: numbers that may be \<open>NaN\<close> (\<open>int option\<close>), time values, the
    collections \<open>js_eval\<close> and \<open>len_simps\<close>.
  \<^item> \<open>JSString\<close>: character classes, \<open>toLowerCase\<close>, Canonicalize of the \<open>/i\<close>
    flag, \<open>includes\<close>, \<open>trim\<close>, \<open>substring\<close>, \<open>parseInt\<close>.
  \<^item> \<open>JSRegex\<close>: the regular expressions of the parser as a datatype, the
    backtracking matcher of ECMAScript 22.2.2 in continuation-passing style
    (\<open>rx_match\<close>, with \<open>rep_match\<close> for RepeatMatcher), \<open>exec\<close> (\<open>rx_search\<close>,
    \<open>js_match\<close>) and the global \<open>replace\<close> (\<open>js_replace_all\<close>); a declarative
    semantics \<open>rx_sem\<close> and the soundness of the matcher against it.
  \<^item> \<open>JSDate\<close>: time values and the calendar functions of ECMAScript 21.4 (Day,
    DayFromYear, YearFromTime as a search whose result meets its definition,
    MonthFromTime, DateFromTime, WeekDay, MakeDay, MakeTime, MakeDate, TimeClip),
    the constructor from fields, \<open>setDate\<close>, the getters and \<open>toISOString\<close>.
  \<^item> \<open>Schedule_Parser\<close>: \<open>parseNaturalLanguage\<close> itself, line by line: the four
    time patterns tried in order (\<open>scan_time\<close>), \<open>apply_meridiem\<close>, the date
    adjustments (\<open>adjust_date\<close>), the validity fallback (\<open>target_time\<close>), the
    title (\<open>strip_title\<close>, \<open>extract_title\<close>), the note (\<open>extract_note\<close>) and the
    whole function (\<open>parse_natural_language\<close>).
  \<^item> \<open>JSValue\<close>: JSON values (\<open>jval\<close>), numbers as rationals with the infinities
    and \<open>NaN\<close> (\<open>jnum\<close>), property access, truthiness, \<open>||\<close>, \<open>== null\<close>,
    \<open>Number()\<close> (\<open>to_number\<close>, \<open>string_to_number\<close>) and \<open>+\<close> (\<open>jn_add\<close>).
  \<^item> \<open>Firestore\<close>: the store as a record of collections of id-tagged documents;
    \<open>add\<close> (\<open>fs_add\<close>), \<open>orderBy\<close> (\<open>fs_order_by\<close>) and the timestamp range query
    (\<open>fs_where_time\<close>) of the Firebase Admin SDK, as the handlers use them.
  \<^item> \<open>Auth\<close>: utils.js, \<open>verify_token\<close>, \<open>require_auth\<close> (with \<open>demo_bypass\<close>),
    \<open>async_handler\<close>, \<open>ok\<close>.
  \<^item> \<open>Schedule_Handlers\<close>: \<open>schedule_add\<close> (\<open>add_from_text\<close>, \<open>add_explicit\<close>)
    and \<open>schedule_list\<close> of schedule.js.
  \<^item> \<open>Expense\<close>: \<open>expense_add\<close>, \<open>compute_monthly\<close> (with the loop
    \<open>sum_expenses\<close>) and \<open>monthly\<close> of expense.js.
  \<^item> \<open>Server\<close>: the calls of the endpoints as steps on one store, the reachable
    stores (an inductive predicate) and their invariant.

  \<^bold>\<open>What is proved.\<close>
  \<^item> Parser (\<open>Schedule_Parser\<close>, claims C1 to C15): the third time pattern reads the
    meridiem as the minute, so \<open>H am/pm\<close> alone falls back to the clock (C1, a
    defect of line 70); the parser never throws (C2) and its time value is valid (C3);
    the hour and minute of each time pattern, with the meridiem and the evening
    heuristic (C4, C5, C10, C11); the date for \<open>tomorrow\<close>/\<open>kal\<close>, \<open>next week\<close>,
    \<open>next <weekday>\<close> (the next day strictly after today whose calendar WeekDay is the
    one named) and no keyword (C6 to C9); the note, built from the words standing after
    the keywords (C12, C13), and the title (C14, C15).
  \<^item> Middleware (\<open>Auth\<close>, C16 to C18): without the bypass only a verified bearer
    token reaches a handler, with its uid; a missing token is a 401; \<open>?demo=true\<close> or
    \<open>x-demo: true\<close> admits anyone as \<open>demo\<close>.
  \<^item> Schedule handlers (\<open>Schedule_Handlers\<close>, C19 to C23): the free-text path answers
    with and stores the parser's title, ISO datetime and note, field by field; the error
    paths answer 400 and leave the store alone; \<open>list\<close> is a sorted permutation of the
    user's documents; what \<open>add\<close> stored, \<open>list\<close> returns.
  \<^item> Expenses (\<open>Expense\<close>, C24 to C29): validation of \<open>add\<close> and the document it
    stores, field by field; the totals of \<open>computeMonthly\<close> are the sums of the
    personal, company and all amounts of exactly the month's expenses, in any order, on
    integer amounts whose absolute sum is at most \<open>2^53\<close>; the window is exactly the
    calendar month; \<open>monthly\<close> defaults the year and the month each on its own;
    opposite infinities make the personal total and the total \<open>NaN\<close>.
  \<^item> Whole server (\<open>Server\<close>, C30, C31): the invariant of every reachable store
    (fresh distinct ids, the fields and types each handler writes), and that every
    stored amount is a number that \<open>computeMonthly\<close> counts as itself or 0.
  \<^item> The library theories carry the facts these rest on, as lemmas: the soundness of
    the regex matcher against \<open>rx_sem\<close> and that a match is the leftmost
    (\<open>js_match_leftmost_sound\<close>), YearFromTime meeting its definition
    (\<open>year_from_time_eq_iff\<close>), the calendar round trip (\<open>calendar_round_trip\<close>),
    WeekDay per day (\<open>week_day_shift\<close>), \<open>includes\<close> as the substring relation
    (\<open>js_includes_sublist\<close>) and \<open>Number\<close> against \<open>parseInt\<close> on digit strings
    (\<open>string_to_number_digits\<close>).
  Each theorem with hypotheses has a witness at a concrete sentence with the clock
  \<open>clk_ref\<close> (2024-01-10T09:00Z), evaluated by \<open>code_simp\<close>.

  \<^bold>\<open>Modelling choices.\<close>  Strings are lists of UTF-16 code units below 256
  (Latin-1).  On the parser's paths a JavaScript number is an integer or \<open>NaN\<close>
  (\<open>int option\<close>): every value it computes is integral, and a time value outside the
  TimeClip range (8.64e15 ms) is \<open>NaN\<close>.  In the handlers a number is a rational, an
  infinity or \<open>NaN\<close> (\<open>jnum\<close>): amounts add exactly, without the rounding of
  doubles, the overflow of large literals to \<open>Infinity\<close> or the sign of zero.  So the
  claims on sums are stated where this is the program's behaviour: C26 for integer
  amounts whose absolute values add up to at most \<open>2^53\<close> (there every addition of
  binary64 values is exact, in any order), C29 with infinities, which absorb finite
  addends under rounding too.  Local
  time is UTC.  Every reading of the clock is a parameter: the three of the parser
  (\<open>clock\<close>), \<open>createdAt\<close> of schedule \<open>add\<close>, the server timestamp of expense
  \<open>add\<close> and the two readings of \<open>monthly\<close>.  The Firebase services are parameters or
  abstract: \<open>verifyIdToken\<close> is a function from tokens to a uid or a rejection, the
  store is a record whose auto-ids are a counter, its writes reject \<open>undefined\<close> and
  arrays directly inside arrays, and its order ranks arrays and maps by type only.
  The definitions of \<open>Firestore\<close> are library semantics; each is mapped to the call
  in src/functions whose effect it gives (the \<open>add\<close>, \<open>orderBy\<close> and \<open>where\<close> calls).  A handler's result is its promise's outcome, a rejection (\<open>Inl\<close>,
  passed to \<open>next(err)\<close> by \<open>asyncHandler\<close>) or the response it sent (\<open>Inr\<close>), with
  the new store.  Every loop of the model is a \<open>function\<close> with a measure or a
  structural recursion, so everything is total and needs no fuel.  \<open>console.log\<close>
  and \<open>console.error\<close> do not affect the results and are left out.

  \<^bold>\<open>Not modelled.\<close>  The routing of requests to handlers (the express app that
  mounts them is not in src/functions), the JSON serialisation of responses (a field
  \<open>undefined\<close> is kept in the model, dropped on the wire), the network and the
  internals of Firebase Authentication and Firestore (transactions, failures,
  listeners), the rounding of doubles, the completeness of the regex matcher and a
  round trip of \<open>toISOString\<close>.
\<close>

end
